(* ===== verification/Prelude.thy ===== *)
theory Prelude
  imports Main "HOL-Library.Word" "HOL-Library.Char_ord" "HOL-Library.List_Lexorder"
    "HOL-Library.Product_Lexorder"
begin

text \<open>
  Shared vocabulary of the development: the result type behind Rust's \<^verbatim>\<open>?\<close> operator,
  the parts of the standard library the sources use on strings, integers and ordered maps,
  and the row-list reading of SQL tables.

  A Rust \<^verbatim>\<open>String\<close> is the list of its UTF-8 bytes (a \<^typ>\<open>char\<close> is one byte), so
  \<^verbatim>\<open>len()\<close> is \<^const>\<open>length\<close> and the derived order is the bytewise lexicographic one.
  A \<^verbatim>\<open>u64\<close> is a 64-bit word; a Postgres \<^verbatim>\<open>bigint\<close> (Rust \<^verbatim>\<open>i64\<close>) is an
  \<^typ>\<open>int\<close> whose range is checked where the source converts.
\<close>

named_theorems result_simps \<open>inversion of successful results\<close>
named_theorems table_simps \<open>row-list tables\<close>

section \<open>Results\<close>

text \<open>
  \<^term>\<open>tryE m f\<close> is \<^verbatim>\<open>let x = m?; f(x)\<close>: an error leaves the function at once.
\<close>

definition tryE :: "'e + 'a \<Rightarrow> ('a \<Rightarrow> 'e + 'b) \<Rightarrow> 'e + 'b" where
  "tryE m f = (case m of Inl e \<Rightarrow> Inl e | Inr x \<Rightarrow> f x)"

definition map_err :: "('e \<Rightarrow> 'd) \<Rightarrow> 'e + 'a \<Rightarrow> 'd + 'a" where
  "map_err g m = (case m of Inl e \<Rightarrow> Inl (g e) | Inr x \<Rightarrow> Inr x)"

definition ok_or :: "'e \<Rightarrow> 'a option \<Rightarrow> 'e + 'a" where
  "ok_or e m = (case m of None \<Rightarrow> Inl e | Some x \<Rightarrow> Inr x)"

text \<open>\<^term>\<open>ensure e b\<close> is \<^verbatim>\<open>if !b { return Err(e) }\<close>.\<close>

definition ensure :: "'e \<Rightarrow> bool \<Rightarrow> 'e + unit" where
  "ensure e b = (if b then Inr () else Inl e)"

definition is_ok :: "'e + 'a \<Rightarrow> bool" where
  "is_ok m = (case m of Inl _ \<Rightarrow> False | Inr _ \<Rightarrow> True)"

fun collectE :: "('a \<Rightarrow> 'e + 'b) \<Rightarrow> 'a list \<Rightarrow> 'e + 'b list" where
  "collectE f [] = Inr []"
| "collectE f (x # xs) = tryE (f x) (\<lambda>y. tryE (collectE f xs) (\<lambda>ys. Inr (y # ys)))"

lemma tryE_simps [simp]: "tryE (Inl e) f = Inl e" "tryE (Inr x) f = f x"
  by (simp_all add: tryE_def)

lemma map_err_simps [simp]: "map_err g (Inl e) = Inl (g e)" "map_err g (Inr x) = Inr x"
  by (simp_all add: map_err_def)

lemma ok_or_simps [simp]: "ok_or e None = Inl e" "ok_or e (Some x) = Inr x"
  by (simp_all add: ok_or_def)

lemma ensure_simps [simp]: "ensure e True = Inr ()" "ensure e False = Inl e"
  by (simp_all add: ensure_def)

lemma is_ok_simps [simp]: "is_ok (Inl e) = False" "is_ok (Inr x) = True"
  by (simp_all add: is_ok_def)

lemma tryE_Inr [result_simps]: "tryE m f = Inr y \<longleftrightarrow> (\<exists>x. m = Inr x \<and> f x = Inr y)"
  by (cases m) auto

lemma tryE_Inl: "tryE m f = Inl e \<longleftrightarrow> m = Inl e \<or> (\<exists>x. m = Inr x \<and> f x = Inl e)"
  by (cases m) auto

lemma map_err_Inr [result_simps]: "map_err g m = Inr y \<longleftrightarrow> m = Inr y"
  by (cases m) auto

lemma map_err_Inl: "map_err g m = Inl d \<longleftrightarrow> (\<exists>e. m = Inl e \<and> d = g e)"
  by (cases m) auto

lemma ok_or_Inr [result_simps]: "ok_or e m = Inr y \<longleftrightarrow> m = Some y"
  by (cases m) auto

lemma ensure_Inr [result_simps]: "ensure e b = Inr u \<longleftrightarrow> b"
  by (simp add: ensure_def)

lemma ensure_Inl: "ensure e b = Inl d \<longleftrightarrow> \<not> b \<and> d = e"
  by (auto simp: ensure_def)

lemma is_ok_iff: "is_ok m \<longleftrightarrow> (\<exists>x. m = Inr x)"
  by (cases m) auto

lemma collectE_Inr: "collectE f xs = Inr ys \<longleftrightarrow> list_all2 (\<lambda>x y. f x = Inr y) xs ys"
  by (induction xs arbitrary: ys) (auto simp: result_simps list_all2_Cons1)

section \<open>Integers\<close>

type_synonym u64 = "64 word"

text \<open>A \<^verbatim>\<open>Duration\<close> is its number of nanoseconds.\<close>

type_synonym duration = nat

definition as_millis :: "duration \<Rightarrow> nat" where
  "as_millis d = d div 1000000"

definition from_millis :: "nat \<Rightarrow> duration" where
  "from_millis ms = ms * 1000000"

definition i64_max :: int where
  "i64_max = 9223372036854775807"

definition fits_i64 :: "int \<Rightarrow> bool" where
  "fits_i64 x \<longleftrightarrow> - i64_max - 1 \<le> x \<and> x \<le> i64_max"

text \<open>\<^verbatim>\<open>i64::try_from(u64)\<close> and \<^verbatim>\<open>u64::try_from(i64)\<close>.\<close>

definition i64_of_u64 :: "u64 \<Rightarrow> int option" where
  "i64_of_u64 w = (if uint w \<le> i64_max then Some (uint w) else None)"

definition u64_of_i64 :: "int \<Rightarrow> u64 option" where
  "u64_of_i64 x = (if 0 \<le> x then Some (word_of_int x) else None)"

lemma uint_u64_bound: "uint (w :: u64) < 18446744073709551616"
  using uint_bounded [of w] by simp

lemma i64_of_u64_Some [result_simps]: "i64_of_u64 w = Some x \<longleftrightarrow> x = uint w \<and> uint w \<le> i64_max"
  by (auto simp: i64_of_u64_def)

lemma u64_of_i64_Some [result_simps]: "u64_of_i64 x = Some w \<longleftrightarrow> 0 \<le> x \<and> w = word_of_int x"
  by (auto simp: u64_of_i64_def)

lemma uint_of_i64: "0 \<le> x \<Longrightarrow> x \<le> i64_max \<Longrightarrow> uint (word_of_int x :: u64) = x"
  by (simp add: uint_word_of_int i64_max_def)

lemma u64_i64_roundtrip: "i64_of_u64 w = Some x \<Longrightarrow> u64_of_i64 x = Some w"
  by (simp add: result_simps)

section \<open>UTF-8 text\<close>

definition byte :: "char \<Rightarrow> nat" where
  "byte c = of_char c"

text \<open>The number of bytes of the character a lead byte opens.\<close>

definition utf8_len :: "char \<Rightarrow> nat" where
  "utf8_len c = (if byte c < 128 then 1 else if byte c < 224 then 2
     else if byte c < 240 then 3 else 4)"

function utf8_chars :: "string \<Rightarrow> string list" where
  "utf8_chars [] = []"
| "utf8_chars (c # cs) =
     (c # take (utf8_len c - 1) cs) # utf8_chars (drop (utf8_len c - 1) cs)"
  by pat_completeness auto
termination
  by (relation "measure length") auto

lemma concat_utf8_chars [simp]: "concat (utf8_chars s) = s"
  by (induction s rule: utf8_chars.induct) auto

lemma utf8_chars_eq_Nil [simp]: "utf8_chars s = [] \<longleftrightarrow> s = []"
  by (cases s) auto

text \<open>\<^verbatim>\<open>char::is_whitespace\<close>, on the encoded character.\<close>

definition unicode_whitespace :: "string list" where
  "unicode_whitespace =
     [[CHR 0x09], [CHR 0x0A], [CHR 0x0B], [CHR 0x0C], [CHR 0x0D], [CHR 0x20],
      [CHR 0xC2, CHR 0x85], [CHR 0xC2, CHR 0xA0], [CHR 0xE1, CHR 0x9A, CHR 0x80],
      [CHR 0xE2, CHR 0x80, CHR 0x80], [CHR 0xE2, CHR 0x80, CHR 0x81],
      [CHR 0xE2, CHR 0x80, CHR 0x82], [CHR 0xE2, CHR 0x80, CHR 0x83],
      [CHR 0xE2, CHR 0x80, CHR 0x84], [CHR 0xE2, CHR 0x80, CHR 0x85],
      [CHR 0xE2, CHR 0x80, CHR 0x86], [CHR 0xE2, CHR 0x80, CHR 0x87],
      [CHR 0xE2, CHR 0x80, CHR 0x88], [CHR 0xE2, CHR 0x80, CHR 0x89],
      [CHR 0xE2, CHR 0x80, CHR 0x8A], [CHR 0xE2, CHR 0x80, CHR 0xA8],
      [CHR 0xE2, CHR 0x80, CHR 0xA9], [CHR 0xE2, CHR 0x80, CHR 0xAF],
      [CHR 0xE2, CHR 0x81, CHR 0x9F], [CHR 0xE3, CHR 0x80, CHR 0x80]]"

definition is_whitespace :: "string \<Rightarrow> bool" where
  "is_whitespace ch \<longleftrightarrow> ch \<in> set unicode_whitespace"

definition trim :: "string \<Rightarrow> string" where
  "trim s = concat (rev (dropWhile is_whitespace (rev (dropWhile is_whitespace (utf8_chars s)))))"

text \<open>\<^verbatim>\<open>s.trim().is_empty()\<close>\<close>

definition is_blank :: "string \<Rightarrow> bool" where
  "is_blank s \<longleftrightarrow> trim s = []"

definition is_ascii_lowercase :: "char \<Rightarrow> bool" where
  "is_ascii_lowercase c \<longleftrightarrow> 97 \<le> byte c \<and> byte c \<le> 122"

definition is_ascii_uppercase :: "char \<Rightarrow> bool" where
  "is_ascii_uppercase c \<longleftrightarrow> 65 \<le> byte c \<and> byte c \<le> 90"

definition is_ascii_digit :: "char \<Rightarrow> bool" where
  "is_ascii_digit c \<longleftrightarrow> 48 \<le> byte c \<and> byte c \<le> 57"

definition is_ascii_alphanumeric :: "char \<Rightarrow> bool" where
  "is_ascii_alphanumeric c \<longleftrightarrow> is_ascii_lowercase c \<or> is_ascii_uppercase c \<or> is_ascii_digit c"

text \<open>\<^verbatim>\<open>bytes.first().is_some_and(p)\<close> and \<^verbatim>\<open>bytes.last().is_some_and(p)\<close>\<close>

definition first_is :: "(char \<Rightarrow> bool) \<Rightarrow> string \<Rightarrow> bool" where
  "first_is p s = (case s of [] \<Rightarrow> False | c # _ \<Rightarrow> p c)"

definition last_is :: "(char \<Rightarrow> bool) \<Rightarrow> string \<Rightarrow> bool" where
  "last_is p s = (case rev s of [] \<Rightarrow> False | c # _ \<Rightarrow> p c)"

lemma last_is_append [simp]: "ys \<noteq> [] \<Longrightarrow> last_is p (xs @ ys) = last_is p ys"
  by (cases "rev ys") (auto simp: last_is_def)

lemma trim_Nil_iff: "is_blank s \<longleftrightarrow> (\<forall>ch \<in> set (utf8_chars s). is_whitespace ch)"
proof -
  have ne: "\<forall>ch \<in> set (utf8_chars s). ch \<noteq> []"
    by (induction s rule: utf8_chars.induct) auto
  have "is_blank s \<longleftrightarrow> dropWhile is_whitespace (utf8_chars s) = []" (is "_ \<longleftrightarrow> ?d = []")
  proof
    assume "is_blank s"
    then have empty: "\<forall>ch \<in> set (dropWhile is_whitespace (rev ?d)). ch = []"
      by (simp add: is_blank_def trim_def)
    have "set (dropWhile is_whitespace (rev ?d)) \<subseteq> set (utf8_chars s)"
      by (metis set_dropWhileD set_rev subsetI)
    with empty ne have "dropWhile is_whitespace (rev ?d) = []"
      by (metis list.set_intros(1) neq_Nil_conv subsetD)
    then have all_ws: "\<forall>ch \<in> set ?d. is_whitespace ch"
      by (simp add: dropWhile_eq_Nil_conv)
    show "?d = []"
      using all_ws hd_dropWhile [of is_whitespace "utf8_chars s"] by (cases ?d) auto
  next
    assume "?d = []"
    then show "is_blank s"
      by (simp only: is_blank_def trim_def rev.simps dropWhile.simps concat.simps)
  qed
  then show ?thesis
    by (simp add: dropWhile_eq_Nil_conv)
qed

lemma is_whitespace_ascii: "is_whitespace [c] \<Longrightarrow> byte c \<le> 32"
  by (auto simp: is_whitespace_def unicode_whitespace_def byte_def)

lemma first_alphanumeric_not_blank: "first_is is_ascii_alphanumeric s \<Longrightarrow> \<not> is_blank s"
proof (cases s)
  case (Cons c cs)
  assume "first_is is_ascii_alphanumeric s"
  with Cons have c: "48 \<le> byte c" "byte c < 128"
    by (auto simp: first_is_def is_ascii_alphanumeric_def is_ascii_lowercase_def
        is_ascii_uppercase_def is_ascii_digit_def)
  with Cons have "utf8_chars s = [c] # utf8_chars cs"
    by (simp add: utf8_len_def)
  moreover from c have "\<not> is_whitespace [c]"
    by (auto dest: is_whitespace_ascii)
  ultimately show ?thesis
    by (simp add: trim_Nil_iff)
qed (simp add: first_is_def)

section \<open>Text search and numbers\<close>

text \<open>
  \<^verbatim>\<open>str::strip_prefix\<close> and \<^verbatim>\<open>str::find\<close> followed by \<^verbatim>\<open>split_at\<close>: the text before the first
  occurrence and the text from it on.
\<close>

fun strip_prefix :: "string \<Rightarrow> string \<Rightarrow> string option" where
  "strip_prefix [] s = Some s"
| "strip_prefix (p # ps) [] = None"
| "strip_prefix (p # ps) (c # cs) = (if p = c then strip_prefix ps cs else None)"

definition starts_with :: "string \<Rightarrow> string \<Rightarrow> bool" where
  "starts_with s p \<longleftrightarrow> strip_prefix p s \<noteq> None"

fun split_find :: "string \<Rightarrow> string \<Rightarrow> (string \<times> string) option" where
  "split_find [] p = (if p = [] then Some ([], []) else None)"
| "split_find (c # cs) p =
     (if starts_with (c # cs) p then Some ([], c # cs)
      else map_option (\<lambda>(before, rest). (c # before, rest)) (split_find cs p))"

definition str_contains :: "string \<Rightarrow> string \<Rightarrow> bool" where
  "str_contains s p \<longleftrightarrow> split_find s p \<noteq> None"

lemma strip_prefix_Some: "strip_prefix p s = Some r \<longleftrightarrow> s = p @ r"
  by (induction p s rule: strip_prefix.induct) auto

lemma strip_prefix_append [simp]: "strip_prefix p (p @ r) = Some r"
  by (simp add: strip_prefix_Some)

lemma starts_with_iff: "starts_with s p \<longleftrightarrow> (\<exists>r. s = p @ r)"
  unfolding starts_with_def using strip_prefix_Some [of p s] by auto

lemma split_find_Some:
  "split_find s p = Some (b, r) \<Longrightarrow> s = b @ r \<and> starts_with r p"
  by (induction s p arbitrary: b rule: split_find.induct)
    (auto split: if_splits simp: starts_with_def)

lemma str_contains_iff: "str_contains s p \<longleftrightarrow> (\<exists>b r. s = b @ p @ r)"
proof (induction s p rule: split_find.induct)
  case (2 c cs p)
  have "(\<exists>b r. c # cs = b @ p @ r) \<longleftrightarrow> starts_with (c # cs) p \<or> (\<exists>b r. cs = b @ p @ r)"
    by (auto simp: starts_with_iff Cons_eq_append_conv)
  with 2 show ?case
    by (auto simp: str_contains_def)
qed (simp add: str_contains_def)

lemma split_find_None: "split_find s p = None \<longleftrightarrow> \<not> str_contains s p"
  unfolding str_contains_def by (rule not_not [symmetric])

fun dec_nat :: "nat \<Rightarrow> string" where
  "dec_nat n = (if n < 10 then [char_of (48 + n)] else dec_nat (n div 10) @ [char_of (48 + n mod 10)])"

declare dec_nat.simps [simp del]

lemma dec_nat_digits: "c \<in> set (dec_nat n) \<Longrightarrow> is_ascii_digit c"
proof (induction n rule: dec_nat.induct)
  case (1 n)
  then show ?case
    by (subst (asm) (2) dec_nat.simps)
      (auto simp: is_ascii_digit_def byte_def split: if_splits)
qed

lemma dec_nat_not_Nil [simp]: "dec_nat n \<noteq> []"
  by (subst dec_nat.simps) simp

lemma char_of_digit_eq: "m < 10 \<Longrightarrow> n < (10 :: nat) \<Longrightarrow> char_of (48 + m) = (char_of (48 + n) :: char) \<longleftrightarrow> m = n"
  by (simp add: char_of_eq_iff take_bit_nat_eq_self)

lemma dec_nat_eq_iff [simp]: "dec_nat m = dec_nat n \<longleftrightarrow> m = n"
proof
  show "dec_nat m = dec_nat n \<Longrightarrow> m = n"
  proof (induction m arbitrary: n rule: dec_nat.induct)
    case (1 m)
    have single: "k < 10 \<Longrightarrow> dec_nat k = [char_of (48 + k)]" for k
      by (subst dec_nat.simps) simp
    have more: "\<not> k < 10 \<Longrightarrow> dec_nat k = dec_nat (k div 10) @ [char_of (48 + k mod 10)]" for k
      by (subst dec_nat.simps) simp
    show ?case
    proof (cases "m < 10"; cases "n < 10")
      assume big: "\<not> m < 10" "\<not> n < 10"
      have "dec_nat (m div 10) = dec_nat (n div 10)"
        and last: "char_of (48 + m mod 10) = (char_of (48 + n mod 10) :: char)"
        using "1.prems" by (simp_all add: more big)
      then have "m div 10 = n div 10" using "1.IH" big by blast
      moreover have "m mod 10 = n mod 10"
        using last char_of_digit_eq [of "m mod 10" "n mod 10"] by simp
      ultimately show ?thesis by (metis div_mult_mod_eq)
    qed (use "1.prems" in \<open>auto simp: single more char_of_digit_eq dec_nat_not_Nil [symmetric]\<close>)
  qed
qed simp

end
