(* ===== verification/Ids.thy ===== *)
theory Ids
  imports Prelude
begin

text \<open>
  Identifiers and counters shared by every crate: \<^verbatim>\<open>crates/sleepypods-types/src/lib.rs\<close>
  (non-empty strings, DNS-label instance IDs, generations) and
  \<^verbatim>\<open>crates/control-plane/src/kubernetes_name.rs\<close> (the Kubernetes names derived from an
  instance ID). A validated newtype is its string; the constructor decides which strings exist.
  SHA-256 comes from a library: it is the parameter \<^verbatim>\<open>sha256\<close> of the name rendering.
\<close>

section \<open>Validated strings\<close>

record empty_string_error =
  es_field :: string

definition NonEmptyString_new :: "string \<Rightarrow> string \<Rightarrow> empty_string_error + string" where
  "NonEmptyString_new fld v = (if is_blank v then Inl \<lparr>es_field = fld\<rparr> else Inr v)"

definition string_newtype_new :: "string \<Rightarrow> string \<Rightarrow> empty_string_error + string" where
  "string_newtype_new name v = tryE (NonEmptyString_new name v) Inr"

abbreviation IdempotencyKey_new :: "string \<Rightarrow> empty_string_error + string" where
  "IdempotencyKey_new \<equiv> string_newtype_new ''IdempotencyKey''"

abbreviation WorkloadClassId_new :: "string \<Rightarrow> empty_string_error + string" where
  "WorkloadClassId_new \<equiv> string_newtype_new ''WorkloadClassId''"

abbreviation RouteBindingId_new :: "string \<Rightarrow> empty_string_error + string" where
  "RouteBindingId_new \<equiv> string_newtype_new ''RouteBindingId''"

abbreviation MaterializationId_new :: "string \<Rightarrow> empty_string_error + string" where
  "MaterializationId_new \<equiv> string_newtype_new ''MaterializationId''"

lemma string_newtype_new_Inr [result_simps]:
  "string_newtype_new name v = Inr w \<longleftrightarrow> w = v \<and> \<not> is_blank v"
  by (auto simp: string_newtype_new_def NonEmptyString_new_def)

section \<open>Instance IDs\<close>

record invalid_instance_id =
  ii_value :: string
  ii_message :: string

definition INSTANCE_ID_MAX_LEN :: nat where
  "INSTANCE_ID_MAX_LEN = 63"

definition is_dns_label_byte :: "char \<Rightarrow> bool" where
  "is_dns_label_byte c \<longleftrightarrow> is_ascii_lowercase c \<or> is_ascii_digit c \<or> c = CHR ''-''"

definition is_dns_label :: "string \<Rightarrow> bool" where
  "is_dns_label v \<longleftrightarrow> v \<noteq> [] \<and> length v \<le> INSTANCE_ID_MAX_LEN
     \<and> list_all is_dns_label_byte v
     \<and> first_is is_ascii_alphanumeric v \<and> last_is is_ascii_alphanumeric v"

definition InstanceId_new :: "string \<Rightarrow> invalid_instance_id + string" where
  "InstanceId_new v =
     (if is_blank v then Inl \<lparr>ii_value = v, ii_message = ''must not be empty''\<rparr>
      else if \<not> is_dns_label v then
        Inl \<lparr>ii_value = v, ii_message = ''must be a Kubernetes DNS label: lowercase a-z, digits, or hyphen, start and end alphanumeric, and at most 63 characters''\<rparr>
      else Inr v)"

lemma is_dns_label_not_blank: "is_dns_label v \<Longrightarrow> \<not> is_blank v"
  by (simp add: is_dns_label_def first_alphanumeric_not_blank)

lemma InstanceId_new_Inr [result_simps]: "InstanceId_new v = Inr w \<longleftrightarrow> w = v \<and> is_dns_label v"
  using is_dns_label_not_blank by (auto simp: InstanceId_new_def)

text \<open>An instance ID never holds a colon, the separator of composite keys.\<close>

lemma is_dns_label_no_colon: "is_dns_label v \<Longrightarrow> CHR '':'' \<notin> set v"
  by (auto simp: is_dns_label_def list_all_iff is_dns_label_byte_def is_ascii_lowercase_def
      is_ascii_digit_def byte_def)

section \<open>Generations\<close>

type_synonym generation = u64
type_synonym backend_generation = u64

text \<open>
  The release profile compiles \<^verbatim>\<open>self.0 + 1\<close> without an overflow check, so it wraps.
\<close>

definition Generation_next :: "generation \<Rightarrow> generation" where
  "Generation_next g = g + 1"

lemma uint_Generation_next: "uint g \<le> i64_max \<Longrightarrow> uint (Generation_next g) = uint g + 1"
  by (simp add: Generation_next_def uint_word_ariths i64_max_def)

lemma uint_Generation_next2:
  "uint g \<le> i64_max \<Longrightarrow> uint (Generation_next (Generation_next g)) = uint g + 2"
  by (simp add: Generation_next_def uint_word_ariths i64_max_def)

section \<open>Kubernetes names\<close>

definition DNS_LABEL_MAX_LEN :: nat where
  "DNS_LABEL_MAX_LEN = 63"

definition INSTANCE_ID_HASH_HEX_LEN :: nat where
  "INSTANCE_ID_HASH_HEX_LEN = 8"

definition INSTANCE_ID_SEPARATOR_LEN :: nat where
  "INSTANCE_ID_SEPARATOR_LEN = 1"

definition hex_digit :: "nat \<Rightarrow> char" where
  "hex_digit n = (if n < 10 then char_of (48 + n) else char_of (87 + n))"

text \<open>\<^verbatim>\<open>format!("{byte:02x}")\<close>\<close>

definition hex_byte :: "char \<Rightarrow> string" where
  "hex_byte c = [hex_digit (byte c div 16), hex_digit (byte c mod 16)]"

definition instance_id_suffix :: "(string \<Rightarrow> string) \<Rightarrow> string \<Rightarrow> string" where
  "instance_id_suffix sha256 iid =
     concat (map hex_byte (take (INSTANCE_ID_HASH_HEX_LEN div 2) (sha256 iid)))"

text \<open>The scan over \<^verbatim>\<open>char_indices\<close>; the second argument is the byte index reached.\<close>

fun truncate_scan :: "nat \<Rightarrow> nat \<Rightarrow> string list \<Rightarrow> nat" where
  "truncate_scan max_len index [] = index"
| "truncate_scan max_len index (ch # chs) =
     (let next = index + length ch in
      if next > max_len then index else truncate_scan max_len next chs)"

definition truncate_to_byte_len :: "string \<Rightarrow> nat \<Rightarrow> string" where
  "truncate_to_byte_len v max_len =
     (if length v \<le> max_len then v else take (truncate_scan max_len 0 (utf8_chars v)) v)"

definition render_instance_scoped_name :: "(string \<Rightarrow> string) \<Rightarrow> string \<Rightarrow> string \<Rightarrow> string" where
  "render_instance_scoped_name sha256 base iid =
     (let suffix = instance_id_suffix sha256 iid;
          base_budget = DNS_LABEL_MAX_LEN - INSTANCE_ID_SEPARATOR_LEN - length suffix
      in truncate_to_byte_len base base_budget @ ''-'' @ suffix)"

lemma hex_digit_dns: "n < 16 \<Longrightarrow> is_ascii_lowercase (hex_digit n) \<or> is_ascii_digit (hex_digit n)"
  by (simp add: hex_digit_def is_ascii_lowercase_def is_ascii_digit_def byte_def)

lemma byte_less: "byte c < 256"
  by (simp add: byte_def)

lemma hex_byte_dns: "d \<in> set (hex_byte c) \<Longrightarrow> is_ascii_lowercase d \<or> is_ascii_digit d"
  using hex_digit_dns [of "byte c div 16"] hex_digit_dns [of "byte c mod 16"] byte_less [of c]
  by (auto simp: hex_byte_def)

lemma instance_id_suffix_dns:
  "d \<in> set (instance_id_suffix sha256 iid) \<Longrightarrow> is_ascii_lowercase d \<or> is_ascii_digit d"
  by (auto simp: instance_id_suffix_def dest: hex_byte_dns)

lemma length_instance_id_suffix:
  "4 \<le> length (sha256 iid) \<Longrightarrow> length (instance_id_suffix sha256 iid) = 8"
proof -
  have "length (concat (map hex_byte cs)) = 2 * length cs" for cs
    by (induction cs) (simp_all add: hex_byte_def)
  then show "4 \<le> length (sha256 iid) \<Longrightarrow> ?thesis"
    by (simp add: instance_id_suffix_def INSTANCE_ID_HASH_HEX_LEN_def)
qed

lemma truncate_scan_le: "index \<le> max_len \<Longrightarrow> truncate_scan max_len index chs \<le> max_len"
  by (induction chs arbitrary: index) (auto simp: Let_def)

lemma length_truncate: "length (truncate_to_byte_len v n) \<le> n"
  using truncate_scan_le [of 0 n "utf8_chars v"] by (auto simp: truncate_to_byte_len_def)

lemma truncate_is_prefix: "\<exists>k. truncate_to_byte_len v n = take k v"
  by (auto simp: truncate_to_byte_len_def intro: exI [of _ "length v"])

lemma truncate_scan_boundary:
  "\<exists>k. truncate_scan max_len index chs = index + length (concat (take k chs))"
proof (induction chs arbitrary: index)
  case (Cons ch chs)
  show ?case
  proof (cases "index + length ch > max_len")
    case True
    then show ?thesis by (intro exI [of _ 0]) simp
  next
    case False
    obtain k where "truncate_scan max_len (index + length ch) chs
        = index + length ch + length (concat (take k chs))"
      using Cons.IH by blast
    with False show ?thesis
      by (intro exI [of _ "Suc k"]) simp
  qed
qed simp



text \<open>
  The constructor of instance IDs accepts exactly the DNS labels and keeps the text
  unchanged; every other text, blank or not, comes back inside the error.
\<close>

theorem InstanceId_new_correct:
  "(InstanceId_new v = Inr w \<longleftrightarrow> w = v \<and> is_dns_label v)
   \<and> ((\<exists>e. InstanceId_new v = Inl e \<and> ii_value e = v) \<longleftrightarrow> \<not> is_dns_label v)"
  using is_dns_label_not_blank by (auto simp: InstanceId_new_def)

end
