(* ===== verification/BTree_Map.thy ===== *)
theory BTree_Map
  imports Prelude
begin

text \<open>
  The standard library's \<^verbatim>\<open>BTreeMap\<close>: an association list in strictly increasing key
  order, so that iterating it visits the keys in the order the program sees. The laws its clients
  use are the locale \<^verbatim>\<open>finite_map\<close>, interpreted on these operations.
\<close>

type_synonym ('k, 'v) btree = "('k \<times> 'v) list"

fun bt_get :: "('k::linorder, 'v) btree \<Rightarrow> 'k \<Rightarrow> 'v option" where
  "bt_get [] k = None"
| "bt_get ((k', v) # m) k = (if k = k' then Some v else bt_get m k)"

definition bt_contains_key :: "('k::linorder, 'v) btree \<Rightarrow> 'k \<Rightarrow> bool" where
  "bt_contains_key m k \<longleftrightarrow> bt_get m k \<noteq> None"

fun bt_insert :: "('k::linorder, 'v) btree \<Rightarrow> 'k \<Rightarrow> 'v \<Rightarrow> ('k, 'v) btree" where
  "bt_insert [] k v = [(k, v)]"
| "bt_insert ((k', v') # m) k v =
     (if k < k' then (k, v) # (k', v') # m
      else if k = k' then (k, v) # m
      else (k', v') # bt_insert m k v)"

definition bt_ok :: "('k::linorder, 'v) btree \<Rightarrow> bool" where
  "bt_ok m \<longleftrightarrow> sorted_wrt (<) (map fst m)"

text \<open>\<^verbatim>\<open>collect()\<close> into a map: a later pair replaces an earlier one.\<close>

definition bt_collect :: "('k::linorder \<times> 'v) list \<Rightarrow> ('k, 'v) btree" where
  "bt_collect = foldl (\<lambda>m (k, v). bt_insert m k v) []"

definition bt_remove :: "('k::linorder, 'v) btree \<Rightarrow> 'k \<Rightarrow> ('k, 'v) btree" where
  "bt_remove m k = filter (\<lambda>(k', v). k' \<noteq> k) m"

definition bt_first_key_value :: "('k::linorder, 'v) btree \<Rightarrow> ('k \<times> 'v) option" where
  "bt_first_key_value m = (case m of [] \<Rightarrow> None | kv # _ \<Rightarrow> Some kv)"

lemma bt_get_None: "bt_get m k = None \<longleftrightarrow> k \<notin> fst ` set m"
  by (induction m k rule: bt_get.induct) auto

lemma bt_get_mem: "bt_get m k = Some v \<Longrightarrow> (k, v) \<in> set m"
  by (induction m k rule: bt_get.induct) (auto split: if_splits)

lemma bt_get_eq_Some: "bt_ok m \<Longrightarrow> bt_get m k = Some v \<longleftrightarrow> (k, v) \<in> set m"
  by (induction m k rule: bt_get.induct) (auto simp: bt_ok_def)

lemma bt_contains_key_iff: "bt_contains_key m k \<longleftrightarrow> k \<in> fst ` set m"
  by (simp add: bt_contains_key_def bt_get_None)

lemma bt_get_insert: "bt_get (bt_insert m k v) k' = (if k' = k then Some v else bt_get m k')"
  by (induction m k v rule: bt_insert.induct) auto

lemma keys_bt_insert: "fst ` set (bt_insert m k v) = insert k (fst ` set m)"
  by (induction m k v rule: bt_insert.induct) auto

lemma bt_ok_insert: "bt_ok m \<Longrightarrow> bt_ok (bt_insert m k v)"
proof (induction m k v rule: bt_insert.induct)
  case (2 k' v' m k v)
  have keys: "x \<in> set (map fst (bt_insert m k v)) \<longleftrightarrow> x = k \<or> x \<in> set (map fst m)" for x
    by (simp add: keys_bt_insert)
  have tl: "bt_ok m" and hd: "\<forall>x \<in> set (map fst m). k' < x"
    using "2.prems" by (auto simp: bt_ok_def)
  consider "k < k'" | "k = k'" | "k' < k" by (rule linorder_cases)
  then show ?case
  proof cases
    case 1
    then show ?thesis using tl hd by (auto simp: bt_ok_def intro: less_trans)
  next
    case 2
    then show ?thesis using tl hd by (simp add: bt_ok_def)
  next
    case 3
    then have "bt_ok (bt_insert m k v)" using "2.IH" tl by simp
    moreover have "\<forall>x \<in> set (map fst (bt_insert m k v)). k' < x" using hd 3 by (auto simp only: keys)
    ultimately show ?thesis using 3 by (auto simp: bt_ok_def not_less_iff_gr_or_eq)
  qed
qed (simp add: bt_ok_def)

lemma bt_ok_Nil [simp]: "bt_ok []"
  by (simp add: bt_ok_def)

lemma bt_ok_remove: "bt_ok m \<Longrightarrow> bt_ok (bt_remove m k)"
  by (induction m) (auto simp: bt_ok_def bt_remove_def)

lemma bt_get_remove: "bt_get (bt_remove m k) k' = (if k' = k then None else bt_get m k')"
  by (induction m) (auto simp: bt_remove_def)

lemma bt_first_key_value_Some:
  assumes "bt_ok m" "bt_first_key_value m = Some (k, v)"
  shows "bt_get m k = Some v" "\<And>k' v'. bt_get m k' = Some v' \<Longrightarrow> k \<le> k'"
  using assms by (auto simp: bt_first_key_value_def bt_ok_def bt_get_eq_Some less_imp_le split: list.splits)

lemma bt_first_key_value_None: "bt_first_key_value m = None \<longleftrightarrow> (\<forall>k. bt_get m k = None)"
  by (cases m) (auto simp: bt_first_key_value_def)

section \<open>The interface\<close>

locale finite_map =
  fixes get :: "'m \<Rightarrow> 'k \<Rightarrow> 'v option"
    and ins :: "'m \<Rightarrow> 'k \<Rightarrow> 'v \<Rightarrow> 'm"
    and empty :: "'m"
    and inv :: "'m \<Rightarrow> bool"
  assumes get_empty: "get empty k = None"
    and get_ins: "inv m \<Longrightarrow> get (ins m k v) k' = (if k' = k then Some v else get m k')"
    and inv_empty: "inv empty"
    and inv_ins: "inv m \<Longrightarrow> inv (ins m k v)"
begin

lemma inv_foldl: "inv m \<Longrightarrow> inv (foldl (\<lambda>m (k, v). ins m k v) m kvs)"
  by (induction kvs arbitrary: m) (auto simp: inv_ins)

lemma get_foldl:
  "inv m \<Longrightarrow> get (foldl (\<lambda>m (k, v). ins m k v) m kvs) k =
     (case map_of (rev kvs) k of Some v \<Rightarrow> Some v | None \<Rightarrow> get m k)"
  by (induction kvs arbitrary: m)
    (auto simp: inv_ins get_ins map_add_def split: option.splits)

lemma get_collect: "get (foldl (\<lambda>m (k, v). ins m k v) empty kvs) k = map_of (rev kvs) k"
  by (simp add: get_foldl inv_empty get_empty split: option.splits)

lemma ins_same: "inv m \<Longrightarrow> get (ins m k v) k = Some v"
  by (simp add: get_ins)

lemma ins_other: "inv m \<Longrightarrow> k' \<noteq> k \<Longrightarrow> get (ins m k v) k' = get m k'"
  by (simp add: get_ins)

end

interpretation bt: finite_map bt_get bt_insert "[]" bt_ok
  by unfold_locales (simp_all add: bt_get_insert bt_ok_insert)

lemma bt_ok_collect: "bt_ok (bt_collect kvs)"
  unfolding bt_collect_def by (rule bt.inv_foldl) simp

lemma bt_get_collect: "bt_get (bt_collect kvs) k = map_of (rev kvs) k"
  unfolding bt_collect_def by (rule bt.get_collect)

text \<open>Two maps with the same lookups are equal: a map has one representation.\<close>

lemma bt_rebuild: "bt_ok m \<Longrightarrow> map (\<lambda>k. (k, the (bt_get m k))) (map fst m) = m"
  unfolding map_map by (rule map_idI) (simp add: bt_get_eq_Some [THEN iffD2] split_paired_all)

lemma bt_ext:
  assumes "bt_ok m" "bt_ok n" "\<And>k. bt_get m k = bt_get n k"
  shows "m = n"
proof -
  have "k \<in> fst ` set m \<longleftrightarrow> k \<in> fst ` set n" for k
    using assms(3) [of k] bt_get_None [of m k] bt_get_None [of n k] by simp
  then have "map fst m = map fst n"
    using assms(1,2) by (intro strict_sorted_equal) (auto simp: bt_ok_def)
  then show ?thesis
    using bt_rebuild [OF assms(1)] bt_rebuild [OF assms(2)] assms(3) by simp
qed

end
