(* ===== verification/Sleep_Policy.thy ===== *)
theory Sleep_Policy
  imports BTree_Map Ids
begin

text \<open>
  \<^verbatim>\<open>crates/control-plane/src/sleep_policy.rs\<close>: the idle, retry and drain durations of a
  workload class, and the per-instance override of the idle timeout read from the instance's
  values. Durations are \<^verbatim>\<open>u64\<close> milliseconds.
\<close>

type_synonym instance_values = "(string, string) btree"

record idle_timeout_override_policy =
  io_value_field :: string
  io_min_idle_timeout_ms :: u64
  io_max_idle_timeout_ms :: u64

record workload_sleep_policy =
  sp_idle_timeout_ms :: u64
  sp_idle_retry_backoff_ms :: u64
  sp_drain_grace_timeout_ms :: u64
  sp_idle_timeout_override :: "idle_timeout_override_policy option"

record resolved_sleep_policy =
  rs_idle_timeout_ms :: u64
  rs_idle_retry_backoff_ms :: u64
  rs_drain_grace_timeout_ms :: u64

datatype sleep_policy_error =
    NonPositiveDuration string
  | EmptyOverrideField
  | InvalidOverrideBounds u64 u64
  | MalformedOverrideValue string string
  | OverrideOutOfBounds string u64 u64 u64

section \<open>Validation\<close>

definition validate_positive_duration :: "string \<Rightarrow> u64 \<Rightarrow> sleep_policy_error + unit" where
  "validate_positive_duration fld v =
     (if v = 0 then Inl (NonPositiveDuration fld) else Inr ())"

definition override_validate :: "idle_timeout_override_policy \<Rightarrow> sleep_policy_error + unit" where
  "override_validate p =
     (if is_blank (io_value_field p) then Inl EmptyOverrideField
      else tryE (validate_positive_duration
             ''sleep_policy.idle_timeout_override.min_idle_timeout_ms'' (io_min_idle_timeout_ms p)) (\<lambda>_.
           tryE (validate_positive_duration
             ''sleep_policy.idle_timeout_override.max_idle_timeout_ms'' (io_max_idle_timeout_ms p)) (\<lambda>_.
           if io_min_idle_timeout_ms p > io_max_idle_timeout_ms p
           then Inl (InvalidOverrideBounds (io_min_idle_timeout_ms p) (io_max_idle_timeout_ms p))
           else Inr ())))"

definition IdleTimeoutOverridePolicy_new ::
    "string \<Rightarrow> u64 \<Rightarrow> u64 \<Rightarrow> sleep_policy_error + idle_timeout_override_policy" where
  "IdleTimeoutOverridePolicy_new fld mn mx =
     (let policy = \<lparr>io_value_field = fld, io_min_idle_timeout_ms = mn, io_max_idle_timeout_ms = mx\<rparr>
      in tryE (override_validate policy) (\<lambda>_. Inr policy))"

definition sleep_policy_validate :: "workload_sleep_policy \<Rightarrow> sleep_policy_error + unit" where
  "sleep_policy_validate p =
     tryE (validate_positive_duration ''sleep_policy.idle_timeout_ms'' (sp_idle_timeout_ms p)) (\<lambda>_.
     tryE (validate_positive_duration ''sleep_policy.idle_retry_backoff_ms''
       (sp_idle_retry_backoff_ms p)) (\<lambda>_.
     tryE (validate_positive_duration ''sleep_policy.drain_grace_timeout_ms''
       (sp_drain_grace_timeout_ms p)) (\<lambda>_.
     case sp_idle_timeout_override p of
       Some override_policy \<Rightarrow> override_validate override_policy
     | None \<Rightarrow> Inr ())))"

definition WorkloadSleepPolicy_new ::
    "u64 \<Rightarrow> u64 \<Rightarrow> u64 \<Rightarrow> sleep_policy_error + workload_sleep_policy" where
  "WorkloadSleepPolicy_new idle backoff grace =
     (let policy = \<lparr>sp_idle_timeout_ms = idle, sp_idle_retry_backoff_ms = backoff,
                    sp_drain_grace_timeout_ms = grace, sp_idle_timeout_override = None\<rparr>
      in tryE (sleep_policy_validate policy) (\<lambda>_. Inr policy))"

definition with_idle_timeout_override ::
    "workload_sleep_policy \<Rightarrow> idle_timeout_override_policy
     \<Rightarrow> sleep_policy_error + workload_sleep_policy" where
  "with_idle_timeout_override p override_policy =
     tryE (override_validate override_policy) (\<lambda>_.
     let p' = p\<lparr>sp_idle_timeout_override := Some override_policy\<rparr>
     in tryE (sleep_policy_validate p') (\<lambda>_. Inr p'))"

section \<open>Resolution\<close>

definition decimal_value :: "string \<Rightarrow> nat" where
  "decimal_value s = foldl (\<lambda>n c. 10 * n + (byte c - 48)) 0 s"

text \<open>\<^verbatim>\<open>str::parse::<u64>\<close> on a non-empty run of ASCII digits: it fails on overflow only.\<close>

definition parse_u64_digits :: "string \<Rightarrow> u64 option" where
  "parse_u64_digits s = (let n = decimal_value s in if n < 2 ^ 64 then Some (of_nat n) else None)"

definition parse_decimal_millis :: "string \<Rightarrow> string \<Rightarrow> sleep_policy_error + u64" where
  "parse_decimal_millis fld v =
     (if v = [] \<or> \<not> list_all is_ascii_digit v then Inl (MalformedOverrideValue fld v)
      else ok_or (MalformedOverrideValue fld v) (parse_u64_digits v))"

definition resolve_idle_timeout ::
    "workload_sleep_policy \<Rightarrow> instance_values \<Rightarrow> sleep_policy_error + u64" where
  "resolve_idle_timeout p vals =
     (case sp_idle_timeout_override p of
        None \<Rightarrow> Inr (sp_idle_timeout_ms p)
      | Some ov \<Rightarrow>
          (case bt_get vals (io_value_field ov) of
             None \<Rightarrow> Inr (sp_idle_timeout_ms p)
           | Some v \<Rightarrow>
               tryE (parse_decimal_millis (io_value_field ov) v) (\<lambda>parsed.
               if parsed < io_min_idle_timeout_ms ov \<or> parsed > io_max_idle_timeout_ms ov
               then Inl (OverrideOutOfBounds (io_value_field ov) parsed
                      (io_min_idle_timeout_ms ov) (io_max_idle_timeout_ms ov))
               else Inr parsed)))"

definition sleep_policy_resolve ::
    "workload_sleep_policy \<Rightarrow> instance_values \<Rightarrow> sleep_policy_error + resolved_sleep_policy" where
  "sleep_policy_resolve p vals =
     tryE (sleep_policy_validate p) (\<lambda>_.
     tryE (resolve_idle_timeout p vals) (\<lambda>idle.
     Inr \<lparr>rs_idle_timeout_ms = idle, rs_idle_retry_backoff_ms = sp_idle_retry_backoff_ms p,
          rs_drain_grace_timeout_ms = sp_drain_grace_timeout_ms p\<rparr>))"

section \<open>Correctness\<close>

lemma validate_positive_duration_Inr [result_simps]:
  "validate_positive_duration fld v = Inr u \<longleftrightarrow> v \<noteq> 0"
  by (simp add: validate_positive_duration_def)

definition override_ok :: "idle_timeout_override_policy \<Rightarrow> bool" where
  "override_ok p \<longleftrightarrow> \<not> is_blank (io_value_field p) \<and> 0 < io_min_idle_timeout_ms p
     \<and> io_min_idle_timeout_ms p \<le> io_max_idle_timeout_ms p"

definition sleep_policy_ok :: "workload_sleep_policy \<Rightarrow> bool" where
  "sleep_policy_ok p \<longleftrightarrow> 0 < sp_idle_timeout_ms p \<and> 0 < sp_idle_retry_backoff_ms p
     \<and> 0 < sp_drain_grace_timeout_ms p \<and> pred_option override_ok (sp_idle_timeout_override p)"

lemma override_validate_Inr [result_simps]: "override_validate p = Inr u \<longleftrightarrow> override_ok p"
  by (auto simp: override_validate_def override_ok_def tryE_Inr validate_positive_duration_Inr
      word_neq_0_conv)

lemma sleep_policy_validate_Inr [result_simps]:
  "sleep_policy_validate p = Inr u \<longleftrightarrow> sleep_policy_ok p"
  by (auto simp: sleep_policy_validate_def sleep_policy_ok_def tryE_Inr
      validate_positive_duration_Inr override_validate_Inr word_neq_0_conv split: option.split)

lemma decimal_value_snoc: "decimal_value (s @ [c]) = 10 * decimal_value s + (byte c - 48)"
  by (simp add: decimal_value_def)

lemma parse_decimal_millis_Inr [result_simps]:
  "parse_decimal_millis fld v = Inr n \<longleftrightarrow>
     v \<noteq> [] \<and> list_all is_ascii_digit v \<and> unat n = decimal_value v"
proof -
  have "(of_nat (decimal_value v) :: u64) = n \<longleftrightarrow> unat n = decimal_value v"
    if "decimal_value v < 2 ^ 64"
    using that by (auto simp: unat_of_nat take_bit_nat_eq_self word_unat_eq_iff)
  moreover have "unat n < 2 ^ 64"
    using unsigned_less [of n] by simp
  ultimately show ?thesis
    by (auto simp: parse_decimal_millis_def ok_or_Inr parse_u64_digits_def Let_def)
qed

text \<open>
  C27. Resolution succeeds exactly when the policy is well formed and the override value, if
  the instance supplies one, is a decimal number within the policy's bounds; the resolved idle
  timeout is that number, or the class default without an override, and the other two durations
  are the class's. A resolved idle timeout is never zero.
\<close>

theorem sleep_policy_resolve_correct:
  "sleep_policy_resolve p vals = Inr r \<longleftrightarrow>
     sleep_policy_ok p
     \<and> rs_idle_retry_backoff_ms r = sp_idle_retry_backoff_ms p
     \<and> rs_drain_grace_timeout_ms r = sp_drain_grace_timeout_ms p
     \<and> 0 < rs_idle_timeout_ms r
     \<and> (case sp_idle_timeout_override p of
          None \<Rightarrow> rs_idle_timeout_ms r = sp_idle_timeout_ms p
        | Some ov \<Rightarrow>
           (case bt_get vals (io_value_field ov) of
              None \<Rightarrow> rs_idle_timeout_ms r = sp_idle_timeout_ms p
            | Some v \<Rightarrow> v \<noteq> [] \<and> list_all is_ascii_digit v
                \<and> unat (rs_idle_timeout_ms r) = decimal_value v
                \<and> io_min_idle_timeout_ms ov \<le> rs_idle_timeout_ms r
                \<and> rs_idle_timeout_ms r \<le> io_max_idle_timeout_ms ov))"
proof -
  have pos: "override_ok ov \<Longrightarrow> io_min_idle_timeout_ms ov \<le> n \<Longrightarrow> 0 < n" for ov and n :: u64
    by (auto simp: override_ok_def)
  show ?thesis
    by (cases r)
      (auto simp: sleep_policy_resolve_def resolve_idle_timeout_def tryE_Inr
        sleep_policy_validate_Inr parse_decimal_millis_Inr sleep_policy_ok_def not_less
        split: option.split if_splits intro: pos)
qed

end
