(* ===== verification/Retry.thy ===== *)
theory Retry
  imports Prelude
begin

text \<open>
  \<^verbatim>\<open>crates/control-plane/src/retry.rs\<close>: the bounded retry loop with exponential backoff
  that wraps the store. The operation is a
  state transformer, so that a retried call sees the effects of the failed ones; the loop also
  returns the sleeps it made, in order.
\<close>

definition DURATION_MAX :: duration where
  "DURATION_MAX = (2 ^ 64 - 1) * 1000000000 + 999999999"

definition duration_checked_mul :: "duration \<Rightarrow> nat \<Rightarrow> duration option" where
  "duration_checked_mul d n = (if d * n \<le> DURATION_MAX then Some (d * n) else None)"

record retry_policy =
  rp_max_attempts :: nat
  rp_initial_backoff :: duration
  rp_max_backoff :: duration

definition RetryPolicy_default :: retry_policy where
  "RetryPolicy_default = \<lparr>rp_max_attempts = 4, rp_initial_backoff = 100000000,
     rp_max_backoff = 2000000000\<rparr>"

definition next_backoff :: "duration \<Rightarrow> duration \<Rightarrow> duration" where
  "next_backoff current mx =
     (if current = 0 \<or> mx = 0 then 0
      else min (case duration_checked_mul current 2 of Some d \<Rightarrow> d | None \<Rightarrow> mx) mx)"

type_synonym ('s, 'e, 'a) operation = "'s \<Rightarrow> ('e + 'a) \<times> 's"

function retry_loop ::
    "retry_policy \<Rightarrow> ('s, 'e, 'a) operation \<Rightarrow> ('e \<Rightarrow> bool) \<Rightarrow> nat \<Rightarrow> duration \<Rightarrow> 's
     \<Rightarrow> ('e + 'a) \<times> 's \<times> duration list" where
  "retry_loop p operation should_retry attempts backoff s =
     (let attempts = attempts + 1; (r, s') = operation s in
      case r of
        Inr v \<Rightarrow> (Inr v, s', [])
      | Inl e \<Rightarrow>
          if attempts < max (rp_max_attempts p) 1 \<and> should_retry e then
            (let (r', s'', sleeps) = retry_loop p operation should_retry attempts
                   (next_backoff backoff (rp_max_backoff p)) s'
             in (r', s'', (if backoff = 0 then sleeps else backoff # sleeps)))
          else (Inl e, s', []))"
  by pat_completeness auto
termination
  by (relation "measure (\<lambda>(p, _, _, attempts, _, _). max (rp_max_attempts p) 1 - attempts)") auto

declare retry_loop.simps [simp del]

definition retry_if ::
    "retry_policy \<Rightarrow> ('s, 'e, 'a) operation \<Rightarrow> ('e \<Rightarrow> bool) \<Rightarrow> 's
     \<Rightarrow> ('e + 'a) \<times> 's \<times> duration list" where
  "retry_if p operation should_retry s =
     retry_loop p operation should_retry 0 (rp_initial_backoff p) s"

section \<open>Correctness\<close>

text \<open>The state after \<^verbatim>\<open>n\<close> calls, and the outcome of call \<^verbatim>\<open>n\<close> (from 0).\<close>

primrec state_after :: "('s, 'e, 'a) operation \<Rightarrow> nat \<Rightarrow> 's \<Rightarrow> 's" where
  "state_after operation 0 s = s"
| "state_after operation (Suc n) s = state_after operation n (snd (operation s))"

definition outcome :: "('s, 'e, 'a) operation \<Rightarrow> nat \<Rightarrow> 's \<Rightarrow> 'e + 'a" where
  "outcome operation n s = fst (operation (state_after operation n s))"

definition retryable :: "('e \<Rightarrow> bool) \<Rightarrow> 'e + 'a \<Rightarrow> bool" where
  "retryable should_retry r = (case r of Inl e \<Rightarrow> should_retry e | Inr _ \<Rightarrow> False)"

text \<open>
  \<^verbatim>\<open>calls p op retry a n s\<close>: starting after \<^verbatim>\<open>a\<close> attempts, exactly
  \<^verbatim>\<open>n\<close> calls are made, every call but the last failing with a retryable error.
\<close>

definition calls ::
    "retry_policy \<Rightarrow> ('s, 'e, 'a) operation \<Rightarrow> ('e \<Rightarrow> bool) \<Rightarrow> nat \<Rightarrow> nat \<Rightarrow> 's \<Rightarrow> bool" where
  "calls p operation should_retry attempts n s \<longleftrightarrow>
     0 < n \<and> (n = 1 \<or> attempts + n \<le> max (rp_max_attempts p) 1)
     \<and> (\<forall>i < n - 1. retryable should_retry (outcome operation i s))
     \<and> (attempts + n < max (rp_max_attempts p) 1
          \<longrightarrow> \<not> retryable should_retry (outcome operation (n - 1) s))"

lemma retry_loop_stop:
  assumes "operation s = (r, s')"
    and "\<not> (attempts + 1 < max (rp_max_attempts p) 1 \<and> retryable should_retry r)"
  shows "retry_loop p operation should_retry attempts backoff s = (r, s', [])"
  using assms
  by (auto simp: retry_loop.simps [of p operation should_retry attempts] retryable_def Let_def
      split: sum.splits)

lemma retry_loop_again:
  assumes "operation s = (r, s')"
    and "attempts + 1 < max (rp_max_attempts p) 1" and "retryable should_retry r"
    and "retry_loop p operation should_retry (attempts + 1)
           (next_backoff backoff (rp_max_backoff p)) s' = (r', s'', sleeps)"
  shows "retry_loop p operation should_retry attempts backoff s =
           (r', s'', if backoff = 0 then sleeps else backoff # sleeps)"
  using assms
  by (auto simp: retry_loop.simps [of p operation should_retry attempts] retryable_def Let_def
      split: sum.splits)

lemma retry_loop_cases:
  obtains (stop) r s' where "operation s = (r, s')"
      "\<not> (attempts + 1 < max (rp_max_attempts p) 1 \<and> retryable should_retry r)"
  | (again) e s' where "operation s = (Inl e, s')"
      "attempts + 1 < max (rp_max_attempts p) 1" "should_retry e"
proof (cases "operation s")
  case (Pair r s')
  then show ?thesis
    using stop again by (cases r) (auto simp: retryable_def)
qed

lemma retry_loop_calls:
  "\<exists>n sleeps. calls p operation should_retry attempts n s
     \<and> retry_loop p operation should_retry attempts backoff s
       = (outcome operation (n - 1) s, state_after operation n s, sleeps)
     \<and> length sleeps < n"
proof (induction p operation should_retry attempts backoff s rule: retry_loop.induct)
  case (1 p operation should_retry attempts backoff s)
  show ?case
  proof (cases rule: retry_loop_cases [of operation s attempts p should_retry])
    case (stop r s')
    moreover have "calls p operation should_retry attempts 1 s"
      using stop by (simp add: calls_def outcome_def)
    ultimately show ?thesis
      using retry_loop_stop [of operation s r s' attempts p should_retry backoff, OF stop]
      by (intro exI [of _ 1] exI [of _ "[]"]) (simp add: outcome_def)
  next
    case (again e s')
    note rs = again(1)
    obtain n sleeps where n: "calls p operation should_retry (attempts + 1) n s'"
        "retry_loop p operation should_retry (attempts + 1)
           (next_backoff backoff (rp_max_backoff p)) s'
         = (outcome operation (n - 1) s', state_after operation n s', sleeps)"
        "length sleeps < n"
      using "1.IH" [OF refl refl rs [symmetric] refl conjI, OF again(2,3)] by blast
    have step: "retry_loop p operation should_retry attempts backoff s =
        (outcome operation (n - 1) s', state_after operation n s',
         (if backoff = 0 then sleeps else backoff # sleeps))"
      by (rule retry_loop_again [of operation s "Inl e" s', OF rs again(2) _ n(2)]) (simp add: retryable_def again)
    have shift: "outcome operation (Suc i) s = outcome operation i s'" for i
      by (simp add: outcome_def rs)
    have "calls p operation should_retry attempts (Suc n) s"
      unfolding calls_def
    proof (intro conjI allI impI)
      fix i assume "i < Suc n - 1"
      then show "retryable should_retry (outcome operation i s)"
        using n(1) again
        by (cases i) (auto simp: shift calls_def outcome_def retryable_def)
    next
      show "\<not> retryable should_retry (outcome operation (Suc n - 1) s)"
        if "attempts + Suc n < max (rp_max_attempts p) 1"
        using n(1) that by (cases n) (auto simp: calls_def shift)
    qed (use n(1) again in \<open>auto simp: calls_def\<close>)
    moreover have "outcome operation (Suc n - 1) s = outcome operation (n - 1) s'"
      using n(1) by (cases n) (auto simp: calls_def shift)
    ultimately show ?thesis
      using n(3) step
      by (intro exI [of _ "Suc n"] exI [of _ "if backoff = 0 then sleeps else backoff # sleeps"])
        (auto simp: rs)
  qed
qed

lemma next_backoff_le: "next_backoff b mx \<le> mx"
  by (simp add: next_backoff_def)

lemma retry_loop_sleeps:
  "d \<in> set (snd (snd (retry_loop p operation should_retry attempts backoff s)))
   \<Longrightarrow> 0 < d \<and> d \<le> max backoff (rp_max_backoff p)"
proof (induction p operation should_retry attempts backoff s rule: retry_loop.induct)
  case (1 p operation should_retry attempts backoff s)
  show ?case
  proof (cases rule: retry_loop_cases [of operation s attempts p should_retry])
    case (stop r s')
    then show ?thesis
      using "1.prems" retry_loop_stop [of operation s r s' attempts p should_retry backoff, OF stop] by simp
  next
    case (again e s')
    obtain r' s'' sleeps where rest: "retry_loop p operation should_retry (attempts + 1)
           (next_backoff backoff (rp_max_backoff p)) s' = (r', s'', sleeps)"
      by (rule prod_cases3 [of "retry_loop p operation should_retry (attempts + 1)
           (next_backoff backoff (rp_max_backoff p)) s'"])
    have step: "retry_loop p operation should_retry attempts backoff s =
        (r', s'', if backoff = 0 then sleeps else backoff # sleeps)"
      by (rule retry_loop_again [of operation s "Inl e" s', OF again(1,2) _ rest]) (simp add: retryable_def again)
    have "d \<in> set sleeps \<or> (d = backoff \<and> backoff \<noteq> 0)"
      using "1.prems" step by (auto split: if_splits)
    moreover have "0 < d \<and> d \<le> rp_max_backoff p" if "d \<in> set sleeps"
      using "1.IH" [OF refl refl again(1) [symmetric] refl conjI, OF again(2,3)] rest that
        next_backoff_le [of backoff "rp_max_backoff p"] by auto
    ultimately show ?thesis by auto
  qed
qed

text \<open>
  C28. The retry loop always ends. It calls the operation at least once and at most
  \<^verbatim>\<open>max(max_attempts, 1)\<close> times, returns the outcome of the last call with the state that
  call left, retried only errors the predicate accepts, and gives up on a retryable error only
  when the attempts are used up. It sleeps at most once between two calls, never for zero time
  and never longer than the larger of the initial and the maximal backoff.
\<close>

theorem retry_if_correct:
  "\<exists>n sleeps. retry_if p operation should_retry s =
       (outcome operation (n - 1) s, state_after operation n s, sleeps)
     \<and> 1 \<le> n \<and> n \<le> max (rp_max_attempts p) 1
     \<and> (\<forall>i < n - 1. retryable should_retry (outcome operation i s))
     \<and> (retryable should_retry (outcome operation (n - 1) s) \<longrightarrow> n = max (rp_max_attempts p) 1)
     \<and> length sleeps < n
     \<and> (\<forall>d \<in> set sleeps. 0 < d \<and> d \<le> max (rp_initial_backoff p) (rp_max_backoff p))"
proof -
  let ?r = "retry_loop p operation should_retry 0 (rp_initial_backoff p) s"
  obtain n sleeps where n: "calls p operation should_retry 0 n s"
      "?r = (outcome operation (n - 1) s, state_after operation n s, sleeps)"
      "length sleeps < n"
    using retry_loop_calls [of p operation should_retry 0 s "rp_initial_backoff p"] by blast
  have "n \<le> max (rp_max_attempts p) 1"
    using n(1) by (auto simp: calls_def max_def)
  then show ?thesis
    using n retry_loop_sleeps [of _ p operation should_retry 0 "rp_initial_backoff p" s]
    by (intro exI [of _ n] exI [of _ sleeps]) (auto simp: calls_def retry_if_def Suc_le_eq)
qed

lemma retry_if_witness:
  "retry_if RetryPolicy_default (\<lambda>n. (if n < 2 then Inl n else Inr n, n + 1)) (\<lambda>_. True) (0 :: nat)
     = (Inr 2, 3, [100000000, 200000000])
   \<and> (\<exists>n sleeps. retry_if RetryPolicy_default
          (\<lambda>n. (if n < 2 then Inl n else Inr n, n + 1)) (\<lambda>_. True) (0 :: nat) =
       (outcome (\<lambda>n. (if n < 2 then Inl n else Inr n, n + 1)) (n - 1) 0,
        state_after (\<lambda>n. (if n < 2 then Inl n else Inr n, n + 1)) n 0, sleeps)
     \<and> 1 \<le> n \<and> n \<le> 4)"
proof
  show "retry_if RetryPolicy_default (\<lambda>n. (if n < 2 then Inl n else Inr n, n + 1)) (\<lambda>_. True) (0 :: nat)
     = (Inr 2, 3, [100000000, 200000000])"
    by (simp add: retry_if_def RetryPolicy_default_def retry_loop.simps next_backoff_def
        duration_checked_mul_def DURATION_MAX_def)
qed (use retry_if_correct [of RetryPolicy_default "\<lambda>n. (if n < 2 then Inl n else Inr n, n + 1)"
      "\<lambda>_. True" "0 :: nat"] in \<open>auto simp: RetryPolicy_default_def\<close>)

end
