(* ===== verification/Instance_State.thy ===== *)
theory Instance_State
  imports Prelude
begin

text \<open>
  \<^verbatim>\<open>crates/sleepypods-api/src/instance.rs\<close> (the instance states) and the transition
  validator of \<^verbatim>\<open>crates/control-plane/src/instance.rs\<close>.
\<close>

datatype instance_state = Cold | Waking | Running | Draining | Failed | Deleting | Deleted

datatype state_transition_reason =
    OperatorRequested
  | WakeRequested
  | MaterializationReady
  | SleepRequested
  | IdleReported
  | DrainCompleted
  | FailureReported string
  | DeleteRequested
  | DeleteFinalized

record invalid_state_transition =
  it_current :: instance_state
  it_next :: instance_state
  it_reason :: state_transition_reason

definition valid_transition ::
    "instance_state \<Rightarrow> instance_state \<Rightarrow> state_transition_reason \<Rightarrow> bool" where
  "valid_transition current next reason =
     (case (current, next, reason) of
        (Cold, Waking, WakeRequested) \<Rightarrow> True
      | (Cold, Deleting, DeleteRequested) \<Rightarrow> True
      | (Waking, Running, MaterializationReady) \<Rightarrow> True
      | (Waking, Failed, FailureReported _) \<Rightarrow> True
      | (Waking, Deleting, DeleteRequested) \<Rightarrow> True
      | (Running, Draining, SleepRequested) \<Rightarrow> True
      | (Running, Draining, IdleReported) \<Rightarrow> True
      | (Running, Deleting, DeleteRequested) \<Rightarrow> True
      | (Draining, Cold, DrainCompleted) \<Rightarrow> True
      | (Draining, Waking, WakeRequested) \<Rightarrow> True
      | (Draining, Deleting, DeleteRequested) \<Rightarrow> True
      | (Failed, Waking, WakeRequested) \<Rightarrow> True
      | (Failed, Deleting, DeleteRequested) \<Rightarrow> True
      | (Deleting, Deleted, DeleteFinalized) \<Rightarrow> True
      | _ \<Rightarrow> False)"

definition validate_instance_state_transition ::
    "instance_state \<Rightarrow> instance_state \<Rightarrow> state_transition_reason
     \<Rightarrow> invalid_state_transition + unit" where
  "validate_instance_state_transition current next reason =
     (if valid_transition current next reason then Inr ()
      else Inl \<lparr>it_current = current, it_next = next, it_reason = reason\<rparr>)"

lemma validate_transition_Inr [result_simps]:
  "validate_instance_state_transition c n r = Inr u \<longleftrightarrow> valid_transition c n r"
  by (simp add: validate_instance_state_transition_def)

section \<open>The life of an instance\<close>

text \<open>Histories of one instance: one accepted transition after the other.\<close>

inductive transition_path :: "instance_state \<Rightarrow> instance_state \<Rightarrow> bool" where
  stay: "transition_path s s"
| move: "transition_path s t \<Longrightarrow> validate_instance_state_transition t u r = Inr ()
    \<Longrightarrow> transition_path s u"

inductive_simps transition_path_simps: "transition_path s t"

lemma valid_transition_from_Deleted: "\<not> valid_transition Deleted n r"
  by (simp add: valid_transition_def)

lemma valid_transition_from_Deleting: "valid_transition Deleting n r \<Longrightarrow> n = Deleted"
  by (cases n; cases r) (simp_all add: valid_transition_def)

lemma valid_transition_reaches:
  "valid_transition s t r \<Longrightarrow> transition_path s t"
  by (rule transition_path.move [OF transition_path.stay]) (simp add: validate_transition_Inr)

lemma transition_path_trans:
  assumes "transition_path t u" "transition_path s t"
  shows "transition_path s u"
  using assms by (induction rule: transition_path.induct) (auto intro: transition_path.move)

lemma transition_path_Deleting:
  "transition_path s t \<Longrightarrow> s \<in> {Deleting, Deleted} \<Longrightarrow> t \<in> {Deleting, Deleted}"
  by (induction rule: transition_path.induct)
    (auto simp: validate_transition_Inr valid_transition_from_Deleted
      dest: valid_transition_from_Deleting)

lemma transition_path_cycle:
  "transition_path Cold Waking" "transition_path Waking Running" "transition_path Running Draining"
  "transition_path Draining Cold" "transition_path Waking Failed" "transition_path Failed Waking"
  "transition_path Cold Deleting" "transition_path Deleting Deleted"
  by (rule valid_transition_reaches [where r = WakeRequested]
        valid_transition_reaches [where r = MaterializationReady]
        valid_transition_reaches [where r = SleepRequested]
        valid_transition_reaches [where r = DrainCompleted]
        valid_transition_reaches [where r = "FailureReported []"]
        valid_transition_reaches [where r = DeleteRequested]
        valid_transition_reaches [where r = DeleteFinalized],
      simp add: valid_transition_def)+

text \<open>
  C36. Deletion is the only way out of the working life and cannot be undone: the working
  states (cold, waking, running, draining, failed) all reach each other and all reach deletion,
  while from a deleting instance only the deleted state is reachable and from a deleted one none.
\<close>

theorem transition_path_iff:
  "transition_path s t \<longleftrightarrow>
     s = t \<or> s \<notin> {Deleting, Deleted} \<or> (s = Deleting \<and> t = Deleted)"
proof
  assume "transition_path s t"
  then show "s = t \<or> s \<notin> {Deleting, Deleted} \<or> (s = Deleting \<and> t = Deleted)"
    by (induction rule: transition_path.induct)
      (auto simp: validate_transition_Inr valid_transition_from_Deleted
        dest: valid_transition_from_Deleting)
next
  note tr = transition_path_trans
  have to_cold: "transition_path s Cold" if "s \<notin> {Deleting, Deleted}"
    using that transition_path_cycle by (cases s) (blast intro: tr transition_path.stay)+
  have from_cold: "transition_path Cold t"
    using transition_path_cycle by (cases t) (blast intro: tr transition_path.stay)+
  assume "s = t \<or> s \<notin> {Deleting, Deleted} \<or> (s = Deleting \<and> t = Deleted)"
  then show "transition_path s t"
    using to_cold from_cold transition_path_cycle by (blast intro: tr transition_path.stay)
qed

lemma transition_path_iff_witness:
  "transition_path Failed Deleted \<and> \<not> transition_path Deleting Cold \<and> \<not> transition_path Deleted Deleting"
  by (simp add: transition_path_iff)

end
