(* ===== verification/Manifest_Template.thy ===== *)
theory Manifest_Template
  imports Sleep_Policy
begin

text \<open>
  The manifest templates of a workload class: \<^verbatim>\<open>crates/control-plane/src/manifest/template.rs\<close>
  and the render errors of \<^verbatim>\<open>manifest/mod.rs\<close>. A template text is a list of literal parts
  and of parts filled from an instance value.
\<close>

datatype template_text_part = Literal string | InstanceValue string

record template_text =
  tt_parts :: "template_text_part list"

datatype workload_kind = Deployment | StatefulSet

datatype persistent_volume_access_mode = ReadWriteOnce | ReadOnlyMany | ReadWriteMany

datatype persistent_volume_reclaim_policy = Retain | Delete

record container_port_template =
  cp_name :: "string option"
  cp_container_port :: "16 word"

record env_var_template =
  ev_name :: string
  ev_value :: template_text

record container_template =
  ct_name :: string
  ct_image :: template_text
  ct_ports :: "container_port_template list"
  ct_env :: "env_var_template list"

record workload_template =
  wt_kind :: workload_kind
  wt_name :: template_text
  wt_replicas :: "32 word option"
  wt_app_container :: container_template

record sidecar_template =
  st_name :: string
  st_image :: template_text
  st_listen_port :: "16 word"
  st_mode :: "string option"

record service_port_template =
  svp_name :: "string option"
  svp_port :: "16 word"
  svp_target_port :: "16 word"

record service_template =
  sv_name :: template_text
  sv_ports :: "service_port_template list"

record csi_secret_ref_template =
  sr_name :: template_text
  sr_namespace :: template_text

record csi_template =
  csi_driver :: template_text
  csi_volume_handle :: template_text
  csi_fs_type :: "template_text option"
  csi_read_only :: bool
  csi_volume_attributes :: "(string, template_text) btree"
  csi_controller_publish_secret_ref :: "csi_secret_ref_template option"
  csi_node_stage_secret_ref :: "csi_secret_ref_template option"
  csi_node_publish_secret_ref :: "csi_secret_ref_template option"
  csi_controller_expand_secret_ref :: "csi_secret_ref_template option"
  csi_node_expand_secret_ref :: "csi_secret_ref_template option"

datatype persistent_volume_source_template =
    Csi csi_template
  | HostPath template_text "template_text option"

record volume_template =
  vt_name :: string
  vt_mount_path :: template_text
  vt_pv_name :: template_text
  vt_pvc_name :: template_text
  vt_access_modes :: "persistent_volume_access_mode list"
  vt_capacity :: template_text
  vt_reclaim_policy :: persistent_volume_reclaim_policy
  vt_storage_class_name :: "template_text option"
  vt_source :: persistent_volume_source_template

record raw_kubernetes_manifest_template =
  rk_manifest :: template_text

record manifest_template =
  mt_workload :: workload_template
  mt_sidecar :: sidecar_template
  mt_service :: "service_template option"
  mt_volumes :: "volume_template list"
  mt_raw_objects :: "raw_kubernetes_manifest_template list"

datatype manifest_render_error =
    MissingInstanceValue string
  | InvalidName string string
  | InvalidField string string
  | InvalidReplicas workload_kind "32 word" string

section \<open>Template texts\<close>

definition TemplateText_literal :: "string \<Rightarrow> template_text" where
  "TemplateText_literal v = \<lparr>tt_parts = [Literal v]\<rparr>"

definition TemplateText_instance_value :: "string \<Rightarrow> template_text" where
  "TemplateText_instance_value fld = \<lparr>tt_parts = [InstanceValue fld]\<rparr>"

definition literal_prefix :: "template_text \<Rightarrow> string" where
  "literal_prefix t = (case tt_parts t of Literal l # _ \<Rightarrow> l | _ \<Rightarrow> [])"

fun render_parts ::
    "instance_values \<Rightarrow> string \<Rightarrow> template_text_part list \<Rightarrow> manifest_render_error + string" where
  "render_parts vals rendered [] = Inr rendered"
| "render_parts vals rendered (Literal v # ps) = render_parts vals (rendered @ v) ps"
| "render_parts vals rendered (InstanceValue fld # ps) =
     tryE (ok_or (MissingInstanceValue fld) (bt_get vals fld)) (\<lambda>v.
     render_parts vals (rendered @ v) ps)"

definition template_render ::
    "template_text \<Rightarrow> instance_values \<Rightarrow> manifest_render_error + string" where
  "template_render t vals = render_parts vals [] (tt_parts t)"

definition validate_replicas :: "workload_template \<Rightarrow> manifest_render_error + unit" where
  "validate_replicas w =
     (let replicas = (case wt_replicas w of Some r \<Rightarrow> r | None \<Rightarrow> 1) in
      if replicas \<noteq> 1
      then Inl (InvalidReplicas (wt_kind w) replicas ''automatic sleep requires exactly one replica'')
      else Inr ())"

section \<open>Rendering\<close>

definition part_value :: "instance_values \<Rightarrow> template_text_part \<Rightarrow> string option" where
  "part_value vals p = (case p of Literal v \<Rightarrow> Some v | InstanceValue fld \<Rightarrow> bt_get vals fld)"

lemma part_value_simps [simp]:
  "part_value vals (Literal v) = Some v"
  "part_value vals (InstanceValue fld) = bt_get vals fld"
  by (simp_all add: part_value_def)

lemma render_parts_Inr [result_simps]:
  "render_parts vals acc ps = Inr r \<longleftrightarrow>
     (\<exists>vs. those (map (part_value vals) ps) = Some vs \<and> r = acc @ concat vs)"
proof (induction vals acc ps arbitrary: r rule: render_parts.induct)
  case (3 vals acc fld ps)
  then show ?case
    by (cases "bt_get vals fld") auto
qed auto

lemma template_render_Inr [result_simps]:
  "template_render t vals = Inr r \<longleftrightarrow>
     (\<exists>vs. those (map (part_value vals) (tt_parts t)) = Some vs \<and> r = concat vs)"
  by (simp add: template_render_def render_parts_Inr)

lemma literal_prefix_render:
  "template_render t vals = Inr r \<Longrightarrow> \<exists>rest. r = literal_prefix t @ rest"
  by (cases "tt_parts t")
    (auto simp: template_render_Inr literal_prefix_def split: template_text_part.splits)

end
