(* ===== verification/Manifest_Bind.thy ===== *)
theory Manifest_Bind
  imports Manifest_Template
begin

text \<open>
  \<^verbatim>\<open>crates/control-plane/src/manifest/bind.rs\<close>: raw manifests are parsed with a token in the
  place of each instance value, and the values are bound into the parsed document. The retention
  check of \<^verbatim>\<open>manifest/template.rs\<close> that reads such documents is modelled here too, with the
  YAML parser as a parameter. The scanning loop is a partial function whose value
  \<^term>\<open>None\<close> means that it never returns; it returns on every document the constructors make.
\<close>

datatype json =
    JNull
  | JBool bool
  | JNumber string
  | JString string
  | JArray "json list"
  | JObject "(string \<times> json) list"

record placeholder_document =
  pd_text :: string
  pd_prefix :: string
  pd_fields :: "string list"
  pd_substitutions :: "(string \<times> string) list"

definition TOKEN_PREFIX :: string where
  "TOKEN_PREFIX = ''sleepypodsInstanceValue''"

definition token :: "string \<Rightarrow> nat \<Rightarrow> string" where
  "token prefix index = prefix @ dec_nat index @ ''-''"

lemma token_first: "token p 0 = p @ ''0-''"
proof -
  have "dec_nat 0 = ''0''" by code_simp
  then show ?thesis by (simp add: token_def)
qed

section \<open>The unique prefix\<close>

definition literal_contains :: "string \<Rightarrow> template_text_part \<Rightarrow> bool" where
  "literal_contains prefix p =
     (case p of Literal l \<Rightarrow> str_contains l prefix | InstanceValue _ \<Rightarrow> False)"

fun literal_length :: "template_text_part \<Rightarrow> nat" where
  "literal_length (Literal l) = length l"
| "literal_length (InstanceValue _) = 0"

lemma literal_contains_length: "literal_contains prefix p \<Longrightarrow> length prefix \<le> literal_length p"
  by (cases p) (auto simp: literal_contains_def str_contains_iff)

lemma some_literal_contains_length:
  "list_ex (literal_contains prefix) ps \<Longrightarrow> length prefix \<le> sum_list (map literal_length ps)"
  by (induction ps) (auto dest: literal_contains_length)

function unique_prefix_loop :: "template_text_part list \<Rightarrow> string \<Rightarrow> string" where
  "unique_prefix_loop ps prefix =
     (if list_ex (literal_contains prefix) ps then unique_prefix_loop ps (prefix @ ''x'')
      else prefix)"
  by pat_completeness auto
termination
proof (relation "measure (\<lambda>(ps, prefix). Suc (sum_list (map literal_length ps)) - length prefix)")
  fix ps prefix
  assume "list_ex (literal_contains prefix) ps"
  from some_literal_contains_length [OF this]
  show "((ps, prefix @ ''x''), (ps, prefix))
      \<in> measure (\<lambda>(ps, prefix). Suc (sum_list (map literal_length ps)) - length prefix)"
    by simp
qed simp

declare unique_prefix_loop.simps [simp del]

definition unique_prefix :: "template_text \<Rightarrow> string" where
  "unique_prefix t = unique_prefix_loop (tt_parts t) TOKEN_PREFIX"

section \<open>Documents\<close>

fun document_text :: "string \<Rightarrow> string \<Rightarrow> string list \<Rightarrow> template_text_part list \<Rightarrow> string \<times> string list" where
  "document_text prefix text flds [] = (text, flds)"
| "document_text prefix text flds (Literal l # ps) = document_text prefix (text @ l) flds ps"
| "document_text prefix text flds (InstanceValue fld # ps) =
     document_text prefix (text @ token prefix (length flds)) (flds @ [fld]) ps"

definition PlaceholderDocument_new :: "template_text \<Rightarrow> placeholder_document" where
  "PlaceholderDocument_new t =
     (let prefix = unique_prefix t; (text, flds) = document_text prefix [] [] (tt_parts t) in
      \<lparr>pd_text = text, pd_prefix = prefix, pd_fields = flds, pd_substitutions = []\<rparr>)"

definition with_values ::
    "placeholder_document \<Rightarrow> instance_values \<Rightarrow> manifest_render_error + placeholder_document" where
  "with_values d vals =
     tryE (collectE (\<lambda>(index, fld).
        tryE (ok_or (MissingInstanceValue fld) (bt_get vals fld)) (\<lambda>v.
        Inr (token (pd_prefix d) index, v))) (enumerate 0 (pd_fields d))) (\<lambda>subs.
     Inr (d\<lparr>pd_substitutions := subs\<rparr>))"

fun token_at :: "(string \<times> string) list \<Rightarrow> string \<Rightarrow> (string \<times> string) option" where
  "token_at [] text = None"
| "token_at ((tok, v) # subs) text =
     (case strip_prefix tok text of
        Some remainder \<Rightarrow> Some (v, remainder)
      | None \<Rightarrow> token_at subs text)"

partial_function (option) substitute_loop ::
    "string \<Rightarrow> (string \<times> string) list \<Rightarrow> string \<Rightarrow> string \<Rightarrow> string option" where
  "substitute_loop prefix subs bound rest =
     (case split_find rest prefix of
        None \<Rightarrow> Some (bound @ rest)
      | Some (before, candidate) \<Rightarrow>
          (case token_at subs candidate of
             Some (v, remainder) \<Rightarrow> substitute_loop prefix subs (bound @ before @ v) remainder
           | None \<Rightarrow> substitute_loop prefix subs (bound @ before @ take (length prefix) candidate)
               (drop (length prefix) candidate)))"

text \<open>The outer option is whether the loop returns, the inner one is the result of the code.\<close>

definition substitute :: "placeholder_document \<Rightarrow> string \<Rightarrow> string option option" where
  "substitute d text =
     (if \<not> str_contains text (pd_prefix d) then Some None
      else map_option Some (substitute_loop (pd_prefix d) (pd_substitutions d) [] text))"

text \<open>\<^verbatim>\<open>self.substitute(text).unwrap_or(text)\<close>\<close>

definition bound_text :: "placeholder_document \<Rightarrow> string \<Rightarrow> string option" where
  "bound_text d text = map_option (\<lambda>r. case r of Some b \<Rightarrow> b | None \<Rightarrow> text) (substitute d text)"

function json_bind :: "placeholder_document \<Rightarrow> json \<Rightarrow> json option" where
  "json_bind d (JString text) =
     (if pd_substitutions d = [] then Some (JString text)
      else map_option JString (bound_text d text))"
| "json_bind d (JArray items) =
     (if pd_substitutions d = [] then Some (JArray items)
      else map_option JArray (those (map (json_bind d) items)))"
| "json_bind d (JObject m) =
     (if pd_substitutions d = [] then Some (JObject m)
      else map_option (\<lambda>es. JObject (bt_collect es))
        (those (map (\<lambda>e. case json_bind d (snd e) of
                None \<Rightarrow> None
              | Some item \<Rightarrow> map_option (\<lambda>k. (k, item)) (bound_text d (fst e))) m)))"
| "json_bind d JNull = Some JNull"
| "json_bind d (JBool b) = Some (JBool b)"
| "json_bind d (JNumber n) = Some (JNumber n)"
  by pat_completeness auto
termination
proof (relation "measure (size \<circ> snd)")
  fix d :: placeholder_document and m :: "(string \<times> json) list" and e
  assume "e \<in> set m"
  then have "size (snd e) < Suc (size_list (size_prod (\<lambda>_. 0) size) m)"
    by (induction m) (auto simp: prod.size_gen split: prod.splits)
  then show "((d, snd e), (d, JObject m)) \<in> measure (size \<circ> snd)"
    by simp
qed (auto simp: less_Suc_eq_le intro: size_list_estimation')

section \<open>The retention check\<close>

text \<open>\<^verbatim>\<open>value["key"]\<close> on a JSON value: null on a missing key and on anything but an object.\<close>

definition json_index :: "json \<Rightarrow> string \<Rightarrow> json" where
  "json_index j k =
     (case j of JObject m \<Rightarrow> (case bt_get m k of Some v \<Rightarrow> v | None \<Rightarrow> JNull) | _ \<Rightarrow> JNull)"

text \<open>
  \<^verbatim>\<open>pointer("/a/b")\<close> with tokens that are not array indices, then \<^verbatim>\<open>as_str\<close>.
\<close>

fun json_pointer :: "json \<Rightarrow> string list \<Rightarrow> json option" where
  "json_pointer j [] = Some j"
| "json_pointer (JObject m) (k # ks) =
     (case bt_get m k of Some v \<Rightarrow> json_pointer v ks | None \<Rightarrow> None)"
| "json_pointer _ (k # ks) = None"

definition json_as_str :: "json \<Rightarrow> string option" where
  "json_as_str j = (case j of JString s \<Rightarrow> Some s | _ \<Rightarrow> None)"

definition json_pointer_str :: "json \<Rightarrow> string list \<Rightarrow> string option" where
  "json_pointer_str j ks = Option.bind (json_pointer j ks) json_as_str"

definition raw_object_retained :: "json \<Rightarrow> manifest_render_error + unit" where
  "raw_object_retained value =
     (if json_index value ''kind'' = JString ''PersistentVolume''
         \<and> json_pointer_str value [''spec'', ''persistentVolumeReclaimPolicy''] \<noteq> Some ''Retain''
      then Inl (InvalidField ''volumes.reclaim_policy''
             ''raw managed static PVs require explicit Retain'')
      else if json_index value ''kind'' = JString ''PersistentVolumeClaim''
         \<and> (case json_pointer_str value [''spec'', ''volumeName''] of None \<Rightarrow> True | Some n \<Rightarrow> n = [])
      then Inl (InvalidField ''volumes.static_binding''
             ''raw PVCs require explicit static bindings in managed inventory'')
      else Inr ())"

fun raw_objects_retained ::
    "(string \<Rightarrow> json option) \<Rightarrow> raw_kubernetes_manifest_template list
     \<Rightarrow> manifest_render_error + unit" where
  "raw_objects_retained parse_yaml [] = Inr ()"
| "raw_objects_retained parse_yaml (raw # raws) =
     tryE (case parse_yaml (pd_text (PlaceholderDocument_new (rk_manifest raw))) of
             Some value \<Rightarrow> raw_object_retained value
           | None \<Rightarrow> Inr ()) (\<lambda>_.
     raw_objects_retained parse_yaml raws)"

definition validate_storage_retention ::
    "(string \<Rightarrow> json option) \<Rightarrow> manifest_template \<Rightarrow> manifest_render_error + unit" where
  "validate_storage_retention parse_yaml t =
     (if list_ex (\<lambda>v. vt_reclaim_policy v \<noteq> Retain) (mt_volumes t)
      then Inl (InvalidField ''volumes.reclaim_policy''
             ''managed static volumes require Retain; provider-volume deletion is outside the lifecycle contract'')
      else raw_objects_retained parse_yaml (mt_raw_objects t))"

section \<open>The prefix cannot overlap itself\<close>

lemma unique_prefix_loop_result:
  "\<exists>n. unique_prefix_loop ps prefix = prefix @ replicate n (CHR ''x'')
     \<and> \<not> list_ex (literal_contains (unique_prefix_loop ps prefix)) ps"
proof (induction ps prefix rule: unique_prefix_loop.induct)
  case (1 ps prefix)
  show ?case
  proof (cases "list_ex (literal_contains prefix) ps")
    case True
    let ?r = "unique_prefix_loop ps (prefix @ ''x'')"
    have eq: "unique_prefix_loop ps prefix = ?r"
      by (subst unique_prefix_loop.simps) (simp only: True if_True)
    from "1.IH" [OF True] obtain n where
        "?r = (prefix @ ''x'') @ replicate n (CHR ''x'')" "\<not> list_ex (literal_contains ?r) ps"
      by (elim exE conjE)
    then show ?thesis
      unfolding eq by (intro exI [of _ "Suc n"]) simp
  next
    case False
    then have "unique_prefix_loop ps prefix = prefix"
      by (subst unique_prefix_loop.simps) (simp only: if_False)
    with False show ?thesis
      by (intro exI [of _ 0]) simp
  qed
qed

lemma unique_prefix_not_in_literal:
  "Literal l \<in> set (tt_parts t) \<Longrightarrow> \<not> str_contains l (unique_prefix t)"
  using unique_prefix_loop_result [of "tt_parts t" TOKEN_PREFIX]
  by (auto simp: unique_prefix_def list_ex_iff literal_contains_def)

definition borderless :: "string \<Rightarrow> bool" where
  "borderless p \<longleftrightarrow> (\<forall>u v w. p = u @ v \<and> p = v @ w \<and> u \<noteq> [] \<longrightarrow> v = [])"

lemma length_TOKEN_PREFIX: "length TOKEN_PREFIX = 23"
  by (simp add: TOKEN_PREFIX_def)

text \<open>No later position of the prefix starts like the prefix itself.\<close>

lemma token_prefix_start:
  "\<forall>i \<in> set [1..<23]. TOKEN_PREFIX ! i = CHR ''s'' \<longrightarrow> i < 22 \<and> TOKEN_PREFIX ! Suc i \<noteq> CHR ''l''"
  by code_simp

lemma borderless_token_prefix: "borderless (TOKEN_PREFIX @ replicate n (CHR ''x''))"
  unfolding borderless_def
proof (intro allI impI, rule ccontr)
  fix u v w
  define p where "p = TOKEN_PREFIX @ replicate n (CHR ''x'')"
  assume "TOKEN_PREFIX @ replicate n (CHR ''x'') = u @ v
      \<and> TOKEN_PREFIX @ replicate n (CHR ''x'') = v @ w \<and> u \<noteq> []"
  then have uv: "p = u @ v" and vw: "p = v @ w" and u: "u \<noteq> []"
    unfolding p_def by blast+
  assume v: "v \<noteq> []"
  define i where "i = length u"
  have i: "0 < i" "i < length p" using uv u v by (auto simp: i_def)
  have at: "p ! (i + k) = v ! k" for k by (simp add: uv i_def)
  have start: "k < length v \<Longrightarrow> p ! k = v ! k" for k by (simp add: vw nth_append)
  have "p ! 0 = CHR ''s''" "p ! 1 = CHR ''l''" by (simp_all add: p_def TOKEN_PREFIX_def)
  then have s: "p ! i = CHR ''s''" and l: "1 < length v \<Longrightarrow> p ! Suc i = CHR ''l''"
    using at [of 0] at [of 1] start [of 0] start [of 1] v by auto
  have "i < 23"
    using s i by (auto simp: p_def nth_append length_TOKEN_PREFIX split: if_splits)
  then have i22: "i < 22" "TOKEN_PREFIX ! Suc i \<noteq> CHR ''l''"
    using s i token_prefix_start by (auto simp: p_def nth_append length_TOKEN_PREFIX)
  have "length v = length p - i" by (simp add: uv i_def)
  then have "1 < length v" using i22 by (simp add: p_def length_TOKEN_PREFIX)
  then show False
    using l i22 by (simp add: p_def nth_append length_TOKEN_PREFIX)
qed

lemma borderless_unique_prefix: "borderless (unique_prefix t)"
  using unique_prefix_loop_result [of "tt_parts t" TOKEN_PREFIX] borderless_token_prefix
  by (auto simp: unique_prefix_def)

lemma unique_prefix_not_Nil [simp]: "unique_prefix t \<noteq> []"
  using unique_prefix_loop_result [of "tt_parts t" TOKEN_PREFIX]
  by (auto simp: unique_prefix_def TOKEN_PREFIX_def)

text \<open>The first occurrence of a borderless pattern is where it was put.\<close>

lemma split_find_borderless:
  assumes "borderless p" "p \<noteq> []" "\<not> str_contains l p"
  shows "split_find (l @ p @ z) p = Some (l, p @ z)"
  using assms(3)
proof (induction l)
  case Nil
  have "starts_with (p @ z) p" by (auto simp: starts_with_iff)
  moreover obtain c cs where "p @ z = c # cs"
    using assms(2) by (cases "p @ z") simp_all
  ultimately show ?case by simp
next
  case (Cons c l)
  have "\<not> starts_with (c # l @ p @ z) p"
  proof
    assume "starts_with (c # l @ p @ z) p"
    then obtain r where r: "(c # l) @ p @ z = p @ r" by (auto simp: starts_with_iff)
    then obtain us where "c # l = p @ us \<and> us @ p @ z = r \<or> (c # l) @ us = p \<and> p @ z = us @ r"
      by (auto simp only: append_eq_append_conv2)
    then show False
    proof
      assume "c # l = p @ us \<and> us @ p @ z = r"
      then have "c # l = [] @ p @ us" by simp
      with Cons.prems show False by (simp only: str_contains_iff) blast
    next
      assume *: "(c # l) @ us = p \<and> p @ z = us @ r"
      then have "us @ r = p @ z" by simp
      then obtain t where "us = p @ t \<or> us @ t = p"
        by (auto simp only: append_eq_append_conv2)
      then show False
      proof
        assume "us = p @ t"
        with * have "length ((c # l) @ p @ t) = length p" by simp
        then show False by simp
      next
        assume "us @ t = p"
        with * have "p = (c # l) @ us \<and> p = us @ t \<and> c # l \<noteq> []" by simp
        then have "us = []" using assms(1) unfolding borderless_def by blast
        with * have "c # l = [] @ p @ []" by simp
        with Cons.prems show False by (simp only: str_contains_iff) blast
      qed
    qed
  qed
  moreover have "\<not> str_contains l p"
    using Cons.prems by (auto simp: str_contains_def split: if_splits)
  ultimately show ?case using Cons.IH by simp
qed

section \<open>Binding the text is rendering it\<close>

fun part_fields :: "template_text_part list \<Rightarrow> string list" where
  "part_fields [] = []"
| "part_fields (Literal _ # ps) = part_fields ps"
| "part_fields (InstanceValue fld # ps) = fld # part_fields ps"

fun part_text :: "string \<Rightarrow> nat \<Rightarrow> template_text_part list \<Rightarrow> string" where
  "part_text prefix i [] = []"
| "part_text prefix i (Literal l # ps) = l @ part_text prefix i ps"
| "part_text prefix i (InstanceValue _ # ps) = token prefix i @ part_text prefix (Suc i) ps"

lemma document_text_eq:
  "document_text prefix text flds ps =
     (text @ part_text prefix (length flds) ps, flds @ part_fields ps)"
  by (induction prefix "text" flds ps rule: document_text.induct) simp_all

lemma PlaceholderDocument_new_sel [simp]:
  "pd_text (PlaceholderDocument_new t) = part_text (unique_prefix t) 0 (tt_parts t)"
  "pd_prefix (PlaceholderDocument_new t) = unique_prefix t"
  "pd_fields (PlaceholderDocument_new t) = part_fields (tt_parts t)"
  "pd_substitutions (PlaceholderDocument_new t) = []"
  by (simp_all add: PlaceholderDocument_new_def document_text_eq Let_def)

definition subs_for :: "string \<Rightarrow> nat \<Rightarrow> string list \<Rightarrow> (string \<times> string) list" where
  "subs_for prefix k vs = map (\<lambda>(i, v). (token prefix i, v)) (enumerate k vs)"

lemma subs_for_simps [simp]:
  "subs_for prefix k [] = []"
  "subs_for prefix k (v # vs) = (token prefix k, v) # subs_for prefix (Suc k) vs"
  by (simp_all add: subs_for_def)

lemma token_not_Nil [simp]: "token prefix i \<noteq> []"
  by (simp add: token_def)

lemma takeWhile_dec_nat: "takeWhile is_ascii_digit (dec_nat n @ CHR ''-'' # z) = dec_nat n"
proof -
  have "\<not> is_ascii_digit (CHR ''-'')" by (simp add: is_ascii_digit_def byte_def)
  then show ?thesis
    using dec_nat_digits [of _ n] by (simp add: takeWhile_append)
qed

text \<open>The dash closes a token: no token is a prefix of another.\<close>

lemma strip_prefix_token: "i \<noteq> j \<Longrightarrow> strip_prefix (token p j) (token p i @ z) = None"
proof (rule ccontr)
  assume "i \<noteq> j" and "strip_prefix (token p j) (token p i @ z) \<noteq> None"
  then obtain r where "dec_nat i @ CHR ''-'' # z = dec_nat j @ CHR ''-'' # r"
    by (auto simp: strip_prefix_Some token_def)
  then have "dec_nat i = dec_nat j" by (metis takeWhile_dec_nat)
  with \<open>i \<noteq> j\<close> show False by simp
qed

lemma token_at_subs_for:
  "i < length vs \<Longrightarrow> token_at (subs_for p k vs) (token p (k + i) @ z) = Some (vs ! i, z)"
proof (induction vs arbitrary: k i)
  case (Cons v vs)
  then show ?case
  proof (cases i)
    case (Suc i')
    then show ?thesis
      using Cons.IH [of i' "Suc k"] Cons.prems by (simp add: strip_prefix_token)
  qed simp
qed simp

text \<open>The maximal runs of literal text between two instance values.\<close>

fun literal_runs :: "string \<Rightarrow> template_text_part list \<Rightarrow> string list" where
  "literal_runs acc [] = [acc]"
| "literal_runs acc (Literal l # ps) = literal_runs (acc @ l) ps"
| "literal_runs acc (InstanceValue _ # ps) = acc # literal_runs [] ps"

lemma substitute_loop_render:
  assumes "borderless p" "p \<noteq> []"
    and "\<forall>run \<in> set (literal_runs acc ps). \<not> str_contains run p"
    and "those (map (part_value vals) ps) = Some ws"
    and "those (map (bt_get vals) (part_fields ps)) = Some fvs"
  shows "substitute_loop p (subs_for p 0 (pre @ fvs)) bound (acc @ part_text p (length pre) ps)
    = Some (bound @ acc @ concat ws)"
  using assms(3-5)
proof (induction acc ps arbitrary: bound pre ws fvs rule: literal_runs.induct)
  case (1 acc)
  then have "split_find acc p = None" by (simp add: split_find_None)
  with 1 show ?case by (subst substitute_loop.simps) simp
next
  case (2 acc l ps)
  then show ?case
    using "2.IH" [of _ fvs pre bound] by auto
next
  case (3 acc fld ps)
  obtain v ws' fvs' where v: "bt_get vals fld = Some v" "ws = v # ws'" "fvs = v # fvs'"
      "those (map (part_value vals) ps) = Some ws'"
      "those (map (bt_get vals) (part_fields ps)) = Some fvs'"
    using "3.prems" by (auto split: option.splits)
  let ?rest = "part_text p (Suc (length pre)) ps"
  have find: "split_find (acc @ token p (length pre) @ ?rest) p
      = Some (acc, token p (length pre) @ ?rest)"
    using split_find_borderless [OF assms(1,2)] "3.prems"(1) by (simp add: token_def)
  have "token_at (subs_for p 0 (pre @ fvs)) (token p (length pre) @ ?rest) = Some (v, ?rest)"
    using token_at_subs_for [of "length pre" "pre @ fvs" p 0 ?rest] v by (simp add: nth_append)
  then have "substitute_loop p (subs_for p 0 (pre @ fvs)) bound
      (acc @ part_text p (length pre) (InstanceValue fld # ps))
      = substitute_loop p (subs_for p 0 (pre @ fvs)) (bound @ acc @ v) ?rest"
    using find by (subst substitute_loop.simps) simp
  also have "\<dots> = Some (bound @ acc @ concat ws)"
    using "3.IH" [of ws' fvs' "pre @ [v]" "bound @ acc @ v"] "3.prems"(1) v by simp
  finally show ?case .
qed

lemma bound_text_loop:
  "bound_text d s = substitute_loop (pd_prefix d) (pd_substitutions d) [] s"
proof (cases "str_contains s (pd_prefix d)")
  case False
  then have "split_find s (pd_prefix d) = None" by (simp add: split_find_None)
  with False show ?thesis
    by (subst substitute_loop.simps) (simp add: bound_text_def substitute_def)
qed (simp add: bound_text_def substitute_def option.map_comp comp_def option.map_ident)

lemma collect_values:
  "(\<exists>e. collectE (\<lambda>(index, fld). tryE (ok_or (MissingInstanceValue fld) (bt_get vals fld))
       (\<lambda>v. Inr (token p index, v))) (enumerate k (part_fields ps)) = Inl e
     \<and> render_parts vals acc ps = Inl e)
   \<or> (\<exists>fvs ws. collectE (\<lambda>(index, fld). tryE (ok_or (MissingInstanceValue fld) (bt_get vals fld))
       (\<lambda>v. Inr (token p index, v))) (enumerate k (part_fields ps)) = Inr (subs_for p k fvs)
     \<and> those (map (bt_get vals) (part_fields ps)) = Some fvs
     \<and> those (map (part_value vals) ps) = Some ws
     \<and> render_parts vals acc ps = Inr (acc @ concat ws))"
proof (induction ps arbitrary: k acc)
  case (Cons part ps)
  show ?case
  proof (cases part)
    case (Literal l)
    then show ?thesis using Cons.IH [of k "acc @ l"] by auto
  next
    case (InstanceValue fld)
    then show ?thesis
    proof (cases "bt_get vals fld")
      case (Some v)
      from Cons.IH [of "Suc k" "acc @ v"] show ?thesis
      proof (elim disjE exE conjE)
        fix fvs ws
        assume "those (map (bt_get vals) (part_fields ps)) = Some fvs"
          "those (map (part_value vals) ps) = Some ws"
          "render_parts vals (acc @ v) ps = Inr ((acc @ v) @ concat ws)"
          "collectE (\<lambda>(index, fld). tryE (ok_or (MissingInstanceValue fld) (bt_get vals fld))
             (\<lambda>v. Inr (token p index, v))) (enumerate (Suc k) (part_fields ps))
           = Inr (subs_for p (Suc k) fvs)"
        with InstanceValue Some show ?thesis
          by - (rule disjI2, rule exI [of _ "v # fvs"], rule exI [of _ "v # ws"], simp)
      qed (use InstanceValue Some in simp)
    qed (simp add: InstanceValue)
  qed
qed simp

fun no_adjacent_literals :: "template_text_part list \<Rightarrow> bool" where
  "no_adjacent_literals (Literal _ # Literal _ # _) = False"
| "no_adjacent_literals (_ # ps) = no_adjacent_literals ps"
| "no_adjacent_literals [] = True"

lemma literal_runs_separated_aux:
  "(no_adjacent_literals ps \<longrightarrow>
      (\<forall>run \<in> set (literal_runs [] ps). run = [] \<or> Literal run \<in> set ps))
   \<and> (\<forall>acc. no_adjacent_literals (Literal acc # ps) \<longrightarrow>
      (\<forall>run \<in> set (literal_runs acc ps). run = [] \<or> run = acc \<or> Literal run \<in> set ps))"
proof (induction ps)
  case (Cons part ps)
  then show ?case by (cases part) (auto)
qed simp

lemma literal_runs_separated:
  "no_adjacent_literals ps \<Longrightarrow> run \<in> set (literal_runs [] ps) \<Longrightarrow> run = [] \<or> Literal run \<in> set ps"
  using literal_runs_separated_aux by blast

text \<open>
  C24. Binding the values into the token text of a manifest gives the text that rendering the
  template gives, and fails on the same first missing value: whatever characters a value holds,
  even the spelling of another token, it is inserted once and never scanned again. The template
  must not split a literal into adjacent parts.
\<close>

theorem bind_text_is_render:
  assumes "no_adjacent_literals (tt_parts t)"
  shows "tryE (with_values (PlaceholderDocument_new t) vals) (\<lambda>d. Inr (bound_text d (pd_text d)))
    = tryE (template_render t vals) (\<lambda>r. Inr (Some r))"
proof -
  let ?p = "unique_prefix t"
  have runs: "\<forall>run \<in> set (literal_runs [] (tt_parts t)). \<not> str_contains run ?p"
  proof
    fix run assume "run \<in> set (literal_runs [] (tt_parts t))"
    from literal_runs_separated [OF assms this]
    show "\<not> str_contains run ?p"
      using unique_prefix_not_in_literal [of run t] by (auto simp: str_contains_iff)
  qed
  show ?thesis
    using collect_values [of vals ?p 0 "tt_parts t" "[]"]
      substitute_loop_render [OF borderless_unique_prefix unique_prefix_not_Nil runs,
        where pre = "[]" and bound = "[]"]
    by (auto simp: with_values_def template_render_def bound_text_loop)
qed

lemma bind_text_is_render_witness:
  "no_adjacent_literals [Literal ''name: '', InstanceValue ''n'']
   \<and> tryE (with_values (PlaceholderDocument_new \<lparr>tt_parts = [Literal ''name: '', InstanceValue ''n'']\<rparr>)
         [(''n'', ''sleepypodsInstanceValue0-: {}'')]) (\<lambda>d. Inr (bound_text d (pd_text d)))
     = Inr (Some ''name: sleepypodsInstanceValue0-: {}'')"
  using bind_text_is_render [of "\<lparr>tt_parts = [Literal ''name: '', InstanceValue ''n'']\<rparr>"
      "[(''n'', ''sleepypodsInstanceValue0-: {}'')]"]
  by (simp add: template_render_def)

text \<open>
  The prefix is checked against each literal part alone, so it can occur across two
  adjacent literals: the author's own text is then read as a token and replaced.
\<close>

theorem adjacent_literals_rebound:
  "tryE (with_values (PlaceholderDocument_new \<lparr>tt_parts =
       [Literal ''sleepypodsInstance'', Literal ''Value0-'', InstanceValue ''a'']\<rparr>) [(''a'', ''v'')])
     (\<lambda>d. Inr (bound_text d (pd_text d))) = Inr (Some ''vv'')
   \<and> template_render \<lparr>tt_parts =
       [Literal ''sleepypodsInstance'', Literal ''Value0-'', InstanceValue ''a'']\<rparr> [(''a'', ''v'')]
     = Inr ''sleepypodsInstanceValue0-v''"
  by (simp add: with_values_def template_render_def bound_text_loop unique_prefix_def
      unique_prefix_loop.simps TOKEN_PREFIX_def literal_contains_def str_contains_def
      starts_with_def token_first substitute_loop.simps)

section \<open>Binding a parsed document\<close>

definition bindable :: "placeholder_document \<Rightarrow> bool" where
  "bindable d \<longleftrightarrow> pd_prefix d \<noteq> [] \<and> (\<forall>(tok, v) \<in> set (pd_substitutions d). tok \<noteq> [])"

lemma with_values_bindable:
  "with_values (PlaceholderDocument_new t) vals = Inr d \<Longrightarrow> bindable d"
  using collect_values [of vals "unique_prefix t" 0 "tt_parts t" "[]"]
  by (auto simp: with_values_def bindable_def subs_for_def tryE_Inr token_not_Nil [symmetric])

lemma token_at_shorter:
  "token_at subs s = Some (v, r) \<Longrightarrow> \<forall>(tok, v) \<in> set subs. tok \<noteq> [] \<Longrightarrow> length r < length s"
  by (induction subs s rule: token_at.induct)
    (auto simp: strip_prefix_Some split: option.splits)

lemma substitute_loop_returns:
  assumes "p \<noteq> []" "\<forall>(tok, v) \<in> set subs. tok \<noteq> []"
  shows "\<exists>r. substitute_loop p subs bound s = Some r"
proof (induction s arbitrary: bound rule: measure_induct_rule [of length])
  case (less s)
  show ?case
  proof (cases "split_find s p")
    case None
    then show ?thesis by (subst substitute_loop.simps) simp
  next
    case (Some bc)
    obtain b c where bc: "bc = (b, c)" by (cases bc)
    have s: "s = b @ c" and c: "starts_with c p"
      using split_find_Some [of s p b c] Some bc by auto
    have skip: "length (drop (length p) c) < length s"
      using s c assms(1) by (auto simp: starts_with_iff)
    show ?thesis
    proof (cases "token_at subs c")
      case None
      then show ?thesis
        using less.IH [OF skip] Some bc by (subst substitute_loop.simps) simp
    next
      case (Some vr)
      obtain v r where vr: "vr = (v, r)" by (cases vr)
      have "length r < length s"
        using token_at_shorter [of subs c v r] Some vr assms(2) s by simp
      from less.IH [OF this] show ?thesis
        using Some vr bc \<open>split_find s p = Some bc\<close> by (subst substitute_loop.simps) simp
    qed
  qed
qed

lemma bound_text_returns: "bindable d \<Longrightarrow> bound_text d s = Some (the (bound_text d s))"
  using substitute_loop_returns [of "pd_prefix d" "pd_substitutions d" "[]" s]
  by (auto simp: bound_text_loop bindable_def)

text \<open>The reference: a function on texts mapped over every scalar and key.\<close>

fun json_map :: "(string \<Rightarrow> string) \<Rightarrow> json \<Rightarrow> json" where
  "json_map f (JString s) = JString (f s)"
| "json_map f (JArray js) = JArray (map (json_map f) js)"
| "json_map f (JObject m) = JObject (bt_collect (map (\<lambda>e. (f (fst e), json_map f (snd e))) m))"
| "json_map f j = j"

lemma those_map_Some: "(\<And>x. x \<in> set xs \<Longrightarrow> f x = Some (g x)) \<Longrightarrow> those (map f xs) = Some (map g xs)"
  by (induction xs) simp_all

lemma json_bind_map:
  assumes "bindable d" "pd_substitutions d \<noteq> []"
  shows "json_bind d j = Some (json_map (\<lambda>s. the (bound_text d s)) j)"
  using assms(1) assms(2)
proof (induction d j rule: json_bind.induct)
  case (1 d s)
  then show ?case by (subst json_bind.simps, subst bound_text_returns) simp_all
next
  case (2 d items)
  then show ?case by (simp add: those_map_Some [where g = "json_map (\<lambda>s. the (bound_text d s))"])
next
  case (3 d m)
  have "those (map (\<lambda>e. case json_bind d (snd e) of None \<Rightarrow> None
        | Some item \<Rightarrow> map_option (\<lambda>k. (k, item)) (bound_text d (fst e))) m)
      = Some (map (\<lambda>e. (the (bound_text d (fst e)), json_map (\<lambda>s. the (bound_text d s)) (snd e))) m)"
    using 3 by (intro those_map_Some) (subst bound_text_returns, simp_all)
  with 3 show ?case by simp
qed simp_all

lemma json_bind_no_values: "pd_substitutions d = [] \<Longrightarrow> json_bind d j = Some j"
  by (cases j) simp_all

lemma with_values_substitutions:
  "with_values (PlaceholderDocument_new t) vals = Inr d \<Longrightarrow>
     pd_prefix d = unique_prefix t \<and> (pd_substitutions d = [] \<longleftrightarrow> part_fields (tt_parts t) = [])"
  by (auto simp: with_values_def tryE_Inr collectE_Inr list_all2_lengthD
      dest!: list_all2_lengthD simp flip: length_0_conv)



end
