(* ===== verification/Workload.thy ===== *)
theory Workload
  imports Manifest_Bind
begin

text \<open>
  \<^verbatim>\<open>crates/control-plane/src/workload.rs\<close>: workload class versions, the schema that instance
  values are checked against and completed by, and exclusivity keys; and the value check of
  instance creation in \<^verbatim>\<open>instance.rs\<close>. The YAML parser used by class validation is a parameter.
\<close>

record workload_class_version_ref =
  wr_class_id :: string
  wr_version :: generation

record workload_value_field_rule =
  fr_required :: bool
  fr_default :: "string option"

record workload_value_schema =
  vs_fields :: "(string, workload_value_field_rule) btree"
  vs_allow_extra :: bool

record workload_exclusivity_key_template =
  kt_name :: string
  kt_value :: template_text

record rendered_exclusivity_key =
  ek_name :: string
  ek_value :: string

record workload_class_version =
  wc_reference :: workload_class_version_ref
  wc_template_generation :: generation
  wc_template :: manifest_template
  wc_default_values :: instance_values
  wc_value_schema :: workload_value_schema
  wc_sleep_policy :: workload_sleep_policy
  wc_exclusivity_keys :: "workload_exclusivity_key_template list"

datatype value_schema_error =
    MissingRequiredField string
  | UnknownField string
  | ControlCharacter string string
  | TooLong string nat

record workload_exclusivity_key_error =
  ke_index :: nat
  ke_field :: string
  ke_message :: string

datatype workload_class_validation_error =
    ClassSleepPolicy sleep_policy_error
  | ReplicaContract manifest_render_error
  | StorageContract manifest_render_error
  | ExclusivityKey workload_exclusivity_key_error

datatype create_instance_validation_error =
    CIV_WorkloadClass workload_class_validation_error
  | CIV_ValueSchema value_schema_error
  | CIV_SleepPolicy sleep_policy_error

section \<open>Instance values\<close>

definition MAX_INSTANCE_VALUE_LENGTH :: nat where
  "MAX_INSTANCE_VALUE_LENGTH = 4096"

text \<open>\<^verbatim>\<open>char::is_control\<close>: U+0000 to U+001F and U+007F to U+009F, in UTF-8.\<close>

definition is_control :: "string \<Rightarrow> bool" where
  "is_control ch =
     (case ch of
        [b] \<Rightarrow> byte b < 32 \<or> byte b = 127
      | [b1, b2] \<Rightarrow> byte b1 = 194 \<and> 128 \<le> byte b2 \<and> byte b2 < 160
      | _ \<Rightarrow> False)"

definition validate_value_text :: "string \<Rightarrow> string \<Rightarrow> value_schema_error + unit" where
  "validate_value_text fld v =
     (case find is_control (utf8_chars v) of
        Some c \<Rightarrow> Inl (ControlCharacter fld c)
      | None \<Rightarrow>
          if length v > MAX_INSTANCE_VALUE_LENGTH then Inl (TooLong fld (length v)) else Inr ())"

fun check_known_fields ::
    "(string, workload_value_field_rule) btree \<Rightarrow> string list \<Rightarrow> value_schema_error + unit" where
  "check_known_fields flds [] = Inr ()"
| "check_known_fields flds (k # ks) =
     (if \<not> bt_contains_key flds k then Inl (UnknownField k) else check_known_fields flds ks)"

fun validate_texts :: "instance_values \<Rightarrow> value_schema_error + unit" where
  "validate_texts [] = Inr ()"
| "validate_texts ((fld, v) # m) = tryE (validate_value_text fld v) (\<lambda>_. validate_texts m)"

fun fill_defaults ::
    "instance_values \<Rightarrow> (string, workload_value_field_rule) btree
     \<Rightarrow> value_schema_error + instance_values" where
  "fill_defaults validated [] = Inr validated"
| "fill_defaults validated ((fld, rule) # rules) =
     (if bt_contains_key validated fld then fill_defaults validated rules
      else (case fr_default rule of
              Some dflt \<Rightarrow> fill_defaults (bt_insert validated fld dflt) rules
            | None \<Rightarrow> if fr_required rule then Inl (MissingRequiredField fld)
                      else fill_defaults validated rules))"

definition validate_values ::
    "workload_value_schema \<Rightarrow> instance_values \<Rightarrow> value_schema_error + instance_values" where
  "validate_values schema vals =
     tryE (if \<not> vs_allow_extra schema then check_known_fields (vs_fields schema) (map fst vals)
           else Inr ()) (\<lambda>_.
     tryE (validate_texts vals) (\<lambda>_.
     fill_defaults vals (vs_fields schema)))"

section \<open>Exclusivity keys and class validation\<close>

definition is_exclusivity_key_name_byte :: "char \<Rightarrow> bool" where
  "is_exclusivity_key_name_byte c \<longleftrightarrow>
     is_ascii_alphanumeric c \<or> c = CHR ''.'' \<or> c = CHR ''_'' \<or> c = CHR ''-''"

definition is_exclusivity_key_name :: "string \<Rightarrow> bool" where
  "is_exclusivity_key_name v \<longleftrightarrow> v \<noteq> [] \<and> length v \<le> 128
     \<and> list_all is_exclusivity_key_name_byte v
     \<and> first_is is_ascii_alphanumeric v \<and> last_is is_ascii_alphanumeric v"

definition key_template_validate ::
    "workload_exclusivity_key_template \<Rightarrow> nat \<Rightarrow> workload_exclusivity_key_error + unit" where
  "key_template_validate k index =
     (if \<not> is_exclusivity_key_name (kt_name k) then
        Inl \<lparr>ke_index = index, ke_field = ''name'', ke_message = ''must use only ASCII letters, digits, '.', '_', or '-', start and end with a letter or digit, and be at most 128 characters''\<rparr>
      else if tt_parts (kt_value k) = [] then
        Inl \<lparr>ke_index = index, ke_field = ''value'', ke_message = ''template parts must not be empty''\<rparr>
      else if list_ex (\<lambda>p. case p of InstanceValue fld \<Rightarrow> is_blank fld | _ \<Rightarrow> False)
                (tt_parts (kt_value k)) then
        Inl \<lparr>ke_index = index, ke_field = ''value'', ke_message = ''instance value field names must not be empty''\<rparr>
      else Inr ())"

fun validate_keys ::
    "nat \<Rightarrow> workload_exclusivity_key_template list \<Rightarrow> workload_exclusivity_key_error + unit" where
  "validate_keys index [] = Inr ()"
| "validate_keys index (k # ks) =
     tryE (key_template_validate k index) (\<lambda>_. validate_keys (Suc index) ks)"

definition class_validate ::
    "(string \<Rightarrow> json option) \<Rightarrow> workload_class_version \<Rightarrow> workload_class_validation_error + unit" where
  "class_validate parse_yaml c =
     tryE (map_err ReplicaContract (validate_replicas (mt_workload (wc_template c)))) (\<lambda>_.
     tryE (map_err StorageContract (validate_storage_retention parse_yaml (wc_template c))) (\<lambda>_.
     tryE (map_err ClassSleepPolicy (sleep_policy_validate (wc_sleep_policy c))) (\<lambda>_.
     map_err ExclusivityKey (validate_keys 0 (wc_exclusivity_keys c)))))"

definition render_key ::
    "instance_values \<Rightarrow> workload_exclusivity_key_template
     \<Rightarrow> manifest_render_error + rendered_exclusivity_key" where
  "render_key vals k =
     tryE (template_render (kt_value k) vals) (\<lambda>v.
     if is_blank v then Inl (InvalidField ''exclusivity_keys.value'' ''rendered value must not be empty'')
     else Inr \<lparr>ek_name = kt_name k, ek_value = v\<rparr>)"

definition ek_order :: "rendered_exclusivity_key \<Rightarrow> string \<times> string" where
  "ek_order k = (ek_name k, ek_value k)"

text \<open>\<^verbatim>\<open>sort_by\<close> on name and value, then \<^verbatim>\<open>dedup\<close>.\<close>

definition normalize_exclusivity_keys ::
    "rendered_exclusivity_key list \<Rightarrow> rendered_exclusivity_key list" where
  "normalize_exclusivity_keys ks = remdups_adj (sort_key ek_order ks)"

definition render_exclusivity_keys ::
    "workload_class_version \<Rightarrow> instance_values
     \<Rightarrow> manifest_render_error + rendered_exclusivity_key list" where
  "render_exclusivity_keys c vals =
     tryE (collectE (render_key vals) (wc_exclusivity_keys c)) (\<lambda>rendered.
     Inr (normalize_exclusivity_keys rendered))"

text \<open>\<^verbatim>\<open>CreateInstanceRequest::validate_values_against\<close>: the values stored for the instance.\<close>

definition validate_values_against ::
    "(string \<Rightarrow> json option) \<Rightarrow> workload_class_version \<Rightarrow> instance_values
     \<Rightarrow> create_instance_validation_error + instance_values" where
  "validate_values_against parse_yaml c vals =
     tryE (map_err CIV_WorkloadClass (class_validate parse_yaml c)) (\<lambda>_.
     tryE (map_err CIV_ValueSchema (validate_values (wc_value_schema c) vals)) (\<lambda>validated.
     tryE (map_err CIV_SleepPolicy (sleep_policy_resolve (wc_sleep_policy c) validated)) (\<lambda>_.
     Inr validated)))"

section \<open>Correctness of value validation\<close>

definition text_ok :: "string \<Rightarrow> bool" where
  "text_ok v \<longleftrightarrow> (\<forall>c \<in> set (utf8_chars v). \<not> is_control c) \<and> length v \<le> MAX_INSTANCE_VALUE_LENGTH"

lemma validate_value_text_Inr [result_simps]: "validate_value_text fld v = Inr u \<longleftrightarrow> text_ok v"
  by (auto simp: validate_value_text_def text_ok_def find_None_iff find_Some_iff not_less
      split: option.splits)

lemma validate_texts_Inr [result_simps]:
  "validate_texts m = Inr u \<longleftrightarrow> (\<forall>(fld, v) \<in> set m. text_ok v)"
  by (induction m rule: validate_texts.induct) (auto simp: tryE_Inr validate_value_text_Inr)

lemma check_known_fields_Inr [result_simps]:
  "check_known_fields flds ks = Inr u \<longleftrightarrow> (\<forall>k \<in> set ks. bt_contains_key flds k)"
  by (induction flds ks rule: check_known_fields.induct) auto

definition filled :: "instance_values \<Rightarrow> (string, workload_value_field_rule) btree \<Rightarrow> string \<Rightarrow> string option" where
  "filled vals rules k =
     (case bt_get vals k of
        Some v \<Rightarrow> Some v
      | None \<Rightarrow> Option.bind (bt_get rules k) fr_default)"

lemma fill_defaults_ok: "bt_ok vals \<Longrightarrow> fill_defaults vals rules = Inr r \<Longrightarrow> bt_ok r"
  by (induction vals rules arbitrary: r rule: fill_defaults.induct)
    (auto simp: bt_ok_insert split: if_splits option.splits)

lemma filled_Cons_present:
  "bt_get vals fld = Some v \<Longrightarrow> filled vals ((fld, rule) # rules) k = filled vals rules k"
  by (auto simp: filled_def split: option.splits)

lemma filled_Cons_default:
  "bt_get vals fld = None \<Longrightarrow> fr_default rule = Some d
   \<Longrightarrow> filled vals ((fld, rule) # rules) k = filled (bt_insert vals fld d) rules k"
  by (auto simp: filled_def bt_get_insert split: option.splits)

lemma filled_Cons_absent:
  "fr_default rule = None \<Longrightarrow> bt_get rules fld = None
   \<Longrightarrow> filled vals ((fld, rule) # rules) k = filled vals rules k"
  by (auto simp: filled_def split: option.splits)

lemma bt_ok_Cons_fresh: "bt_ok ((k, v) # m) \<Longrightarrow> bt_ok m \<and> bt_get m k = None"
  by (auto simp: bt_ok_def bt_get_None)

lemma fill_defaults_get:
  "bt_ok rules \<Longrightarrow> fill_defaults vals rules = Inr r \<Longrightarrow> bt_get r k = filled vals rules k"
proof (induction vals rules rule: fill_defaults.induct)
  case (2 vals fld rule rules)
  then show ?case
    using bt_ok_Cons_fresh [of fld rule rules]
    by (cases "bt_get vals fld"; cases "fr_default rule")
      (auto simp: bt_contains_key_def filled_Cons_present filled_Cons_default filled_Cons_absent
        split: if_splits)
qed (simp add: filled_def split: option.split)

lemma fill_defaults_is_ok:
  "bt_ok rules \<Longrightarrow> is_ok (fill_defaults vals rules)
     \<longleftrightarrow> (\<forall>(k, rule) \<in> set rules. fr_required rule \<longrightarrow> filled vals rules k \<noteq> None)"
proof (induction vals rules rule: fill_defaults.induct)
  case (2 vals fld rule rules)
  have rules: "bt_ok rules" "bt_get rules fld = None"
    using bt_ok_Cons_fresh [OF "2.prems"] by simp_all
  show ?case
  proof (cases "bt_get vals fld")
    case (Some v)
    then have "filled vals rules fld \<noteq> None" by (simp add: filled_def)
    then show ?thesis
      using "2.IH"(1) rules Some by (simp add: bt_contains_key_def filled_Cons_present)
  next
    case None
    note N = None
    show ?thesis
    proof (cases "fr_default rule")
      case (Some d)
      have "filled (bt_insert vals fld d) rules fld \<noteq> None"
        by (simp add: filled_def bt_get_insert)
      then show ?thesis
        using "2.IH"(3) [OF _ Some] rules N Some
        by (simp add: bt_contains_key_def filled_Cons_default)
    next
      case None
      have "filled vals rules fld = None" using rules N by (simp add: filled_def)
      then show ?thesis
        using "2.IH"(2) [OF _ None] rules N None
        by (simp add: bt_contains_key_def filled_Cons_absent)
    qed
  qed
qed simp



text \<open>
  A schema default is not checked the way a supplied value is: a default holding a control
  character is stored as an instance value, which no caller could supply.
\<close>

theorem schema_default_unchecked:
  "validate_values \<lparr>vs_fields = [(''k'', \<lparr>fr_required = False, fr_default = Some [CHR 0x0A]\<rparr>)],
      vs_allow_extra = False\<rparr> [] = Inr [(''k'', [CHR 0x0A])]
   \<and> validate_values \<lparr>vs_fields = [(''k'', \<lparr>fr_required = False, fr_default = Some [CHR 0x0A]\<rparr>)],
      vs_allow_extra = False\<rparr> [(''k'', [CHR 0x0A])] = Inl (ControlCharacter ''k'' [CHR 0x0A])"
  by code_simp

section \<open>Correctness of exclusivity keys\<close>

lemma inj_ek_order: "inj ek_order"
  by (auto simp: inj_def ek_order_def intro: rendered_exclusivity_key.equality)

lemma set_normalize [simp]: "set (normalize_exclusivity_keys ks) = set ks"
  by (simp add: normalize_exclusivity_keys_def)

lemma sorted_remdups_adj_strict: "sorted xs \<Longrightarrow> sorted_wrt (<) (remdups_adj xs)"
  by (induction xs rule: remdups_adj.induct) (auto simp: order.strict_iff_order)

lemma normalize_strict: "sorted_wrt (<) (map ek_order (normalize_exclusivity_keys ks))"
  using sorted_remdups_adj_strict [of "map ek_order (sort_key ek_order ks)"]
  by (simp add: normalize_exclusivity_keys_def remdups_adj_map_injective inj_ek_order)

text \<open>
  C35. Normalised exclusivity keys are a canonical form: strictly increasing by name and value,
  hence without duplicates, and equal for two lists exactly when they hold the same keys.
\<close>

theorem normalize_exclusivity_keys_canonical:
  "sorted_wrt (<) (map ek_order (normalize_exclusivity_keys ks))
   \<and> set (normalize_exclusivity_keys ks) = set ks
   \<and> (normalize_exclusivity_keys ks = normalize_exclusivity_keys ks' \<longleftrightarrow> set ks = set ks')"
proof -
  have "normalize_exclusivity_keys ks = normalize_exclusivity_keys ks'" if "set ks = set ks'"
  proof -
    have "map ek_order (normalize_exclusivity_keys ks) = map ek_order (normalize_exclusivity_keys ks')"
      using that by (intro strict_sorted_equal normalize_strict) simp
    then show ?thesis
      using inj_map_eq_map [OF inj_ek_order] by blast
  qed
  then show ?thesis
    using normalize_strict set_normalize by metis
qed

end
