(* ===== verification/Routes.thy ===== *)
theory Routes
  imports Ids
begin

text \<open>
  \<^verbatim>\<open>crates/sleepypods-api/src/route.rs\<close>: route identities and the score that ranks the bindings
  matching a request; with it the matching conditions and the ordering of
  \<^verbatim>\<open>RESOLVE_ROUTE_SQL\<close> and the identity columns of
  \<^verbatim>\<open>crates/control-plane/src/postgres/mapping.rs\<close>. Texts are UTF-8 byte lists, so
  \<^verbatim>\<open>octet_length\<close> and \<^verbatim>\<open>str::len\<close> are \<^const>\<open>length\<close>.
\<close>

datatype route_host_kind = ExactHost | WildcardSuffix

record route_host =
  rh_kind :: route_host_kind
  rh_host :: string

datatype protocol_route = HttpProtocol | TlsSni

datatype route_identity =
    HttpIdentity route_host "string option"
  | SniIdentity route_host

record route_binding_spec =
  bs_identity :: route_identity
  bs_protocol :: protocol_route

record match_score =
  ms_host :: nat
  ms_path :: nat

section \<open>Construction\<close>

definition to_ascii_lowercase :: "string \<Rightarrow> string" where
  "to_ascii_lowercase = map (\<lambda>c. if is_ascii_uppercase c then char_of (byte c + 32) else c)"

definition trim_end_dots :: "string \<Rightarrow> string" where
  "trim_end_dots s = rev (dropWhile (\<lambda>c. c = CHR ''.'') (rev s))"

definition normalize_host :: "string \<Rightarrow> bool \<Rightarrow> string + string" where
  "normalize_host v wildcard =
     (let host = to_ascii_lowercase (trim_end_dots (trim v));
          host = (if wildcard then (case strip_prefix ''*.'' host of Some h \<Rightarrow> h | None \<Rightarrow> host) else host)
      in if host = [] then Inl ''route host must not be empty''
         else if CHR ''*'' \<in> set host
           then Inl ''route host wildcard is only allowed as a leading wildcard suffix''
         else if CHR ''.'' \<notin> set host then Inl ''route host must contain at least one dot''
         else Inr host)"

definition RouteHost_exact :: "string \<Rightarrow> string + route_host" where
  "RouteHost_exact h = tryE (normalize_host h False) (\<lambda>h. Inr \<lparr>rh_kind = ExactHost, rh_host = h\<rparr>)"

definition RouteHost_wildcard_suffix :: "string \<Rightarrow> string + route_host" where
  "RouteHost_wildcard_suffix h =
     tryE (normalize_host h True) (\<lambda>h. Inr \<lparr>rh_kind = WildcardSuffix, rh_host = h\<rparr>)"

definition PathPrefix_new :: "string \<Rightarrow> string + string" where
  "PathPrefix_new v = (if starts_with v ''/'' then Inr v else Inl v)"

section \<open>Scores\<close>

text \<open>\<^verbatim>\<open>usize::MAX\<close>\<close>

definition USIZE_MAX :: nat where
  "USIZE_MAX = 2 ^ 64 - 1"

definition ends_with :: "string \<Rightarrow> string \<Rightarrow> bool" where
  "ends_with s p \<longleftrightarrow> starts_with (rev s) (rev p)"

definition host_score :: "route_host \<Rightarrow> route_host \<Rightarrow> nat option" where
  "host_score binding lookup =
     (case rh_kind binding of
        ExactHost \<Rightarrow> if rh_host binding = rh_host lookup then Some USIZE_MAX else None
      | WildcardSuffix \<Rightarrow>
          (let lookup_host = rh_host lookup; suffix = rh_host binding in
           if length lookup_host < length suffix then None
           else let prefix = take (length lookup_host - length suffix) lookup_host in
             if ends_with lookup_host suffix \<and> ends_with prefix ''.'' then Some (length suffix)
             else None))"

definition path_prefix_matches :: "string \<Rightarrow> string \<Rightarrow> bool" where
  "path_prefix_matches lookup_path binding_path =
     (if binding_path = ''/'' \<or> lookup_path = binding_path then True
      else if ends_with binding_path ''/'' then starts_with lookup_path binding_path
      else (case strip_prefix binding_path lookup_path of
              Some suffix \<Rightarrow> starts_with suffix ''/''
            | None \<Rightarrow> False))"

fun path_score :: "string option \<Rightarrow> string option \<Rightarrow> nat option" where
  "path_score None lookup = Some 0"
| "path_score (Some binding) None = None"
| "path_score (Some binding) (Some lookup) =
     (if path_prefix_matches lookup binding then Some (length binding) else None)"

fun route_match_score :: "route_identity \<Rightarrow> route_identity \<Rightarrow> match_score option" where
  "route_match_score (HttpIdentity bh bp) (HttpIdentity lh lp) =
     Option.bind (host_score bh lh) (\<lambda>host.
     map_option (\<lambda>path. \<lparr>ms_host = host, ms_path = path\<rparr>) (path_score bp lp))"
| "route_match_score (SniIdentity bh) (SniIdentity lh) =
     map_option (\<lambda>host. \<lparr>ms_host = host, ms_path = 0\<rparr>) (host_score bh lh)"
| "route_match_score _ _ = None"

section \<open>Identity columns\<close>

definition route_host_kind_to_db :: "route_host_kind \<Rightarrow> string" where
  "route_host_kind_to_db k = (case k of ExactHost \<Rightarrow> ''exact'' | WildcardSuffix \<Rightarrow> ''wildcard_suffix'')"

fun identity_host :: "route_identity \<Rightarrow> route_host" where
  "identity_host (HttpIdentity h p) = h"
| "identity_host (SniIdentity h) = h"

fun identity_path :: "route_identity \<Rightarrow> string option" where
  "identity_path (HttpIdentity h p) = p"
| "identity_path (SniIdentity h) = None"

fun identity_kind :: "route_identity \<Rightarrow> string" where
  "identity_kind (HttpIdentity h p) = ''http''"
| "identity_kind (SniIdentity h) = ''sni''"

fun route_identity_key :: "route_identity \<Rightarrow> string" where
  "route_identity_key (HttpIdentity h p) =
     ''http:'' @ route_host_kind_to_db (rh_kind h) @ '':'' @ rh_host h @ '':''
       @ (case p of Some path \<Rightarrow> path | None \<Rightarrow> [])"
| "route_identity_key (SniIdentity h) =
     ''sni:'' @ route_host_kind_to_db (rh_kind h) @ '':'' @ rh_host h"

record route_identity_parts =
  ip_key :: string
  ip_identity_kind :: string
  ip_host_kind :: string
  ip_host :: string
  ip_path_prefix :: "string option"

definition route_identity_parts_of :: "route_identity \<Rightarrow> route_identity_parts" where
  "route_identity_parts_of i =
     \<lparr>ip_key = route_identity_key i, ip_identity_kind = identity_kind i,
      ip_host_kind = route_host_kind_to_db (rh_kind (identity_host i)),
      ip_host = rh_host (identity_host i), ip_path_prefix = identity_path i\<rparr>"

definition route_host_from_db :: "string \<Rightarrow> string \<Rightarrow> string + route_host" where
  "route_host_from_db hkind host =
     (if hkind = ''exact'' then RouteHost_exact host
      else if hkind = ''wildcard_suffix'' then RouteHost_wildcard_suffix host
      else Inl ''stored route host kind is invalid'')"

definition route_identity_from_parts ::
    "string \<Rightarrow> string \<Rightarrow> string \<Rightarrow> string option \<Rightarrow> string + route_identity" where
  "route_identity_from_parts ikind hkind host path =
     tryE (route_host_from_db hkind host) (\<lambda>h.
     if ikind = ''http'' then
       (case path of
          None \<Rightarrow> Inr (HttpIdentity h None)
        | Some p \<Rightarrow> tryE (PathPrefix_new p) (\<lambda>p. Inr (HttpIdentity h (Some p))))
     else if ikind = ''sni'' then Inr (SniIdentity h)
     else Inl ''stored route identity kind is invalid'')"

section \<open>The conditions of RESOLVE_ROUTE_SQL\<close>

text \<open>\<^verbatim>\<open>match_indices('.')\<close>: what follows each dot.\<close>

fun dot_suffixes :: "string \<Rightarrow> string list" where
  "dot_suffixes [] = []"
| "dot_suffixes (c # cs) = (if c = CHR ''.'' then cs # dot_suffixes cs else dot_suffixes cs)"

text \<open>
  The columns of a candidate row are those of \<^const>\<open>route_identity_parts_of\<close>; the parameters
  are the parts of the lookup.
\<close>

definition sql_route_matches :: "route_identity_parts \<Rightarrow> route_identity_parts \<Rightarrow> bool" where
  "sql_route_matches row lookup \<longleftrightarrow>
     ip_identity_kind row = ip_identity_kind lookup
     \<and> ((ip_host_kind row = ''exact'' \<and> ip_host row = ip_host lookup)
        \<or> (ip_host_kind row = ''wildcard_suffix'' \<and> ip_host row \<in> set (dot_suffixes (ip_host lookup))))
     \<and> (case ip_path_prefix row of
          None \<Rightarrow> True
        | Some pp \<Rightarrow>
           (case ip_path_prefix lookup of
              None \<Rightarrow> False
            | Some lp \<Rightarrow> pp = ''/'' \<or> pp = lp
                \<or> (ends_with pp ''/'' \<and> starts_with lp pp)
                \<or> starts_with lp (pp @ ''/'')))"

text \<open>
  The \<^verbatim>\<open>ORDER BY\<close> columns of the statement: exact hosts first, longer hosts, longer paths,
  then the binding id. A row comes first when its key is smallest.
\<close>

definition sql_route_order :: "string \<Rightarrow> route_identity_parts \<Rightarrow> nat \<times> int \<times> int \<times> string" where
  "sql_route_order binding_id row =
     ((if ip_host_kind row = ''exact'' then 0 else 1), - int (length (ip_host row)),
      - int (case ip_path_prefix row of Some pp \<Rightarrow> length pp | None \<Rightarrow> 0), binding_id)"

text \<open>The first row in that order, over the rows \<^verbatim>\<open>(route_binding_id, identity)\<close> of the table.\<close>

definition select_route :: "(string \<times> route_identity) list \<Rightarrow> route_identity \<Rightarrow> (string \<times> route_identity) option" where
  "select_route rows lookup =
     (case sort_key (\<lambda>(bid, i). sql_route_order bid (route_identity_parts_of i))
        (filter (\<lambda>(bid, i). sql_route_matches (route_identity_parts_of i) (route_identity_parts_of lookup)) rows)
      of [] \<Rightarrow> None | r # _ \<Rightarrow> Some r)"

section \<open>The statement ranks like the score\<close>

lemma dot_suffixes_iff: "s \<in> set (dot_suffixes h) \<longleftrightarrow> (\<exists>p. h = p @ ''.'' @ s)"
proof (induction h)
  case (Cons c cs)
  have "(\<exists>p. c # cs = p @ ''.'' @ s) \<longleftrightarrow> (c = CHR ''.'' \<and> s = cs) \<or> (\<exists>p. cs = p @ ''.'' @ s)"
    by (auto simp: Cons_eq_append_conv)
  with Cons.IH show ?case by auto
qed simp

lemma ends_with_iff: "ends_with s p \<longleftrightarrow> (\<exists>b. s = b @ p)"
  unfolding ends_with_def starts_with_iff by (metis rev_append rev_rev_ident)

lemma wildcard_matches_iff:
  "length s \<le> length h \<and> ends_with h s \<and> ends_with (take (length h - length s) h) ''.''
     \<longleftrightarrow> s \<in> set (dot_suffixes h)"
  by (auto simp: dot_suffixes_iff ends_with_iff)

lemma path_matches_iff:
  "path_prefix_matches lp pp \<longleftrightarrow>
     pp = ''/'' \<or> pp = lp \<or> (ends_with pp ''/'' \<and> starts_with lp pp) \<or> starts_with lp (pp @ ''/'')"
  by (auto simp: path_prefix_matches_def starts_with_iff strip_prefix_Some split: option.splits)

lemma sort_key_head:
  assumes "sort_key f xs = r # rs" "x \<in> set xs"
  shows "f r \<le> f x"
proof -
  have "x \<in> set (r # rs)" using assms by (metis set_sort)
  moreover have "sorted (map f (r # rs))" using sorted_sort_key [of f xs] assms(1) by simp
  ultimately show ?thesis by auto
qed

lemma host_score_iff:
  "host_score b l = Some n \<longleftrightarrow>
     (rh_kind b = ExactHost \<and> rh_host b = rh_host l \<and> n = USIZE_MAX)
     \<or> (rh_kind b = WildcardSuffix \<and> rh_host b \<in> set (dot_suffixes (rh_host l)) \<and> n = length (rh_host b))"
  using wildcard_matches_iff [of "rh_host b" "rh_host l"]
  by (cases "rh_kind b") (auto simp: host_score_def Let_def not_less)

lemma path_score_iff:
  "path_score b l = Some n \<longleftrightarrow>
     (case b of None \<Rightarrow> n = 0
      | Some pp \<Rightarrow> n = length pp \<and> (case l of None \<Rightarrow> False | Some lp \<Rightarrow> path_prefix_matches lp pp))"
  by (cases b; cases l) auto

definition path_length :: "string option \<Rightarrow> nat" where
  "path_length p = (case p of Some pp \<Rightarrow> length pp | None \<Rightarrow> 0)"

definition host_rank :: "route_host \<Rightarrow> nat" where
  "host_rank h = (case rh_kind h of ExactHost \<Rightarrow> USIZE_MAX | WildcardSuffix \<Rightarrow> length (rh_host h))"

text \<open>The statement's condition is exactly that the score exists, and the score is then known.\<close>

lemma sql_route_matches_score:
  "sql_route_matches (route_identity_parts_of b) (route_identity_parts_of l) \<longleftrightarrow>
     route_match_score b l =
       Some \<lparr>ms_host = host_rank (identity_host b), ms_path = path_length (identity_path b)\<rparr>"
  by (cases b; cases l)
    (auto simp: sql_route_matches_def route_identity_parts_of_def route_host_kind_to_db_def
      host_score_iff path_score_iff path_matches_iff path_length_def host_rank_def bind_eq_Some_conv
      split: route_host_kind.splits option.splits)

lemma route_match_score_value:
  "route_match_score b l = Some s \<Longrightarrow>
     s = \<lparr>ms_host = host_rank (identity_host b), ms_path = path_length (identity_path b)\<rparr>"
  by (cases b; cases l)
    (auto simp: host_score_iff path_score_iff path_length_def host_rank_def bind_eq_Some_conv
      split: option.splits)

lemma matched_host_length:
  "route_match_score b l = Some s \<Longrightarrow>
     rh_host (identity_host b) = rh_host (identity_host l) \<and> rh_kind (identity_host b) = ExactHost
     \<or> length (rh_host (identity_host b)) < length (rh_host (identity_host l))
       \<and> rh_kind (identity_host b) = WildcardSuffix"
  by (cases b; cases l) (auto simp: host_score_iff bind_eq_Some_conv dot_suffixes_iff)

lemma sql_order_le_score:
  assumes "length (rh_host (identity_host l)) < USIZE_MAX"
    and b: "route_match_score b l = Some s" and b': "route_match_score b' l = Some s'"
    and le: "sql_route_order i (route_identity_parts_of b) \<le> sql_route_order i' (route_identity_parts_of b')"
  shows "(ms_host s', ms_path s', 0) < (ms_host s, ms_path s, 1 :: nat)
    \<and> ((ms_host s', ms_path s') = (ms_host s, ms_path s) \<longrightarrow> i \<le> i')"
  using matched_host_length [OF b] matched_host_length [OF b'] le assms(1)
    route_match_score_value [OF b] route_match_score_value [OF b']
  by (auto simp: sql_route_order_def route_identity_parts_of_def route_host_kind_to_db_def
      host_rank_def path_length_def [symmetric] less_prod_def less_eq_prod_def
      split: if_splits)

lemma sort_key_Nil: "sort_key f xs = [] \<longleftrightarrow> xs = []"
  by (metis length_0_conv length_sort)

lemma select_route_None:
  "select_route rows l = None \<longleftrightarrow>
     (\<forall>(i, b) \<in> set rows. \<not> sql_route_matches (route_identity_parts_of b) (route_identity_parts_of l))"
  by (auto simp: select_route_def list.case_eq_if sort_key_Nil filter_empty_conv)

lemma select_route_Some:
  assumes "select_route rows l = Some (i, b)"
  shows "(i, b) \<in> set rows \<and> sql_route_matches (route_identity_parts_of b) (route_identity_parts_of l)
    \<and> (\<forall>(i', b') \<in> set rows. sql_route_matches (route_identity_parts_of b') (route_identity_parts_of l)
         \<longrightarrow> sql_route_order i (route_identity_parts_of b) \<le> sql_route_order i' (route_identity_parts_of b'))"
proof -
  let ?key = "\<lambda>(bid, i). sql_route_order bid (route_identity_parts_of i)"
  let ?hits = "filter (\<lambda>(bid, i). sql_route_matches (route_identity_parts_of i) (route_identity_parts_of l)) rows"
  obtain rs where sorted: "sort_key ?key ?hits = (i, b) # rs"
    using assms by (auto simp: select_route_def split: list.splits)
  then have "(i, b) \<in> set ?hits" by (metis list.set_intros(1) set_sort)
  moreover have "?key (i, b) \<le> ?key x" if "x \<in> set ?hits" for x
    using sorted that by (rule sort_key_head)
  ultimately show ?thesis by (simp add: split_paired_all)
qed

text \<open>
  C29. The row that the resolution statement selects is a binding with the best match score
  among all bindings of the table, ties broken by the smallest binding id; it selects none
  exactly when no binding matches. The statement and the in-process matcher therefore agree.
\<close>

theorem select_route_best:
  assumes "length (rh_host (identity_host l)) < USIZE_MAX"
  shows "case select_route rows l of
      None \<Rightarrow> \<forall>(i, b) \<in> set rows. route_match_score b l = None
    | Some (i, b) \<Rightarrow> (i, b) \<in> set rows \<and> (\<exists>s. route_match_score b l = Some s
        \<and> (\<forall>(i', b') \<in> set rows. \<forall>s'. route_match_score b' l = Some s' \<longrightarrow>
             (ms_host s', ms_path s') \<le> (ms_host s, ms_path s)
             \<and> ((ms_host s', ms_path s') = (ms_host s, ms_path s) \<longrightarrow> i \<le> i')))"
proof -
  have hit: "sql_route_matches (route_identity_parts_of b) (route_identity_parts_of l) \<longleftrightarrow> route_match_score b l \<noteq> None" for b
    using sql_route_matches_score [of b l] route_match_score_value [of b l] by auto
  show ?thesis
  proof (cases "select_route rows l")
    case None
    then show ?thesis using select_route_None [of rows l] hit by auto
  next
    case (Some r)
    obtain i b where r: "r = (i, b)" by (cases r)
    note first = select_route_Some [OF Some [unfolded r], unfolded hit]
    then obtain s where s: "route_match_score b l = Some s" by auto
    have "(ms_host s', ms_path s') \<le> (ms_host s, ms_path s)
        \<and> ((ms_host s', ms_path s') = (ms_host s, ms_path s) \<longrightarrow> i \<le> i')"
      if "(i', b') \<in> set rows" "route_match_score b' l = Some s'" for i' b' s'
    proof -
      have "sql_route_order i (route_identity_parts_of b) \<le> sql_route_order i' (route_identity_parts_of b')"
        using first that by auto
      from sql_order_le_score [OF assms s that(2) this] show ?thesis
        by (auto simp: less_eq_prod_def less_prod_def)
    qed
    with first s Some r show ?thesis by auto
  qed
qed

definition sample_rows :: "(string \<times> route_identity) list" where
  "sample_rows =
     [(''r1'', HttpIdentity \<lparr>rh_kind = WildcardSuffix, rh_host = ''b.c''\<rparr> (Some ''/x'')),
      (''r2'', HttpIdentity \<lparr>rh_kind = ExactHost, rh_host = ''a.b.c''\<rparr> None)]"

lemma select_route_best_witness:
  "length (rh_host (identity_host (HttpIdentity \<lparr>rh_kind = ExactHost, rh_host = ''a.b.c''\<rparr> (Some ''/x'')))) < USIZE_MAX
   \<and> select_route sample_rows (HttpIdentity \<lparr>rh_kind = ExactHost, rh_host = ''a.b.c''\<rparr> (Some ''/x''))
     = Some (''r2'', HttpIdentity \<lparr>rh_kind = ExactHost, rh_host = ''a.b.c''\<rparr> None)
   \<and> (case select_route sample_rows (HttpIdentity \<lparr>rh_kind = ExactHost, rh_host = ''a.b.c''\<rparr> (Some ''/x'')) of
        None \<Rightarrow> True | Some (i, b) \<Rightarrow> (i, b) \<in> set sample_rows)"
proof (intro conjI)
  let ?l = "HttpIdentity \<lparr>rh_kind = ExactHost, rh_host = ''a.b.c''\<rparr> (Some ''/x'')"
  show len: "length (rh_host (identity_host ?l)) < USIZE_MAX"
    by (simp add: USIZE_MAX_def)
  show "select_route sample_rows ?l = Some (''r2'', HttpIdentity \<lparr>rh_kind = ExactHost, rh_host = ''a.b.c''\<rparr> None)"
    by code_simp
  show "case select_route sample_rows ?l of None \<Rightarrow> True | Some (i, b) \<Rightarrow> (i, b) \<in> set sample_rows"
    using select_route_best [OF len, of sample_rows] by (auto split: option.splits)
qed

section \<open>Normalisation and identity keys\<close>

text \<open>
  Host normalisation is not stable: a space before the final dot survives it, so the
  stored host changes when the row is read back through the same constructor.
\<close>

theorem normalize_host_not_idempotent:
  "normalize_host ''App.Example.COM .'' False = Inr ''app.example.com ''
   \<and> normalize_host ''app.example.com '' False = Inr ''app.example.com''"
  by code_simp

lemma trim_no_whitespace:
  "\<forall>ch \<in> set (utf8_chars s). \<not> is_whitespace ch \<Longrightarrow> trim s = s"
  by (simp add: trim_def dropWhile_eq_self_iff)
    (metis concat_utf8_chars dropWhile_eq_self_iff hd_in_set rev_rev_ident set_rev)

lemma byte_char_of: "n < 256 \<Longrightarrow> byte (char_of n) = n"
  by (simp add: byte_def)

lemma byte_lower: "is_ascii_uppercase c \<Longrightarrow> byte (char_of (byte c + 32)) = byte c + 32"
  by (rule byte_char_of) (simp add: is_ascii_uppercase_def)

lemma not_uppercase_lower: "is_ascii_uppercase c \<Longrightarrow> \<not> is_ascii_uppercase (char_of (byte c + 32))"
  using byte_lower [of c] by (simp add: is_ascii_uppercase_def)

lemma lowercase_idem: "to_ascii_lowercase (to_ascii_lowercase s) = to_ascii_lowercase s"
  by (simp add: to_ascii_lowercase_def not_uppercase_lower)

lemma lowercase_dot:
  "(if is_ascii_uppercase c then char_of (byte c + 32) else c) = CHR ''.'' \<longleftrightarrow> c = CHR ''.''"
proof -
  have "byte (CHR ''.'') = 46" by (simp add: byte_def)
  moreover have "\<not> is_ascii_uppercase (CHR ''.'')" by (simp add: is_ascii_uppercase_def byte_def)
  ultimately show ?thesis
    using byte_lower [of c] by (auto simp: is_ascii_uppercase_def)
qed

definition no_final_dot :: "string \<Rightarrow> bool" where
  "no_final_dot s \<longleftrightarrow> s = [] \<or> last s \<noteq> CHR ''.''"

lemma no_final_dot_trim: "no_final_dot (trim_end_dots s)"
  using hd_dropWhile [of "\<lambda>c. c = CHR ''.''" "rev s"]
  by (cases "dropWhile (\<lambda>c. c = CHR ''.'') (rev s)")
    (simp_all add: no_final_dot_def trim_end_dots_def)

lemma no_final_dot_lowercase: "no_final_dot s \<Longrightarrow> no_final_dot (to_ascii_lowercase s)"
  by (cases s rule: rev_cases)
    (simp_all add: no_final_dot_def to_ascii_lowercase_def lowercase_dot del: if_split)

lemma trim_end_dots_id: "no_final_dot s \<Longrightarrow> trim_end_dots s = s"
  by (cases s rule: rev_cases) (simp_all add: no_final_dot_def trim_end_dots_def)

lemma lowercase_append: "to_ascii_lowercase (s @ t) = to_ascii_lowercase s @ to_ascii_lowercase t"
  by (simp add: to_ascii_lowercase_def)

lemma normalize_host_form:
  assumes "normalize_host v w = Inr h"
  shows "h \<noteq> []" "CHR ''*'' \<notin> set h" "CHR ''.'' \<in> set h" "no_final_dot h" "to_ascii_lowercase h = h"
proof -
  define g where "g = to_ascii_lowercase (trim_end_dots (trim v))"
  have full: "no_final_dot g" "to_ascii_lowercase g = g"
    by (simp_all add: g_def no_final_dot_trim no_final_dot_lowercase lowercase_idem)
  have h: "h = g \<or> g = ''*.'' @ h"
    using assms by (auto simp: normalize_host_def Let_def strip_prefix_Some g_def
        split: if_splits option.splits)
  show ne: "h \<noteq> []" and "CHR ''*'' \<notin> set h" and "CHR ''.'' \<in> set h"
    using assms by (auto simp: normalize_host_def Let_def split: if_splits)
  have "length (to_ascii_lowercase s) = length s" for s
    by (simp add: to_ascii_lowercase_def)
  then have "to_ascii_lowercase (''*.'' @ h) = ''*.'' @ h \<Longrightarrow> to_ascii_lowercase h = h"
    unfolding lowercase_append by (subst (asm) append_eq_append_conv) simp_all
  then show "no_final_dot h" "to_ascii_lowercase h = h"
    using h full ne by (auto simp: no_final_dot_def)
qed

lemma normalize_host_stable:
  assumes h: "normalize_host v w = Inr h" and "\<forall>ch \<in> set (utf8_chars h). \<not> is_whitespace ch"
  shows "normalize_host h w' = Inr h"
proof -
  have "strip_prefix ''*.'' h = None"
    using normalize_host_form(2) [OF h] by (cases "strip_prefix ''*.'' h") (auto simp: strip_prefix_Some)
  then show ?thesis
    using normalize_host_form [OF h] trim_no_whitespace [OF assms(2)]
    by (simp add: normalize_host_def trim_end_dots_id)
qed

fun constructed :: "route_identity \<Rightarrow> bool" where
  "constructed (HttpIdentity h p) \<longleftrightarrow>
     (\<exists>v. normalize_host v (rh_kind h = WildcardSuffix) = Inr (rh_host h))
     \<and> (case p of None \<Rightarrow> True | Some pp \<Rightarrow> PathPrefix_new pp = Inr pp)"
| "constructed (SniIdentity h) \<longleftrightarrow> (\<exists>v. normalize_host v (rh_kind h = WildcardSuffix) = Inr (rh_host h))"

text \<open>
  C30. An identity made by the public constructors is restored from its stored columns, provided
  its host holds no white space.
\<close>

theorem route_identity_round_trip:
  assumes "constructed i" and "\<forall>ch \<in> set (utf8_chars (rh_host (identity_host i))). \<not> is_whitespace ch"
  shows "route_identity_from_parts (ip_identity_kind (route_identity_parts_of i))
      (ip_host_kind (route_identity_parts_of i)) (ip_host (route_identity_parts_of i))
      (ip_path_prefix (route_identity_parts_of i)) = Inr i"
proof -
  define h where "h = identity_host i"
  obtain v where "normalize_host v (rh_kind h = WildcardSuffix) = Inr (rh_host h)"
    using assms(1) by (cases i) (auto simp: h_def)
  from normalize_host_stable [OF this] have stable: "normalize_host (rh_host h) w = Inr (rh_host h)" for w
    using assms(2) by (simp add: h_def)
  have host: "route_host_from_db (route_host_kind_to_db (rh_kind h)) (rh_host h) = Inr h"
    by (cases "rh_kind h")
      (simp_all add: route_host_from_db_def route_host_kind_to_db_def RouteHost_exact_def
        RouteHost_wildcard_suffix_def stable route_host.equality)
  show ?thesis
    using assms(1) host
    by (cases i) (auto simp: route_identity_parts_of_def route_identity_from_parts_def h_def
        split: option.split)
qed

lemma route_identity_round_trip_witness:
  "route_identity_from_parts ''http'' ''wildcard_suffix'' ''b.c'' (Some ''/x'') =
     Inr (HttpIdentity \<lparr>rh_kind = WildcardSuffix, rh_host = ''b.c''\<rparr> (Some ''/x''))"
proof -
  let ?i = "HttpIdentity \<lparr>rh_kind = WildcardSuffix, rh_host = ''b.c''\<rparr> (Some ''/x'')"
  have "normalize_host ''*.B.c.'' True = Inr ''b.c''" "PathPrefix_new ''/x'' = Inr ''/x''"
    by code_simp+
  then have c: "constructed ?i" by auto
  have w: "\<forall>ch \<in> set (utf8_chars (rh_host (identity_host ?i))). \<not> is_whitespace ch"
    by code_simp
  from route_identity_round_trip [OF c w] show ?thesis
    by (simp add: route_identity_parts_of_def route_host_kind_to_db_def)
qed

definition path_text :: "string option \<Rightarrow> string" where
  "path_text p = (case p of Some path \<Rightarrow> path | None \<Rightarrow> [])"

lemma colon_separates:
  assumes "a @ CHR '':'' # x = b @ CHR '':'' # y" "CHR '':'' \<notin> set a" "CHR '':'' \<notin> set b"
  shows "a = b \<and> x = y"
  using assms
proof (induction a arbitrary: b)
  case Nil
  then show ?case by (cases b) auto
next
  case (Cons c a)
  then show ?case by (cases b) auto
qed

lemma path_text_inject:
  assumes "path_text p = path_text q"
    and "case p of None \<Rightarrow> True | Some pp \<Rightarrow> PathPrefix_new pp = Inr pp"
    and "case q of None \<Rightarrow> True | Some pp \<Rightarrow> PathPrefix_new pp = Inr pp"
  shows "p = q"
proof -
  have "PathPrefix_new [] \<noteq> Inr []" by (simp add: PathPrefix_new_def starts_with_def)
  with assms show ?thesis by (auto simp: path_text_def split: option.splits)
qed

lemma route_identity_key_eqD:
  assumes "route_identity_key i = route_identity_key j"
    and "CHR '':'' \<notin> set (rh_host (identity_host i))" "CHR '':'' \<notin> set (rh_host (identity_host j))"
    and "constructed i" "constructed j"
  shows "i = j"
proof (cases i; cases j)
  fix h p h' p' assume ij: "i = HttpIdentity h p" "j = HttpIdentity h' p'"
  have kind: "rh_kind h = rh_kind h'"
    using assms(1) ij by (cases "rh_kind h"; cases "rh_kind h'") (simp_all add: route_host_kind_to_db_def)
  then have "rh_host h @ CHR '':'' # path_text p = rh_host h' @ CHR '':'' # path_text p'"
    using assms(1) ij by (simp add: path_text_def)
  then have "rh_host h = rh_host h' \<and> path_text p = path_text p'"
    using assms(2,3) ij by (intro colon_separates) simp_all
  then show "i = j"
    using kind ij assms(4,5) path_text_inject [of p p'] by (simp add: route_host.equality)
next
  fix h h' assume ij: "i = SniIdentity h" "j = SniIdentity h'"
  have "rh_kind h = rh_kind h'"
    using assms(1) ij by (cases "rh_kind h"; cases "rh_kind h'") (simp_all add: route_host_kind_to_db_def)
  then show "i = j"
    using assms(1) ij by (simp add: route_host.equality)
qed (use assms(1) in simp_all)

text \<open>
  C31. The unique key of a route identity determines the identity: two bindings collide on
  \<^verbatim>\<open>identity_key\<close> exactly when they are the same identity, provided no host holds a colon.
\<close>

theorem route_identity_key_injective:
  assumes "CHR '':'' \<notin> set (rh_host (identity_host i))" "CHR '':'' \<notin> set (rh_host (identity_host j))"
    and "constructed i" "constructed j"
  shows "route_identity_key i = route_identity_key j \<longleftrightarrow> i = j"
  using route_identity_key_eqD [OF _ assms] by blast

lemma route_identity_key_injective_witness:
  "route_identity_key (HttpIdentity \<lparr>rh_kind = ExactHost, rh_host = ''a.b''\<rparr> None)
     \<noteq> route_identity_key (HttpIdentity \<lparr>rh_kind = ExactHost, rh_host = ''a.b''\<rparr> (Some ''/x''))"
proof -
  let ?i = "HttpIdentity \<lparr>rh_kind = ExactHost, rh_host = ''a.b''\<rparr>"
  have "normalize_host ''a.b'' False = Inr ''a.b''" "PathPrefix_new ''/x'' = Inr ''/x''" by code_simp+
  then have "constructed (?i None)" "constructed (?i (Some ''/x''))" by auto
  then show ?thesis
    using route_identity_key_injective [of "?i None" "?i (Some ''/x'')"] by simp
qed

end
