(* ===== verification/Store_Types.thy ===== *)
theory Store_Types
  imports Workload Routes Instance_State
begin

text \<open>
  The records, requests and errors of the store (\<^verbatim>\<open>store.rs\<close>, \<^verbatim>\<open>materialization.rs\<close>,
  \<^verbatim>\<open>instance.rs\<close>, \<^verbatim>\<open>runtime_work.rs\<close>), the rows of its Postgres tables
  (\<^verbatim>\<open>migrations/*.sql\<close>) and the row codecs of \<^verbatim>\<open>postgres/mapping.rs\<close>. A \<^verbatim>\<open>bigint\<close>
  column is an \<^typ>\<open>int\<close>; a \<^verbatim>\<open>jsonb\<close> column holds its decoded value, a text column with
  a \<^verbatim>\<open>CHECK (... IN ...)\<close> constraint the value the text names, and \<^verbatim>\<open>backend_address\<close>
  the socket address its text spells. The \<^verbatim>\<open>created_at\<close> and \<^verbatim>\<open>updated_at\<close> columns,
  which no statement reads, are left out.
\<close>

section \<open>Errors\<close>

text \<open>
  Messages stay symbolic where the source formats another value into them.
\<close>

datatype store_message =
    Text string
  | StoredData string
  | StoredNumber string int
  | TransitionText invalid_state_transition
  | ValuesText create_instance_validation_error
  | ClassText workload_class_validation_error
  | RewindText int backend_generation
  | CollisionText string string string string "string option"
  | CheckText string
  | PostgresText string

datatype store_error =
    SleepDeferred duration
  | InvalidArgument store_message
  | NotFound string
  | AlreadyExists string
  | GenerationConflict generation generation
  | ExclusivityConflict string string string "string option" "generation option"
  | IdempotencyConflict
  | IdempotencyResourceDeleted string
  | LeaseConflict string
  | Unavailable store_message
  | Internal store_message

definition is_retryable :: "store_error \<Rightarrow> bool" where
  "is_retryable e = (case e of Unavailable _ \<Rightarrow> True | _ \<Rightarrow> False)"

section \<open>Backends and targets\<close>

datatype ip_addr = V4 "32 word" | V6 "128 word"

record socket_addr =
  sa_ip :: ip_addr
  sa_port :: "16 word"

definition is_unspecified :: "ip_addr \<Rightarrow> bool" where
  "is_unspecified ip = (case ip of V4 a \<Rightarrow> a = 0 | V6 a \<Rightarrow> a = 0)"

text \<open>224.0.0.0/4 and ff00::/8\<close>

definition is_multicast :: "ip_addr \<Rightarrow> bool" where
  "is_multicast ip = (case ip of V4 a \<Rightarrow> drop_bit 28 a = 14 | V6 a \<Rightarrow> drop_bit 120 a = 255)"

definition BackendAddress_new :: "socket_addr \<Rightarrow> string + socket_addr" where
  "BackendAddress_new a =
     (if sa_port a = 0 then Inl ''port must not be zero''
      else if is_unspecified (sa_ip a) then Inl ''address must not be unspecified''
      else if is_multicast (sa_ip a) then Inl ''address must not be multicast''
      else Inr a)"

record backend_endpoint =
  be_uri :: string
  be_address :: "socket_addr option"

definition BackendEndpoint_new :: "string \<Rightarrow> empty_string_error + backend_endpoint" where
  "BackendEndpoint_new uri =
     tryE (NonEmptyString_new ''backend.uri'' uri) (\<lambda>u. Inr \<lparr>be_uri = u, be_address = None\<rparr>)"

definition BackendEndpoint_with_address ::
    "string \<Rightarrow> socket_addr \<Rightarrow> empty_string_error + backend_endpoint" where
  "BackendEndpoint_with_address uri a =
     tryE (NonEmptyString_new ''backend.uri'' uri) (\<lambda>u. Inr \<lparr>be_uri = u, be_address = Some a\<rparr>)"

record materialization_target =
  mt_cluster_id :: string
  mt_namespace :: string

definition MaterializationTarget_new :: "string \<Rightarrow> string \<Rightarrow> string + materialization_target" where
  "MaterializationTarget_new c n =
     (if is_blank c then Inl ''cluster_id'' else if is_blank n then Inl ''namespace''
      else Inr \<lparr>mt_cluster_id = c, mt_namespace = n\<rparr>)"

section \<open>Materialization records and requests\<close>

datatype materialization_state = Pending | Ready | MFailed | MDeleting | MDeleted

record rendered_object_ref =
  ro_api_version :: string
  ro_kind :: string
  ro_namespace :: string
  ro_name :: string

record reconciliation_lease =
  rl_owner :: string
  rl_expires_at :: int
  rl_attempt :: u64

record materialization_record =
  mz_id :: string
  mz_instance_id :: string
  mz_instance_generation :: generation
  mz_projection_generation :: generation
  mz_target :: materialization_target
  mz_state :: materialization_state
  mz_backend :: "backend_endpoint option"
  mz_backend_generation :: backend_generation
  mz_rendered_objects :: "rendered_object_ref list"
  mz_exclusivity_keys :: "rendered_exclusivity_key list"
  mz_reconciliation_lease :: "reconciliation_lease option"

record record_materialization_request =
  rm_instance_id :: string
  rm_instance_generation :: generation
  rm_projection_generation :: generation
  rm_target :: materialization_target
  rm_state :: materialization_state
  rm_backend :: "backend_endpoint option"
  rm_backend_generation :: backend_generation
  rm_rendered_objects :: "rendered_object_ref list"
  rm_exclusivity_keys :: "rendered_exclusivity_key list"

definition RecordMaterializationRequest_new ::
    "string \<Rightarrow> generation \<Rightarrow> materialization_target \<Rightarrow> materialization_state \<Rightarrow> backend_generation
     \<Rightarrow> record_materialization_request" where
  "RecordMaterializationRequest_new iid g t st bg =
     \<lparr>rm_instance_id = iid, rm_instance_generation = g,
      rm_projection_generation = (if st = Pending then Generation_next g else g),
      rm_target = t, rm_state = st, rm_backend = None, rm_backend_generation = bg,
      rm_rendered_objects = [], rm_exclusivity_keys = []\<rparr>"

record accept_wake_request =
  aw_expected_generation :: generation
  aw_pending :: record_materialization_request

record complete_wake_request =
  cw_instance_id :: string
  cw_expected_waking_generation :: generation
  cw_target :: materialization_target
  cw_backend :: backend_endpoint
  cw_backend_generation :: backend_generation
  cw_rendered_objects :: "rendered_object_ref list"
  cw_exclusivity_keys :: "rendered_exclusivity_key list"

record begin_sleep_request =
  bs_instance_id :: string
  bs_expected_running_generation :: generation
  bs_target :: materialization_target
  bs_drain_grace_timeout :: duration
  bs_minimum_ready_age :: "duration option"

record finalize_sleep_request =
  fs_instance_id :: string
  fs_expected_draining_generation :: generation
  fs_target :: materialization_target

record lease_ref =
  lr_materialization_id :: string
  lr_owner :: string
  lr_attempt :: u64

record instance_record =
  in_id :: string
  in_workload_class :: workload_class_version_ref
  in_values :: instance_values
  in_state :: instance_state
  in_generation :: generation

section \<open>Rows\<close>

record instance_row =
  ir_id :: string
  ir_class_id :: string
  ir_class_version :: int
  ir_values :: instance_values
  ir_state :: instance_state
  ir_generation :: int

datatype failure_kind = Transient | Permanent | Deadline | Uncertain

record materialization_row =
  mr_id :: string
  mr_instance_id :: string
  mr_instance_generation :: int
  mr_projection_generation :: int
  mr_cluster_id :: string
  mr_namespace :: string
  mr_state :: materialization_state
  mr_backend_uri :: "string option"
  mr_backend_address :: "socket_addr option"
  mr_backend_generation :: int
  mr_rendered_objects :: "rendered_object_ref list"
  mr_exclusivity_keys :: "rendered_exclusivity_key list"
  mr_reconcile_owner :: "string option"
  mr_lease_expires_at :: "int option"
  mr_reconcile_attempt :: int
  mr_state_entered_at :: int
  mr_next_attempt_at :: int
  mr_drain_not_before :: int
  mr_wake_failure_message :: string
  mr_failure_requires_cleanup :: bool
  mr_failure_count :: int
  mr_failure_kind :: "failure_kind option"
  mr_failure_message :: string
  mr_operation_deadline :: int

record effect_row =
  ef_materialization_id :: string
  ef_effect_id :: int
  ef_lease_owner :: string
  ef_lease_attempt :: int
  ef_instance_generation :: int
  ef_operation :: string
  ef_object_ref :: rendered_object_ref
  ef_expected_uid :: "string option"
  ef_expected_resource_version :: "string option"

record deferred_wake_row =
  dw_instance_id :: string
  dw_instance_generation :: int
  dw_projection_generation :: int
  dw_cluster_id :: string
  dw_namespace :: string
  dw_backend_generation :: int
  dw_rendered_objects :: "rendered_object_ref list"
  dw_exclusivity_keys :: "rendered_exclusivity_key list"

record watermark_row =
  wm_instance_id :: string
  wm_last_generation :: int
  wm_retired :: bool

record route_row =
  rr_id :: string
  rr_instance_id :: string
  rr_identity :: route_identity
  rr_protocol :: protocol_route

datatype idempotency_operation = CreateInstanceOp | CreateRouteBindingOp

record operator_audit_row =
  au_operation :: string
  au_materialization_id :: "string option"
  au_cluster_id :: "string option"
  au_namespace :: "string option"
  au_key_name :: "string option"
  au_operator :: string
  au_reason :: string

datatype route_change = InstanceChange string | RouteChange bool route_row

end
