(* ===== verification/Reservations.thy ===== *)
theory Reservations
  imports Prelude
begin

text \<open>
  Reservation tables. The database keeps, for every row of an owner table that is not deleted,
  one reservation per key the row holds (\<^verbatim>\<open>sync_materialization_reservations\<close> of
  \<^verbatim>\<open>migrations/0007_store_scalability.sql\<close>). The synchronisation of one row is the same for
  object references and for exclusivity keys, so it is written and proved once, over the owner's
  identity and the keys it holds.
\<close>

type_synonym 'k reservations = "('k \<times> string) list"

text \<open>\<^verbatim>\<open>DELETE FROM ... WHERE materialization_id = NEW.materialization_id\<close>\<close>

definition release_all :: "string \<Rightarrow> 'k reservations \<Rightarrow> 'k reservations" where
  "release_all owner t = filter (\<lambda>(k, ow). ow \<noteq> owner) t"

text \<open>
  The loop of \<^verbatim>\<open>INSERT ... ON CONFLICT DO NOTHING\<close>; the first key that is taken is the error.
\<close>

fun acquire :: "string \<Rightarrow> 'k list \<Rightarrow> 'k reservations \<Rightarrow> 'k + 'k reservations" where
  "acquire owner [] t = Inr t"
| "acquire owner (k # ks) t =
     (if map_of t k \<noteq> None then Inl k else acquire owner ks (t @ [(k, owner)]))"

lemma set_release_all: "set (release_all owner t) = {(k, ow) \<in> set t. ow \<noteq> owner}"
  by (auto simp: release_all_def)

lemma distinct_release_all: "distinct (map fst t) \<Longrightarrow> distinct (map fst (release_all owner t))"
  unfolding release_all_def by (rule distinct_map_filter)

lemma acquire_Inr:
  "acquire owner ks t = Inr t' \<Longrightarrow> distinct (map fst t) \<Longrightarrow>
     distinct (map fst t') \<and> set t' = set t \<union> (\<lambda>k. (k, owner)) ` set ks
     \<and> (\<forall>k \<in> set ks. k \<notin> fst ` set t)"
proof (induction owner ks t rule: acquire.induct)
  case (2 owner k ks t)
  have fresh: "k \<notin> fst ` set t" and rest: "acquire owner ks (t @ [(k, owner)]) = Inr t'"
    using "2.prems"(1) by (auto split: if_splits simp: map_of_eq_None_iff)
  have "distinct (map fst (t @ [(k, owner)]))"
    using "2.prems"(2) fresh by simp
  from "2.IH" [OF _ rest this] fresh show ?case
    by (auto simp: map_of_eq_None_iff)
qed simp

lemma acquire_Inl:
  "acquire owner ks t = Inl k \<Longrightarrow> k \<in> set ks \<and> (\<exists>ow. (k, ow) \<in> set t \<or> k \<in> set ks)"
  by (induction owner ks t rule: acquire.induct) (auto split: if_splits)

section \<open>The contract of a reservation table\<close>

locale reservation_table =
  fixes rid :: "'r \<Rightarrow> string"
    and held :: "'r \<Rightarrow> 'k list"
begin

definition owned :: "'r \<Rightarrow> ('k \<times> string) set" where
  "owned r = (\<lambda>k. (k, rid r)) ` set (held r)"

definition reserved :: "'r list \<Rightarrow> 'k reservations \<Rightarrow> bool" where
  "reserved rows t \<longleftrightarrow> distinct (map fst t) \<and> set t = (\<Union>r \<in> set rows. owned r)"

lemma rid_inject:
  "distinct (map rid rows) \<Longrightarrow> r \<in> set rows \<Longrightarrow> r' \<in> set rows \<Longrightarrow> rid r = rid r' \<Longrightarrow> r = r'"
  by (auto simp: distinct_map dest: inj_onD)

text \<open>No key is held by two rows.\<close>

lemma exclusive:
  assumes "reserved rows t" "distinct (map rid rows)"
    and "r \<in> set rows" "r' \<in> set rows" "k \<in> set (held r)" "k \<in> set (held r')"
  shows "r = r'"
proof -
  have "(k, rid r) \<in> set t" "(k, rid r') \<in> set t"
    using assms by (auto simp: reserved_def owned_def)
  then have "rid r = rid r'"
    using assms(1) by (auto simp: reserved_def dest: eq_key_imp_eq_value)
  then show ?thesis
    by (rule rid_inject [OF assms(2-4)])
qed

lemma reserved_Nil: "reserved [] []"
  by (simp add: reserved_def)

lemma reserved_same:
  assumes "reserved (A @ old # B) t" "rid new = rid old" "set (held new) = set (held old)"
  shows "reserved (A @ new # B) t"
  using assms by (simp add: reserved_def owned_def)

lemma owned_others:
  assumes "rid new \<notin> rid ` set rows"
  shows "{(k, ow) \<in> (\<Union>r \<in> set rows. owned r). ow \<noteq> rid new} = (\<Union>r \<in> set rows. owned r)"
proof -
  have "ow \<noteq> rid new" if "(k, ow) \<in> (\<Union>r \<in> set rows. owned r)" for k ow
    using that assms unfolding owned_def by blast
  then show ?thesis by blast
qed

text \<open>Synchronising one row, the others unchanged.\<close>

lemma reserved_sync:
  assumes "reserved (A @ old # B) t" "distinct (map rid (A @ old # B))" "rid new = rid old"
    and "acquire (rid new) ks (release_all (rid new) t) = Inr t'" "set ks = set (held new)"
  shows "reserved (A @ new # B) t'"
proof -
  have t: "distinct (map fst t)" "set t = owned old \<union> (\<Union>r \<in> set (A @ B). owned r)"
    using assms(1) by (auto simp: reserved_def)
  have "rid new \<notin> rid ` set (A @ B)"
    using assms(2,3) by auto
  from owned_others [OF this] have "set (release_all (rid new) t) = (\<Union>r \<in> set (A @ B). owned r)"
    unfolding set_release_all t(2) using assms(3) by (auto simp: owned_def)
  moreover have "distinct (map fst t')"
      "set t' = set (release_all (rid new) t) \<union> owned new"
    using acquire_Inr [OF assms(4) distinct_release_all [OF t(1)]] assms(5) by (auto simp: owned_def)
  ultimately show ?thesis
    by (auto simp: reserved_def)
qed

lemma reserved_insert:
  assumes "reserved rows t" "rid new \<notin> rid ` set rows"
    and "acquire (rid new) ks (release_all (rid new) t) = Inr t'" "set ks = set (held new)"
  shows "reserved (rows @ [new]) t'"
proof -
  have t: "distinct (map fst t)" "set t = (\<Union>r \<in> set rows. owned r)"
    using assms(1) by (auto simp: reserved_def)
  have "set (release_all (rid new) t) = (\<Union>r \<in> set rows. owned r)"
    unfolding set_release_all t(2) by (rule owned_others [OF assms(2)])
  then show ?thesis
    using acquire_Inr [OF assms(3) distinct_release_all [OF t(1)]] assms(4)
    by (auto simp: reserved_def owned_def)
qed

text \<open>Deleting owners deletes their reservations (\<^verbatim>\<open>ON DELETE CASCADE\<close>).\<close>

lemma reserved_delete:
  assumes "reserved rows t" "distinct (map rid rows)"
  shows "reserved (filter P rows) (filter (\<lambda>(k, ow). ow \<notin> rid ` {r \<in> set rows. \<not> P r}) t)"
proof -
  have keep: "P r \<longleftrightarrow> rid r \<notin> rid ` {r \<in> set rows. \<not> P r}" if "r \<in> set rows" for r
    using that rid_inject [OF assms(2), of r] by auto
  have "{x \<in> (\<Union>r \<in> set rows. owned r). case x of (k, ow) \<Rightarrow> ow \<notin> rid ` {r \<in> set rows. \<not> P r}}
      = (\<Union>r \<in> set (filter P rows). owned r)" (is "?L = ?R")
  proof
    show "?L \<subseteq> ?R"
      using keep unfolding owned_def by fastforce
    show "?R \<subseteq> ?L"
      using keep unfolding owned_def by fastforce
  qed
  with assms(1) show ?thesis
    by (simp add: reserved_def distinct_map_filter)
qed

end

end
