(* ===== verification/Tables.thy ===== *)
theory Tables
  imports Store_Types Reservations
begin

text \<open>
  The Postgres database behind the store: its tables as lists of rows, and the effect of one
  \<^verbatim>\<open>INSERT\<close>, \<^verbatim>\<open>UPDATE\<close> or \<^verbatim>\<open>DELETE\<close> statement with the triggers and constraints that
  \<^verbatim>\<open>crates/control-plane/migrations\<close> attach to the table. A statement that Postgres refuses is
  an \<^const>\<open>Inl\<close> with the error \<^verbatim>\<open>postgres/error.rs\<close> maps it to; a transaction threads the
  database through its statements, so an error leaves the caller's database as it was, which is
  the rollback. Statements of concurrent transactions are ordered by the row locks they take;
  the model runs transactions one after the other. \<^verbatim>\<open>now\<close> is the database clock in
  milliseconds at the statement; all readings inside one statement are the same.
\<close>

section \<open>The database\<close>

type_synonym object_key = "string \<times> string \<times> string \<times> string \<times> string"
type_synonym exclusivity_key = "string \<times> string \<times> string \<times> string"

datatype fingerprint =
    InstanceFingerprint string workload_class_version_ref instance_values "(route_identity \<times> protocol_route) list"
  | RouteFingerprint string string route_identity protocol_route

record idempotency_row =
  id_key :: string
  id_operation :: idempotency_operation
  id_fingerprint :: fingerprint
  id_resource_id :: string
  id_expires_at :: "int option"
  id_resource_deleted_at :: "int option"

record outbox_row =
  ob_revision :: int
  ob_payload :: route_change
  ob_created_at :: int

record http01_row =
  h1_host :: string
  h1_token :: string
  h1_key_authorization :: string
  h1_expires_at :: int

record store_db =
  db_classes :: "workload_class_version list"
  db_instances :: "instance_row list"
  db_materializations :: "materialization_row list"
  db_effects :: "effect_row list"
  db_object_reservations :: "object_key reservations"
  db_key_reservations :: "exclusivity_key reservations"
  db_deferred_wakes :: "deferred_wake_row list"
  db_watermarks :: "watermark_row list"
  db_routes :: "route_row list"
  db_idempotency :: "idempotency_row list"
  db_outbox :: "outbox_row list"
  db_revision :: int
  db_audit :: "operator_audit_row list"
  db_http01 :: "http01_row list"
  db_operation_timeout :: int

definition empty_db :: "int \<Rightarrow> store_db" where
  "empty_db timeout =
     \<lparr>db_classes = [], db_instances = [], db_materializations = [], db_effects = [],
      db_object_reservations = [], db_key_reservations = [], db_deferred_wakes = [],
      db_watermarks = [], db_routes = [], db_idempotency = [], db_outbox = [], db_revision = 0,
      db_audit = [], db_http01 = [], db_operation_timeout = timeout\<rparr>"

text \<open>\<^verbatim>\<open>bigint\<close> addition: out of range is an error of the statement.\<close>

definition pg_add :: "int \<Rightarrow> int \<Rightarrow> store_error + int" where
  "pg_add a b =
     (if - i64_max - 1 \<le> a + b \<and> a + b \<le> i64_max then Inr (a + b)
      else Inl (Internal (PostgresText ''22003'')))"

lemma pg_add_Inr [result_simps]: "pg_add a b = Inr c \<Longrightarrow> c = a + b"
  by (auto simp: pg_add_def split: if_splits)

section \<open>The route change outbox\<close>

definition OUTBOX_RETAINED :: int where
  "OUTBOX_RETAINED = 100000"

definition record_route_changes :: "int \<Rightarrow> route_change list \<Rightarrow> store_db \<Rightarrow> store_error + store_db" where
  "record_route_changes now payloads db =
     (if payloads = [] then Inr db
      else tryE (pg_add (db_revision db) (int (length payloads))) (\<lambda>next_revision.
        Inr (db\<lparr>db_revision := next_revision,
          db_outbox := filter (\<lambda>r. ob_revision r > next_revision - OUTBOX_RETAINED)
            (db_outbox db @ map (\<lambda>(i, p). \<lparr>ob_revision = db_revision db + 1 + int i, ob_payload = p,
                ob_created_at = now\<rparr>) (enumerate 0 payloads))\<rparr>)))"

section \<open>Materializations\<close>

definition api_group :: "string \<Rightarrow> string" where
  "api_group v = (if CHR ''/'' \<in> set v then takeWhile (\<lambda>c. c \<noteq> CHR ''/'') v else [])"

definition object_key_of :: "string \<Rightarrow> rendered_object_ref \<Rightarrow> object_key" where
  "object_key_of cluster ref =
     (cluster, api_group (ro_api_version ref), ro_kind ref,
      (if ro_kind ref = ''PersistentVolume'' then [] else ro_namespace ref), ro_name ref)"

definition exclusivity_key_of :: "string \<Rightarrow> string \<Rightarrow> rendered_exclusivity_key \<Rightarrow> exclusivity_key" where
  "exclusivity_key_of cluster namespace k = (cluster, namespace, ek_name k, ek_value k)"

text \<open>What a row reserves: \<^verbatim>\<open>SELECT DISTINCT ... ORDER BY\<close>, nothing once it is deleted.\<close>

definition held_objects :: "materialization_row \<Rightarrow> object_key list" where
  "held_objects m =
     (if mr_state m = MDeleted then []
      else sort (remdups (map (object_key_of (mr_cluster_id m)) (mr_rendered_objects m))))"

definition held_keys :: "materialization_row \<Rightarrow> exclusivity_key list" where
  "held_keys m =
     (if mr_state m = MDeleted then []
      else sort (remdups (map (exclusivity_key_of (mr_cluster_id m) (mr_namespace m))
        (mr_exclusivity_keys m))))"

definition owner_row :: "'k reservations \<Rightarrow> 'k \<Rightarrow> materialization_row list \<Rightarrow> materialization_row option" where
  "owner_row t k rows =
     Option.bind (map_of t k) (\<lambda>mid. find (\<lambda>m. mr_id m = mid) rows)"

definition object_collision :: "store_db \<Rightarrow> materialization_row \<Rightarrow> object_key \<Rightarrow> store_error" where
  "object_collision db m k =
     (case k of (cluster, grp, kind, ns, name) \<Rightarrow>
        InvalidArgument (CollisionText
          (case find (\<lambda>ref. ro_kind ref = kind \<and> ro_name ref = name) (mr_rendered_objects m) of
             Some ref \<Rightarrow> ro_api_version ref | None \<Rightarrow> grp) kind ns name
          (map_option mr_instance_id
            (owner_row (db_object_reservations db) k (db_materializations db)))))"

definition exclusivity_conflict :: "store_db \<Rightarrow> exclusivity_key \<Rightarrow> store_error" where
  "exclusivity_conflict db k =
     (case k of (cluster, ns, name, v) \<Rightarrow>
        (let owner = owner_row (db_key_reservations db) k (db_materializations db) in
         ExclusivityConflict cluster ns name (map_option mr_instance_id owner)
           (Option.bind owner (\<lambda>m. u64_of_i64 (mr_instance_generation m)))))"

text \<open>The row trigger \<^verbatim>\<open>sync_materialization_reservations\<close>, \<^const>\<open>None\<close> on insertion.\<close>

definition sync_materialization_reservations ::
    "materialization_row option \<Rightarrow> materialization_row \<Rightarrow> store_db \<Rightarrow> store_error + store_db" where
  "sync_materialization_reservations old new db =
     (if (case old of None \<Rightarrow> False | Some prev \<Rightarrow> mr_state new = mr_state prev
            \<and> mr_rendered_objects new = mr_rendered_objects prev
            \<and> mr_exclusivity_keys new = mr_exclusivity_keys prev
            \<and> mr_cluster_id new = mr_cluster_id prev \<and> mr_namespace new = mr_namespace prev)
      then Inr db
      else let db = db\<lparr>db_object_reservations := release_all (mr_id new) (db_object_reservations db),
                       db_key_reservations := release_all (mr_id new) (db_key_reservations db)\<rparr>
        in (case acquire (mr_id new) (held_objects new) (db_object_reservations db) of
              Inl k \<Rightarrow> Inl (object_collision db new k)
            | Inr objs \<Rightarrow>
                (case acquire (mr_id new) (held_keys new) (db_key_reservations db) of
                   Inl k \<Rightarrow> Inl (exclusivity_conflict db k)
                 | Inr ks \<Rightarrow> Inr (db\<lparr>db_object_reservations := objs, db_key_reservations := ks\<rparr>))))"

fun sync_rows :: "(materialization_row \<times> materialization_row) list \<Rightarrow> store_db \<Rightarrow> store_error + store_db" where
  "sync_rows [] db = Inr db"
| "sync_rows ((old, new) # ps) db =
     tryE (sync_materialization_reservations (Some old) new db) (sync_rows ps)"

text \<open>The row triggers before an update, in the order of their names.\<close>

definition reset_materialization_schedule ::
    "int \<Rightarrow> int \<Rightarrow> materialization_row \<Rightarrow> materialization_row \<Rightarrow> store_error + materialization_row" where
  "reset_materialization_schedule now timeout old new =
     (if mr_state new \<noteq> mr_state old \<and> (mr_state new = Pending \<or> mr_state new = MDeleting)
         \<or> mr_instance_generation new \<noteq> mr_instance_generation old
      then tryE (pg_add (max now (mr_drain_not_before new)) timeout) (\<lambda>deadline.
        Inr (new\<lparr>mr_wake_failure_message :=
              (if mr_state new = Pending then [] else mr_wake_failure_message new),
            mr_failure_requires_cleanup := False, mr_failure_count := 0, mr_failure_kind := None,
            mr_failure_message := [], mr_operation_deadline := deadline\<rparr>))
      else Inr new)"

definition track_materialization_state_age ::
    "int \<Rightarrow> materialization_row \<Rightarrow> materialization_row \<Rightarrow> materialization_row" where
  "track_materialization_state_age now old new =
     (if mr_state new \<noteq> mr_state old
      then new\<lparr>mr_state_entered_at := now,
               mr_next_attempt_at :=
                 (if mr_next_attempt_at new = mr_next_attempt_at old then now else mr_next_attempt_at new),
               mr_drain_not_before := (if mr_state new \<noteq> MDeleting then 0 else mr_drain_not_before new)\<rparr>
      else new)"

definition route_visible_change :: "materialization_row \<Rightarrow> materialization_row \<Rightarrow> bool" where
  "route_visible_change old new \<longleftrightarrow>
     (mr_state new, mr_backend_uri new, mr_backend_address new, mr_backend_generation new,
      mr_instance_generation new, mr_failure_kind new)
     \<noteq> (mr_state old, mr_backend_uri old, mr_backend_address old, mr_backend_generation old,
        mr_instance_generation old, mr_failure_kind old)"

definition update_row ::
    "int \<Rightarrow> int \<Rightarrow> (materialization_row \<Rightarrow> bool)
     \<Rightarrow> (materialization_row \<Rightarrow> store_error + materialization_row)
     \<Rightarrow> materialization_row \<Rightarrow> store_error + materialization_row" where
  "update_row now timeout P f m =
     (if P m then
        tryE (f m) (\<lambda>new.
        tryE (reset_materialization_schedule now timeout m new) (\<lambda>new.
        Inr (track_materialization_state_age now m new)))
      else Inr m)"

text \<open>
  \<^verbatim>\<open>UPDATE materializations SET f WHERE P RETURNING *\<close>: the row triggers before, the
  reservations of each updated row, the route changes of the statement.
\<close>

definition update_materializations ::
    "int \<Rightarrow> (materialization_row \<Rightarrow> bool) \<Rightarrow> (materialization_row \<Rightarrow> store_error + materialization_row)
     \<Rightarrow> store_db \<Rightarrow> store_error + (materialization_row list \<times> store_db)" where
  "update_materializations now P f db =
     tryE (collectE (update_row now (db_operation_timeout db) P f) (db_materializations db)) (\<lambda>rows.
     let updated = filter (P \<circ> fst) (zip (db_materializations db) rows) in
     tryE (sync_rows updated (db\<lparr>db_materializations := rows\<rparr>)) (\<lambda>db.
     tryE (record_route_changes now
             (remdups (map (InstanceChange \<circ> mr_instance_id \<circ> snd)
               (filter (\<lambda>(old, new). route_visible_change old new) updated))) db) (\<lambda>db.
     Inr (map snd updated, db))))"

text \<open>
  \<^verbatim>\<open>INSERT INTO materializations\<close> with the primary key and foreign key constraints.
\<close>

definition insert_materialization ::
    "int \<Rightarrow> materialization_row \<Rightarrow> store_db \<Rightarrow> store_error + store_db" where
  "insert_materialization now new db =
     (if list_ex (\<lambda>m. mr_id m = mr_id new) (db_materializations db)
      then Inl (AlreadyExists ''materialization'')
      else if \<not> list_ex (\<lambda>i. ir_id i = mr_instance_id new) (db_instances db)
      then Inl (NotFound ''referenced resource'')
      else tryE (sync_materialization_reservations None new
                  (db\<lparr>db_materializations := db_materializations db @ [new]\<rparr>)) (\<lambda>db.
        record_route_changes now [InstanceChange (mr_instance_id new)] db))"

section \<open>Instances\<close>

definition raise_watermark :: "string \<Rightarrow> int \<Rightarrow> watermark_row list \<Rightarrow> watermark_row list" where
  "raise_watermark iid g ws =
     (if list_ex (\<lambda>w. wm_instance_id w = iid) ws
      then map (\<lambda>w. if wm_instance_id w = iid
                then w\<lparr>wm_last_generation := max (wm_last_generation w) g\<rparr> else w) ws
      else ws @ [\<lparr>wm_instance_id = iid, wm_last_generation = g, wm_retired = False\<rparr>])"

text \<open>
  \<^verbatim>\<open>UPDATE instances SET state = s, generation = g WHERE P RETURNING *\<close>: the watermark trigger
  before, the route change trigger after. At most one row has an id.
\<close>

definition update_instances ::
    "int \<Rightarrow> (instance_row \<Rightarrow> bool) \<Rightarrow> (instance_row \<Rightarrow> store_error + instance_row)
     \<Rightarrow> store_db \<Rightarrow> store_error + (instance_row list \<times> store_db)" where
  "update_instances now P f db =
     tryE (collectE (\<lambda>i. if P i then f i else Inr i) (db_instances db)) (\<lambda>rows.
     let updated = filter (P \<circ> fst) (zip (db_instances db) rows) in
     tryE (record_route_changes now
             (remdups (map (InstanceChange \<circ> ir_id \<circ> snd)
               (filter (\<lambda>(old, new). (ir_state new, ir_generation new) \<noteq> (ir_state old, ir_generation old))
                 updated)))
             (db\<lparr>db_instances := rows,
                db_watermarks := fold (\<lambda>(old, new). raise_watermark (ir_id new) (ir_generation new))
                  updated (db_watermarks db)\<rparr>)) (\<lambda>db.
     Inr (map snd updated, db)))"

definition find_watermark :: "string \<Rightarrow> watermark_row list \<Rightarrow> watermark_row option" where
  "find_watermark iid ws = find (\<lambda>w. wm_instance_id w = iid) ws"

definition insert_instance_row ::
    "int \<Rightarrow> instance_row \<Rightarrow> store_db \<Rightarrow> store_error + (instance_row \<times> store_db)" where
  "insert_instance_row now new db =
     tryE (case find_watermark (ir_id new) (db_watermarks db) of
             None \<Rightarrow> Inr new
           | Some w \<Rightarrow>
               if wm_retired w
               then Inl (InvalidArgument (Text ''instance ID was deleted before incarnation fencing; use a new instance ID''))
               else tryE (pg_add (wm_last_generation w) 1) (\<lambda>g.
                 Inr (new\<lparr>ir_generation := max (ir_generation new) g\<rparr>))) (\<lambda>new.
     if list_ex (\<lambda>i. ir_id i = ir_id new) (db_instances db) then Inl (AlreadyExists ''instance'')
     else if \<not> list_ex (\<lambda>c. wr_class_id (wc_reference c) = ir_class_id new
                \<and> uint (wr_version (wc_reference c)) = ir_class_version new) (db_classes db)
     then Inl (NotFound ''referenced resource'')
     else tryE (record_route_changes now [InstanceChange (ir_id new)]
            (db\<lparr>db_instances := db_instances db @ [new],
               db_watermarks := raise_watermark (ir_id new) (ir_generation new) (db_watermarks db)\<rparr>)) (\<lambda>db.
       Inr (new, db)))"

definition tombstone ::
    "int \<Rightarrow> idempotency_operation \<Rightarrow> (string \<Rightarrow> bool) \<Rightarrow> idempotency_row list \<Rightarrow> idempotency_row list" where
  "tombstone now operation deleted rs =
     map (\<lambda>r. if id_operation r = operation \<and> deleted (id_resource_id r)
              \<and> id_resource_deleted_at r = None
            then r\<lparr>id_resource_deleted_at := Some now\<rparr> else r) rs"

text \<open>
  \<^verbatim>\<open>DELETE FROM instances WHERE P\<close> with its tombstones and cascades. An outstanding effect
  has no cascade, so it refuses the deletion. Returns the number of deleted instances.
\<close>

definition delete_instances ::
    "int \<Rightarrow> (instance_row \<Rightarrow> bool) \<Rightarrow> store_db \<Rightarrow> store_error + (nat \<times> store_db)" where
  "delete_instances now P db =
     (let gone = filter P (db_instances db);
          is_gone = (\<lambda>iid. list_ex (\<lambda>i. ir_id i = iid) gone);
          mids = map mr_id (filter (\<lambda>m. is_gone (mr_instance_id m)) (db_materializations db));
          routes = filter (\<lambda>r. is_gone (rr_instance_id r)) (db_routes db)
      in if list_ex (\<lambda>e. ef_materialization_id e \<in> set mids) (db_effects db)
         then Inl (NotFound ''referenced resource'')
         else tryE (record_route_changes now
             (concat (map (\<lambda>i. map (RouteChange True) (filter (\<lambda>r. rr_instance_id r = ir_id i) routes)
                  @ (if list_ex (\<lambda>m. mr_instance_id m = ir_id i) (db_materializations db)
                     then [InstanceChange (ir_id i)] else [])) gone)
              @ map (InstanceChange \<circ> ir_id) gone)
             (db\<lparr>db_instances := filter (\<lambda>i. \<not> P i) (db_instances db),
                db_materializations := filter (\<lambda>m. \<not> is_gone (mr_instance_id m)) (db_materializations db),
                db_object_reservations := filter (\<lambda>(k, ow). ow \<notin> set mids) (db_object_reservations db),
                db_key_reservations := filter (\<lambda>(k, ow). ow \<notin> set mids) (db_key_reservations db),
                db_deferred_wakes := filter (\<lambda>d. \<not> is_gone (dw_instance_id d)) (db_deferred_wakes db),
                db_routes := filter (\<lambda>r. \<not> is_gone (rr_instance_id r)) (db_routes db),
                db_idempotency :=
                  tombstone now CreateRouteBindingOp (\<lambda>rid. list_ex (\<lambda>r. rr_id r = rid) routes)
                    (tombstone now CreateInstanceOp is_gone (db_idempotency db))\<rparr>)) (\<lambda>db.
           Inr (length gone, db)))"

section \<open>Route bindings\<close>

definition insert_route :: "int \<Rightarrow> route_row \<Rightarrow> store_db \<Rightarrow> store_error + store_db" where
  "insert_route now r db =
     (if list_ex (\<lambda>r'. rr_id r' = rr_id r) (db_routes db) then Inl (AlreadyExists ''route binding'')
      else if list_ex (\<lambda>r'. route_identity_key (rr_identity r') = route_identity_key (rr_identity r)) (db_routes db)
      then Inl (AlreadyExists ''route binding'')
      else if \<not> list_ex (\<lambda>i. ir_id i = rr_instance_id r) (db_instances db)
      then Inl (NotFound ''referenced resource'')
      else record_route_changes now [RouteChange False r] (db\<lparr>db_routes := db_routes db @ [r]\<rparr>))"

definition delete_routes :: "int \<Rightarrow> (route_row \<Rightarrow> bool) \<Rightarrow> store_db \<Rightarrow> store_error + (nat \<times> store_db)" where
  "delete_routes now P db =
     (let gone = filter P (db_routes db) in
      tryE (record_route_changes now (map (RouteChange True) gone)
             (db\<lparr>db_routes := filter (\<lambda>r. \<not> P r) (db_routes db),
                db_idempotency := tombstone now CreateRouteBindingOp
                  (\<lambda>rid. list_ex (\<lambda>r. rr_id r = rid) gone) (db_idempotency db)\<rparr>)) (\<lambda>db.
      Inr (length gone, db)))"

end
