(* ===== verification/Row_Mapping.thy ===== *)
theory Row_Mapping
  imports Tables
begin

text \<open>
  \<^verbatim>\<open>crates/control-plane/src/postgres/mapping.rs\<close>: how rows become records and how ids and
  states become column values.
\<close>

section \<open>Column values\<close>

definition generation_to_i64 :: "generation \<Rightarrow> store_error + int" where
  "generation_to_i64 g =
     ok_or (InvalidArgument (Text ''generation does not fit in Postgres bigint'')) (i64_of_u64 g)"

definition backend_generation_to_i64 :: "backend_generation \<Rightarrow> store_error + int" where
  "backend_generation_to_i64 g =
     ok_or (InvalidArgument (Text ''backend generation does not fit in Postgres bigint'')) (i64_of_u64 g)"

definition generation_from_i64 :: "int \<Rightarrow> store_error + generation" where
  "generation_from_i64 v = ok_or (Internal (StoredNumber ''stored generation'' v)) (u64_of_i64 v)"

definition backend_generation_from_i64 :: "int \<Rightarrow> store_error + backend_generation" where
  "backend_generation_from_i64 v =
     ok_or (Internal (StoredNumber ''stored backend generation'' v)) (u64_of_i64 v)"

definition invalid_stored_data :: "string \<Rightarrow> store_error" where
  "invalid_stored_data message = Internal (StoredData message)"

definition empty_string_text :: "empty_string_error \<Rightarrow> string" where
  "empty_string_text e = es_field e @ '' must not be empty''"

definition invalid_instance_id_text :: "invalid_instance_id \<Rightarrow> string" where
  "invalid_instance_id_text e = ''InstanceId '' @ ii_message e"

definition invalid_target_text :: "string \<Rightarrow> string" where
  "invalid_target_text field = ''materialization target '' @ field @ '' must not be empty''"

definition materialization_id :: "string \<Rightarrow> materialization_target \<Rightarrow> store_error + string" where
  "materialization_id iid t =
     map_err (\<lambda>e. invalid_stored_data (empty_string_text e))
       (MaterializationId_new (iid @ '':'' @ mt_cluster_id t @ '':'' @ mt_namespace t))"

definition instance_state_to_db :: "instance_state \<Rightarrow> string" where
  "instance_state_to_db s =
     (case s of Cold \<Rightarrow> ''cold'' | Waking \<Rightarrow> ''waking'' | Running \<Rightarrow> ''running'' | Draining \<Rightarrow> ''draining''
      | Failed \<Rightarrow> ''failed'' | Deleting \<Rightarrow> ''deleting'' | Deleted \<Rightarrow> ''deleted'')"

definition instance_state_from_db :: "string \<Rightarrow> store_error + instance_state" where
  "instance_state_from_db v =
     (if v = ''cold'' then Inr Cold else if v = ''waking'' then Inr Waking
      else if v = ''running'' then Inr Running else if v = ''draining'' then Inr Draining
      else if v = ''failed'' then Inr Failed else if v = ''deleting'' then Inr Deleting
      else if v = ''deleted'' then Inr Deleted
      else Inl (Internal (StoredData ''stored instance state is invalid'')))"

definition materialization_state_to_db :: "materialization_state \<Rightarrow> string" where
  "materialization_state_to_db s =
     (case s of Pending \<Rightarrow> ''pending'' | Ready \<Rightarrow> ''ready'' | MFailed \<Rightarrow> ''failed''
      | MDeleting \<Rightarrow> ''deleting'' | MDeleted \<Rightarrow> ''deleted'')"

definition materialization_state_from_db :: "string \<Rightarrow> store_error + materialization_state" where
  "materialization_state_from_db v =
     (if v = ''pending'' then Inr Pending else if v = ''ready'' then Inr Ready
      else if v = ''failed'' then Inr MFailed else if v = ''deleting'' then Inr MDeleting
      else if v = ''deleted'' then Inr MDeleted
      else Inl (Internal (StoredData ''stored materialization state is invalid'')))"

section \<open>Rows\<close>

definition instance_from_row :: "instance_row \<Rightarrow> store_error + instance_record" where
  "instance_from_row row =
     tryE (map_err (\<lambda>e. invalid_stored_data (invalid_instance_id_text e)) (InstanceId_new (ir_id row))) (\<lambda>iid.
     tryE (map_err (\<lambda>e. invalid_stored_data (empty_string_text e)) (WorkloadClassId_new (ir_class_id row))) (\<lambda>cid.
     tryE (generation_from_i64 (ir_class_version row)) (\<lambda>version.
     tryE (generation_from_i64 (ir_generation row)) (\<lambda>g.
     Inr \<lparr>in_id = iid, in_workload_class = \<lparr>wr_class_id = cid, wr_version = version\<rparr>,
          in_values = ir_values row, in_state = ir_state row, in_generation = g\<rparr>))))"

definition backend_endpoint_from_row ::
    "string option \<Rightarrow> socket_addr option \<Rightarrow> store_error + backend_endpoint option" where
  "backend_endpoint_from_row uri address =
     (case uri of
        None \<Rightarrow> Inr None
      | Some u \<Rightarrow>
          tryE (case address of
                  Some a \<Rightarrow>
                    tryE (map_err (\<lambda>e. invalid_stored_data (''backend.address '' @ e)) (BackendAddress_new a)) (\<lambda>a.
                    map_err (\<lambda>e. invalid_stored_data (empty_string_text e)) (BackendEndpoint_with_address u a))
                | None \<Rightarrow> map_err (\<lambda>e. invalid_stored_data (empty_string_text e)) (BackendEndpoint_new u)) (\<lambda>b.
          Inr (Some b)))"

definition materialization_from_row :: "materialization_row \<Rightarrow> store_error + materialization_record" where
  "materialization_from_row row =
     tryE (map_err (\<lambda>e. invalid_stored_data (empty_string_text e)) (MaterializationId_new (mr_id row))) (\<lambda>mid.
     tryE (map_err (\<lambda>e. invalid_stored_data (invalid_instance_id_text e)) (InstanceId_new (mr_instance_id row))) (\<lambda>iid.
     tryE (generation_from_i64 (mr_instance_generation row)) (\<lambda>ig.
     tryE (generation_from_i64 (mr_projection_generation row)) (\<lambda>pg.
     tryE (map_err (\<lambda>e. invalid_stored_data (invalid_target_text e)) (MaterializationTarget_new (mr_cluster_id row) (mr_namespace row))) (\<lambda>t.
     tryE (backend_endpoint_from_row (mr_backend_uri row) (mr_backend_address row)) (\<lambda>b.
     tryE (backend_generation_from_i64 (mr_backend_generation row)) (\<lambda>bg.
     tryE (case mr_reconcile_owner row of
             None \<Rightarrow> Inr None
           | Some owner \<Rightarrow>
               tryE (ok_or (Internal (Text ''stored materialization lease owner had no expiry''))
                       (mr_lease_expires_at row)) (\<lambda>expires.
               tryE (ok_or (Internal (Text ''stored materialization reconcile attempt was negative''))
                       (u64_of_i64 (mr_reconcile_attempt row))) (\<lambda>attempt.
               Inr (Some \<lparr>rl_owner = owner, rl_expires_at = expires, rl_attempt = attempt\<rparr>)))) (\<lambda>lease.
     Inr \<lparr>mz_id = mid, mz_instance_id = iid, mz_instance_generation = ig,
          mz_projection_generation = pg, mz_target = t, mz_state = mr_state row, mz_backend = b,
          mz_backend_generation = bg, mz_rendered_objects = mr_rendered_objects row,
          mz_exclusivity_keys = mr_exclusivity_keys row, mz_reconciliation_lease = lease\<rparr>))))))))"

text \<open>\<^verbatim>\<open>row.as_ref().map(f).transpose()\<close>\<close>

definition transposeE :: "('a \<Rightarrow> 'e + 'b) \<Rightarrow> 'a option \<Rightarrow> 'e + 'b option" where
  "transposeE f r = (case r of None \<Rightarrow> Inr None | Some x \<Rightarrow> tryE (f x) (\<lambda>y. Inr (Some y)))"

section \<open>Facts\<close>

lemma generation_to_i64_Inr [result_simps]:
  "generation_to_i64 g = Inr v \<longleftrightarrow> v = uint g \<and> uint g \<le> i64_max"
  by (simp add: generation_to_i64_def ok_or_Inr i64_of_u64_Some)

lemma backend_generation_to_i64_Inr [result_simps]:
  "backend_generation_to_i64 g = Inr v \<longleftrightarrow> v = uint g \<and> uint g \<le> i64_max"
  by (simp add: backend_generation_to_i64_def ok_or_Inr i64_of_u64_Some)

lemma generation_from_i64_Inr [result_simps]:
  "generation_from_i64 v = Inr g \<longleftrightarrow> 0 \<le> v \<and> g = word_of_int v"
  by (simp add: generation_from_i64_def ok_or_Inr u64_of_i64_Some)

lemma backend_generation_from_i64_Inr [result_simps]:
  "backend_generation_from_i64 v = Inr g \<longleftrightarrow> 0 \<le> v \<and> g = word_of_int v"
  by (simp add: backend_generation_from_i64_def ok_or_Inr u64_of_i64_Some)

lemma instance_from_row_Inr:
  "instance_from_row row = Inr r \<Longrightarrow>
     in_id r = ir_id row \<and> in_state r = ir_state row \<and> 0 \<le> ir_generation row
     \<and> in_generation r = word_of_int (ir_generation row) \<and> in_values r = ir_values row
     \<and> is_dns_label (ir_id row)"
  by (auto simp: instance_from_row_def result_simps)

lemma materialization_from_row_Inr:
  "materialization_from_row row = Inr r \<Longrightarrow>
     mz_id r = mr_id row \<and> mz_instance_id r = mr_instance_id row \<and> mz_state r = mr_state row
     \<and> 0 \<le> mr_instance_generation row \<and> mz_instance_generation r = word_of_int (mr_instance_generation row)
     \<and> 0 \<le> mr_projection_generation row \<and> mz_projection_generation r = word_of_int (mr_projection_generation row)"
  by (auto simp: materialization_from_row_def result_simps)

definition materialization_key :: "string \<Rightarrow> string \<Rightarrow> string \<Rightarrow> string" where
  "materialization_key iid c n = iid @ '':'' @ c @ '':'' @ n"

lemma not_blank_colon: "\<not> is_blank (s @ CHR '':'' # t)" if "\<forall>c \<in> set s. byte c < 128"
  using that
proof (induction s)
  case Nil
  have "\<not> is_whitespace [CHR '':'']" by code_simp
  moreover have "utf8_len (CHR '':'') = 1" by code_simp
  ultimately show ?case by (simp add: trim_Nil_iff)
next
  case (Cons c s)
  have "utf8_len c = 1"
    using Cons.prems by (simp add: utf8_len_def)
  with Cons show ?case by (simp add: trim_Nil_iff)
qed

lemma dns_label_ascii: "is_dns_label s \<Longrightarrow> c \<in> set s \<Longrightarrow> byte c < 128"
proof -
  assume "is_dns_label s" "c \<in> set s"
  then have "is_dns_label_byte c" by (auto simp: is_dns_label_def list_all_iff)
  moreover have "byte (CHR ''-'') = 45" by (simp add: byte_def)
  ultimately show "byte c < 128"
    by (auto simp: is_dns_label_byte_def is_ascii_lowercase_def is_ascii_digit_def)
qed

text \<open>
  Materialization ids are never blank for a valid instance id.
\<close>

lemma materialization_id_Inr [result_simps]:
  "materialization_id iid t = Inr mid \<Longrightarrow> mid = materialization_key iid (mt_cluster_id t) (mt_namespace t)"
  by (auto simp: materialization_id_def materialization_key_def map_err_Inr string_newtype_new_Inr)

lemma materialization_id_ok:
  "is_dns_label iid \<Longrightarrow> materialization_id iid t = Inr (materialization_key iid (mt_cluster_id t) (mt_namespace t))"
  using not_blank_colon [of iid "mt_cluster_id t @ CHR '':'' # mt_namespace t"]
  by (auto simp: materialization_id_def materialization_key_def map_err_Inr string_newtype_new_Inr
      dest: dns_label_ascii)

lemma materialization_id_eqD:
  assumes "is_dns_label iid" "is_dns_label iid'"
    and "CHR '':'' \<notin> set (mt_cluster_id t)" "CHR '':'' \<notin> set (mt_cluster_id t')"
    and "materialization_id iid t = materialization_id iid' t'"
  shows "iid = iid' \<and> mt_cluster_id t = mt_cluster_id t' \<and> mt_namespace t = mt_namespace t'"
proof -
  have "iid @ CHR '':'' # (mt_cluster_id t @ CHR '':'' # mt_namespace t)
      = iid' @ CHR '':'' # (mt_cluster_id t' @ CHR '':'' # mt_namespace t')"
    using assms(5) by (simp add: materialization_id_ok [OF assms(1)] materialization_id_ok [OF assms(2)]
        materialization_key_def)
  then have "iid = iid' \<and> mt_cluster_id t @ CHR '':'' # mt_namespace t
      = mt_cluster_id t' @ CHR '':'' # mt_namespace t'"
    by (rule colon_separates) (use assms is_dns_label_no_colon in auto)
  then show ?thesis
    using colon_separates [OF _ assms(3,4)] by blast
qed

text \<open>
  C32. A materialization id names one instance and one target: for valid instance ids and clusters
  without a colon, equal ids come from the same instance, cluster and namespace.
\<close>

theorem materialization_id_injective:
  assumes "is_dns_label iid" "is_dns_label iid'"
    and "CHR '':'' \<notin> set (mt_cluster_id t)" "CHR '':'' \<notin> set (mt_cluster_id t')"
  shows "materialization_id iid t = materialization_id iid' t'
    \<longleftrightarrow> iid = iid' \<and> mt_cluster_id t = mt_cluster_id t' \<and> mt_namespace t = mt_namespace t'"
  using materialization_id_eqD [OF assms] by (auto simp: materialization_id_ok assms(1,2))

lemma materialization_id_injective_witness:
  "materialization_id ''a'' \<lparr>mt_cluster_id = ''c'', mt_namespace = ''n:x''\<rparr>
     \<noteq> materialization_id ''a'' \<lparr>mt_cluster_id = ''c'', mt_namespace = ''n''\<rparr>"
proof -
  have "is_dns_label ''a''" by code_simp
  then show ?thesis
    using materialization_id_injective [of "''a''" "''a''" "\<lparr>mt_cluster_id = ''c'', mt_namespace = ''n:x''\<rparr>"
        "\<lparr>mt_cluster_id = ''c'', mt_namespace = ''n''\<rparr>"] by simp
qed

text \<open>
  A colon in the cluster id makes two targets share one materialization id.
\<close>

theorem materialization_id_collision:
  "materialization_id ''a'' \<lparr>mt_cluster_id = ''x:y'', mt_namespace = ''z''\<rparr>
   = materialization_id ''a'' \<lparr>mt_cluster_id = ''x'', mt_namespace = ''y:z''\<rparr>
   \<and> is_ok (MaterializationTarget_new ''x:y'' ''z'') \<and> is_ok (MaterializationTarget_new ''x'' ''y:z'')"
  by code_simp

text \<open>
  C33. The state columns round-trip: a written state is read back unchanged, for instances and
  for materializations, and a text that no state writes is refused.
\<close>

theorem state_columns_round_trip:
  "instance_state_from_db (instance_state_to_db s) = Inr s
   \<and> materialization_state_from_db (materialization_state_to_db m) = Inr m
   \<and> (instance_state_from_db v = Inr s \<longleftrightarrow> v = instance_state_to_db s)
   \<and> (materialization_state_from_db v = Inr m \<longleftrightarrow> v = materialization_state_to_db m)"
  by (cases s; cases m)
    (auto simp: instance_state_from_db_def instance_state_to_db_def
      materialization_state_from_db_def materialization_state_to_db_def)

end
