(* ===== verification/Materialization_Ops.thy ===== *)
theory Materialization_Ops
  imports Row_Mapping
begin

text \<open>
  \<^verbatim>\<open>crates/control-plane/src/postgres/materialization_ops.rs\<close>: the transactions on
  materializations. Each SQL statement that writes is a definition over the primitives of
  \<^theory_text>\<open>Tables\<close>; each store operation is the transaction that runs its statements in
  order. \<^verbatim>\<open>now\<close> is the database clock at the one statement that reads it; where several
  statements do, \<^verbatim>\<open>clk n\<close> is the clock at the \<^verbatim>\<open>n\<close>-th.
\<close>

section \<open>Shared conditions\<close>

definition on_target :: "string \<Rightarrow> materialization_target \<Rightarrow> materialization_row \<Rightarrow> bool" where
  "on_target iid t m \<longleftrightarrow> mr_instance_id m = iid \<and> mr_cluster_id m = mt_cluster_id t
     \<and> mr_namespace m = mt_namespace t"

definition has_effect :: "store_db \<Rightarrow> string \<Rightarrow> bool" where
  "has_effect db mid \<longleftrightarrow> list_ex (\<lambda>e. ef_materialization_id e = mid) (db_effects db)"

definition in_backlog :: "materialization_row \<Rightarrow> bool" where
  "in_backlog m \<longleftrightarrow> mr_state m = Pending \<or> mr_state m = MDeleting"

definition lease_expired :: "int \<Rightarrow> materialization_row \<Rightarrow> bool" where
  "lease_expired now m = (case mr_lease_expires_at m of None \<Rightarrow> False | Some e \<Rightarrow> e \<le> now)"

definition lease_live :: "int \<Rightarrow> materialization_row \<Rightarrow> bool" where
  "lease_live now m = (case mr_lease_expires_at m of None \<Rightarrow> False | Some e \<Rightarrow> e > now)"

definition retry_allowed :: "materialization_row \<Rightarrow> bool" where
  "retry_allowed m \<longleftrightarrow> mr_failure_kind m = None \<or> mr_failure_kind m = Some Transient
     \<or> mr_failure_requires_cleanup m"

definition claimable :: "int \<Rightarrow> store_db \<Rightarrow> materialization_row \<Rightarrow> bool" where
  "claimable now db m \<longleftrightarrow> in_backlog m \<and> retry_allowed m \<and> \<not> has_effect db (mr_id m)
     \<and> mr_next_attempt_at m \<le> now \<and> mr_drain_not_before m \<le> now
     \<and> (mr_reconcile_owner m = None \<or> lease_expired now m)"

definition find_instance :: "string \<Rightarrow> store_db \<Rightarrow> instance_row option" where
  "find_instance iid db = find (\<lambda>i. ir_id i = iid) (db_instances db)"

text \<open>\<^verbatim>\<open>query_opt\<close> and \<^verbatim>\<open>query_one\<close> on the rows of a statement keyed by a unique column.\<close>

definition first_row :: "'r list \<Rightarrow> 'r option" where
  "first_row rows = (case rows of [] \<Rightarrow> None | r # _ \<Rightarrow> Some r)"

definition one_row :: "'r list \<Rightarrow> store_error + 'r" where
  "one_row rows = ok_or (Internal (PostgresText ''query returned an unexpected number of rows'')) (first_row rows)"

section \<open>Arguments\<close>

definition MAX_RECONCILIATION_LEASE_TTL :: duration where
  "MAX_RECONCILIATION_LEASE_TTL = 24 * 60 * 60 * 1000000000"

definition lease_ttl_millis :: "duration \<Rightarrow> store_error + int" where
  "lease_ttl_millis ttl =
     (if ttl > MAX_RECONCILIATION_LEASE_TTL
      then Inl (InvalidArgument (Text ''materialization reconciliation lease TTL exceeds 24 hours''))
      else let millis = int (as_millis ttl) in
        if millis = 0
        then Inl (InvalidArgument (Text ''materialization reconciliation lease TTL must be at least one millisecond''))
        else Inr millis)"

definition validate_lease_owner :: "string \<Rightarrow> store_error + unit" where
  "validate_lease_owner owner =
     ensure (InvalidArgument (Text ''materialization reconciliation owner is required'')) (\<not> is_blank owner)"

definition previous_generation :: "generation \<Rightarrow> store_error + generation" where
  "previous_generation g =
     (if g = 0 then Inl (InvalidArgument (Text ''generation has no predecessor'')) else Inr (g - 1))"

definition validate_operator_audit :: "string \<Rightarrow> string \<Rightarrow> store_error + unit" where
  "validate_operator_audit operator reason =
     ensure (InvalidArgument (Text ''operator and reason are required for force materialization operations''))
       (\<not> is_blank operator \<and> \<not> is_blank reason)"

definition lease_attempt :: "u64 \<Rightarrow> store_error + int" where
  "lease_attempt attempt =
     ok_or (InvalidArgument (Text ''lease attempt must be a positive signed 64-bit integer''))
       (case i64_of_u64 attempt of Some v \<Rightarrow> if v > 0 then Some v else None | None \<Rightarrow> None)"

section \<open>Recording\<close>

definition inserted_row ::
    "int \<Rightarrow> int \<Rightarrow> string \<Rightarrow> int \<Rightarrow> int \<Rightarrow> int \<Rightarrow> record_materialization_request \<Rightarrow> materialization_row" where
  "inserted_row now deadline mid ig pg bg r =
     \<lparr>mr_id = mid, mr_instance_id = rm_instance_id r, mr_instance_generation = ig,
      mr_projection_generation = pg, mr_cluster_id = mt_cluster_id (rm_target r),
      mr_namespace = mt_namespace (rm_target r), mr_state = rm_state r,
      mr_backend_uri = map_option be_uri (rm_backend r),
      mr_backend_address = Option.bind (rm_backend r) be_address, mr_backend_generation = bg,
      mr_rendered_objects = rm_rendered_objects r, mr_exclusivity_keys = rm_exclusivity_keys r,
      mr_reconcile_owner = None, mr_lease_expires_at = None, mr_reconcile_attempt = 0,
      mr_state_entered_at = now, mr_next_attempt_at = now, mr_drain_not_before = 0,
      mr_wake_failure_message = [], mr_failure_requires_cleanup = False, mr_failure_count = 0,
      mr_failure_kind = None, mr_failure_message = [], mr_operation_deadline = deadline\<rparr>"

definition overwritten_row ::
    "string \<Rightarrow> int \<Rightarrow> int \<Rightarrow> int \<Rightarrow> record_materialization_request \<Rightarrow> materialization_row \<Rightarrow> materialization_row" where
  "overwritten_row mid ig pg bg r m =
     m\<lparr>mr_id := mid, mr_instance_generation := ig, mr_projection_generation := pg,
       mr_state := rm_state r, mr_backend_uri := map_option be_uri (rm_backend r),
       mr_backend_address := Option.bind (rm_backend r) be_address, mr_backend_generation := bg,
       mr_rendered_objects := rm_rendered_objects r, mr_exclusivity_keys := rm_exclusivity_keys r,
       mr_reconcile_owner := None, mr_lease_expires_at := None\<rparr>"

text \<open>
  \<^verbatim>\<open>INSERT ... ON CONFLICT (instance_id, cluster_id, namespace) DO UPDATE ... WHERE
  materializations.backend_generation <= EXCLUDED.backend_generation RETURNING ...\<close>. The id it
  writes is the one the conflicting row has, because the id is computed from the three columns.
\<close>

definition upsert_statement ::
    "int \<Rightarrow> string \<Rightarrow> int \<Rightarrow> int \<Rightarrow> int \<Rightarrow> record_materialization_request \<Rightarrow> store_db
     \<Rightarrow> store_error + (materialization_row option \<times> store_db)" where
  "upsert_statement now mid ig pg bg r db =
     (if list_ex (on_target (rm_instance_id r) (rm_target r)) (db_materializations db) then
        tryE (update_materializations now
                (\<lambda>m. on_target (rm_instance_id r) (rm_target r) m \<and> mr_backend_generation m \<le> bg)
                (\<lambda>m. Inr (overwritten_row mid ig pg bg r m)) db) (\<lambda>(rows, db).
        Inr (first_row rows, db))
      else
        tryE (pg_add now (db_operation_timeout db)) (\<lambda>deadline.
        let new = inserted_row now deadline mid ig pg bg r in
        tryE (insert_materialization now new db) (\<lambda>db.
        Inr (Some new, db))))"

definition backend_generation_rewind_error ::
    "store_db \<Rightarrow> string \<Rightarrow> materialization_target \<Rightarrow> backend_generation \<Rightarrow> store_error" where
  "backend_generation_rewind_error db iid t reported =
     (case find (on_target iid t) (db_materializations db) of
        Some m \<Rightarrow> InvalidArgument (RewindText (mr_backend_generation m) reported)
      | None \<Rightarrow> Internal (Text ''materialization backend generation rewind rejected but existing projection was not found''))"

definition upsert_materialization ::
    "int \<Rightarrow> record_materialization_request \<Rightarrow> store_db \<Rightarrow> store_error + (materialization_record \<times> store_db)" where
  "upsert_materialization now r db =
     tryE (materialization_id (rm_instance_id r) (rm_target r)) (\<lambda>mid.
     tryE (generation_to_i64 (rm_instance_generation r)) (\<lambda>ig.
     tryE (generation_to_i64 (rm_projection_generation r)) (\<lambda>pg.
     tryE (backend_generation_to_i64 (rm_backend_generation r)) (\<lambda>bg.
     tryE (upsert_statement now mid ig pg bg r db) (\<lambda>(row, db).
     case row of
       None \<Rightarrow> Inl (backend_generation_rewind_error db (rm_instance_id r) (rm_target r) (rm_backend_generation r))
     | Some m \<Rightarrow> tryE (materialization_from_row m) (\<lambda>record. Inr (record, db)))))))"

definition ensure_instance_generation ::
    "record_materialization_request \<Rightarrow> store_db \<Rightarrow> store_error + unit" where
  "ensure_instance_generation r db =
     tryE (ok_or (NotFound ''instance'') (find_instance (rm_instance_id r) db)) (\<lambda>row.
     tryE (generation_to_i64 (rm_instance_generation r)) (\<lambda>expected.
     if ir_generation row = expected then Inr ()
     else tryE (ok_or (Internal (Text ''stored instance generation was negative'')) (u64_of_i64 (ir_generation row))) (\<lambda>actual.
       Inl (GenerationConflict (rm_instance_generation r) actual))))"

definition record_materialization ::
    "int \<Rightarrow> record_materialization_request \<Rightarrow> store_db \<Rightarrow> store_error + (materialization_record \<times> store_db)" where
  "record_materialization now r db =
     (let r = r\<lparr>rm_exclusivity_keys := normalize_exclusivity_keys (rm_exclusivity_keys r)\<rparr> in
      tryE (ensure_instance_generation r db) (\<lambda>_. upsert_materialization now r db))"

section \<open>Loading\<close>

definition load_active_materialization ::
    "string \<Rightarrow> materialization_target \<Rightarrow> store_db \<Rightarrow> store_error + materialization_record option" where
  "load_active_materialization iid t db =
     transposeE materialization_from_row
       (find (\<lambda>m. on_target iid t m \<and> mr_state m \<noteq> MDeleted) (db_materializations db))"

definition load_ready_materialization ::
    "string \<Rightarrow> generation \<Rightarrow> materialization_target \<Rightarrow> store_db \<Rightarrow> store_error + materialization_record option" where
  "load_ready_materialization iid g t db =
     tryE (generation_to_i64 g) (\<lambda>ig.
     transposeE materialization_from_row
       (find (\<lambda>m. on_target iid t m \<and> mr_instance_generation m = ig \<and> mr_state m = Ready)
         (db_materializations db)))"

definition load_materialization :: "string \<Rightarrow> store_db \<Rightarrow> store_error + materialization_record option" where
  "load_materialization mid db =
     transposeE materialization_from_row (find (\<lambda>m. mr_id m = mid) (db_materializations db))"

text \<open>\<^verbatim>\<open>ORDER BY (state = 'deleting') DESC, next_attempt_at_unix_millis, materialization_id LIMIT $1\<close>\<close>

definition list_materialization_reconciliation_candidates ::
    "int \<Rightarrow> materialization_target option \<Rightarrow> nat \<Rightarrow> store_db \<Rightarrow> store_error + materialization_record list" where
  "list_materialization_reconciliation_candidates now target limit db =
     (if int limit > i64_max
      then Inl (InvalidArgument (Text ''reconciliation candidate limit is too large''))
      else collectE materialization_from_row
        (take limit
          (sort_key (\<lambda>m. ((if mr_state m = MDeleting then 0 else 1 :: nat), mr_next_attempt_at m, mr_id m))
            (filter (\<lambda>m. claimable now db m
                \<and> (case target of None \<Rightarrow> True
                   | Some t \<Rightarrow> mr_cluster_id m = mt_cluster_id t \<and> mr_namespace m = mt_namespace t))
              (db_materializations db)))))"

end
