(* ===== verification/Lease_Ops.thy ===== *)
theory Lease_Ops
  imports Materialization_Ops
begin

text \<open>
  Reconciliation leases and effects of \<^verbatim>\<open>postgres/materialization_ops.rs\<close>: the claim of a
  materialization by one worker at a time, the renewal and release of the claim, and the durable
  record of a Kubernetes mutation that may have been dispatched.

  An operation that maps its row to a record after the commit returns that mapping as a result
  of its own beside the committed database: its failure does not roll the transaction back.
\<close>

section \<open>Leases\<close>

definition claim_statement ::
    "int \<Rightarrow> string \<Rightarrow> string \<Rightarrow> int \<Rightarrow> store_db \<Rightarrow> store_error + (materialization_row list \<times> store_db)" where
  "claim_statement now mid owner ttl db =
     update_materializations now (\<lambda>m. mr_id m = mid \<and> claimable now db m)
       (\<lambda>m. tryE (pg_add now ttl) (\<lambda>expires.
            tryE (pg_add (mr_reconcile_attempt m) 1) (\<lambda>attempt.
            Inr (m\<lparr>mr_reconcile_owner := Some owner, mr_lease_expires_at := Some expires,
                   mr_reconcile_attempt := attempt\<rparr>)))) db"

definition claim_materialization_reconciliation ::
    "int \<Rightarrow> string \<Rightarrow> string \<Rightarrow> duration \<Rightarrow> store_db
     \<Rightarrow> store_error + ((store_error + materialization_record option) \<times> store_db)" where
  "claim_materialization_reconciliation now mid owner ttl db =
     tryE (validate_lease_owner owner) (\<lambda>_.
     tryE (lease_ttl_millis ttl) (\<lambda>ttl.
     tryE (claim_statement now mid owner ttl db) (\<lambda>(rows, db).
     Inr (transposeE materialization_from_row (first_row rows), db))))"

definition renew_statement ::
    "int \<Rightarrow> string \<Rightarrow> string \<Rightarrow> int \<Rightarrow> int \<Rightarrow> materialization_state \<Rightarrow> int \<Rightarrow> store_db
     \<Rightarrow> store_error + (materialization_row list \<times> store_db)" where
  "renew_statement now mid owner attempt g st ttl db =
     update_materializations now
       (\<lambda>m. mr_id m = mid \<and> mr_reconcile_owner m = Some owner \<and> mr_reconcile_attempt m = attempt
          \<and> mr_instance_generation m = g \<and> lease_live now m \<and> in_backlog m \<and> mr_state m = st)
       (\<lambda>m. tryE (pg_add now ttl) (\<lambda>expires. Inr (m\<lparr>mr_lease_expires_at := Some expires\<rparr>))) db"

definition renew_materialization_reconciliation_lease ::
    "int \<Rightarrow> string \<Rightarrow> string \<Rightarrow> u64 \<Rightarrow> generation \<Rightarrow> duration \<Rightarrow> materialization_state \<Rightarrow> store_db
     \<Rightarrow> store_error + (bool \<times> store_db)" where
  "renew_materialization_reconciliation_lease now mid owner attempt g ttl st db =
     tryE (validate_lease_owner owner) (\<lambda>_.
     tryE (lease_ttl_millis ttl) (\<lambda>ttl.
     tryE (lease_attempt attempt) (\<lambda>attempt.
     tryE (generation_to_i64 g) (\<lambda>g.
     tryE (renew_statement now mid owner attempt g st ttl db) (\<lambda>(rows, db).
     Inr (length rows = 1, db))))))"

definition release_statement ::
    "int \<Rightarrow> string \<Rightarrow> string \<Rightarrow> int \<Rightarrow> int \<Rightarrow> store_db \<Rightarrow> store_error + (materialization_row list \<times> store_db)" where
  "release_statement now mid owner attempt g db =
     update_materializations now
       (\<lambda>m. mr_id m = mid \<and> \<not> has_effect db (mr_id m) \<and> mr_reconcile_owner m = Some owner
          \<and> mr_reconcile_attempt m = attempt \<and> mr_instance_generation m = g
          \<and> lease_live now m \<and> in_backlog m)
       (\<lambda>m. Inr (m\<lparr>mr_reconcile_owner := None, mr_lease_expires_at := None,
                  mr_next_attempt_at := now\<rparr>)) db"

definition release_materialization_reconciliation_lease ::
    "int \<Rightarrow> string \<Rightarrow> string \<Rightarrow> u64 \<Rightarrow> generation \<Rightarrow> store_db \<Rightarrow> store_error + (bool \<times> store_db)" where
  "release_materialization_reconciliation_lease now mid owner attempt g db =
     tryE (validate_lease_owner owner) (\<lambda>_.
     tryE (lease_attempt attempt) (\<lambda>attempt.
     tryE (generation_to_i64 g) (\<lambda>g.
     tryE (release_statement now mid owner attempt g db) (\<lambda>(rows, db).
     Inr (length rows = 1, db)))))"

text \<open>
  The check under the row lock that opens every reconciliation commit. The row is selected by
  its generation, so the second comparison of the generation never fails.
\<close>

definition ensure_reconciliation_lease ::
    "int \<Rightarrow> string \<Rightarrow> string \<Rightarrow> u64 \<Rightarrow> materialization_state \<Rightarrow> string \<Rightarrow> generation
     \<Rightarrow> materialization_target \<Rightarrow> store_db \<Rightarrow> store_error + unit" where
  "ensure_reconciliation_lease now mid owner attempt st iid g t db =
     tryE (generation_to_i64 g) (\<lambda>ig.
     tryE (ok_or (NotFound ''materialization'')
             (find (\<lambda>m. mr_id m = mid \<and> mr_state m = st \<and> mr_instance_generation m = ig \<and> on_target iid t m)
               (db_materializations db))) (\<lambda>m.
     tryE (if mr_instance_generation m \<noteq> ig then
             tryE (ok_or (Internal (Text ''stored materialization generation was negative''))
                     (u64_of_i64 (mr_instance_generation m))) (\<lambda>actual.
             Inl (GenerationConflict g actual))
           else Inr ()) (\<lambda>_.
     tryE (if mr_reconcile_owner m \<noteq> Some owner
           then Inl (LeaseConflict ''materialization reconciliation lease is not currently owned'')
           else tryE (lease_attempt attempt) (\<lambda>a.
             ensure (LeaseConflict ''materialization reconciliation lease is not currently owned'')
               (mr_reconcile_attempt m = a))) (\<lambda>_.
     tryE (ensure (LeaseConflict ''materialization reconciliation lease is expired'') (lease_live now m)) (\<lambda>_.
     ensure (LeaseConflict ''Kubernetes effect outcome remains unacknowledged'') (\<not> has_effect db mid))))))"

section \<open>Effects\<close>

record live_object_identity =
  lo_uid :: string
  lo_resource_version :: string

record materialization_effect_request =
  me_effect_id :: u64
  me_materialization_id :: string
  me_owner :: string
  me_attempt :: u64
  me_instance_generation :: generation
  me_expected_state :: materialization_state
  me_operation :: string
  me_object :: rendered_object_ref
  me_precondition :: "live_object_identity option"

definition effect_of_request :: "int \<Rightarrow> int \<Rightarrow> int \<Rightarrow> materialization_effect_request \<Rightarrow> effect_row" where
  "effect_of_request effect_id attempt g r =
     \<lparr>ef_materialization_id = me_materialization_id r, ef_effect_id = effect_id,
      ef_lease_owner = me_owner r, ef_lease_attempt = attempt, ef_instance_generation = g,
      ef_operation = me_operation r, ef_object_ref = me_object r,
      ef_expected_uid = map_option lo_uid (me_precondition r),
      ef_expected_resource_version = map_option lo_resource_version (me_precondition r)\<rparr>"

text \<open>
  \<^verbatim>\<open>INSERT ... ON CONFLICT DO NOTHING\<close> after the lease check; a conflict is accepted when the
  stored effect is the requested one.
\<close>

definition begin_materialization_effect ::
    "int \<Rightarrow> materialization_effect_request \<Rightarrow> store_db \<Rightarrow> store_error + (bool \<times> store_db)" where
  "begin_materialization_effect now r db =
     tryE (validate_lease_owner (me_owner r)) (\<lambda>_.
     tryE (lease_attempt (me_attempt r)) (\<lambda>attempt.
     tryE (lease_attempt (me_effect_id r)) (\<lambda>effect_id.
     tryE (generation_to_i64 (me_instance_generation r)) (\<lambda>g.
     if \<not> list_ex (\<lambda>m. mr_id m = me_materialization_id r \<and> mr_reconcile_owner m = Some (me_owner r)
            \<and> mr_reconcile_attempt m = attempt \<and> mr_instance_generation m = g
            \<and> mr_state m = me_expected_state r \<and> lease_live now m) (db_materializations db)
     then Inr (False, db)
     else let e = effect_of_request effect_id attempt g r in
       if me_operation r \<noteq> ''apply'' \<and> me_operation r \<noteq> ''delete''
       then Inl (InvalidArgument (CheckText ''materialization_effects_operation_check''))
       else if has_effect db (me_materialization_id r)
       then Inr (list_ex (\<lambda>e'. e' = e) (db_effects db), db)
       else Inr (True, db\<lparr>db_effects := db_effects db @ [e]\<rparr>)))))"

definition acknowledge_materialization_effect ::
    "string \<Rightarrow> string \<Rightarrow> u64 \<Rightarrow> u64 \<Rightarrow> generation \<Rightarrow> store_db \<Rightarrow> store_error + (bool \<times> store_db)" where
  "acknowledge_materialization_effect mid owner attempt effect_id g db =
     tryE (lease_attempt attempt) (\<lambda>attempt.
     tryE (lease_attempt effect_id) (\<lambda>effect_id.
     tryE (generation_to_i64 g) (\<lambda>g.
     let acked = (\<lambda>e. ef_materialization_id e = mid \<and> ef_lease_owner e = owner
           \<and> ef_lease_attempt e = attempt \<and> ef_effect_id e = effect_id \<and> ef_instance_generation e = g)
     in Inr (length (filter acked (db_effects db)) = 1,
             db\<lparr>db_effects := filter (\<lambda>e. \<not> acked e) (db_effects db)\<rparr>))))"

end
