(* ===== verification/Lifecycle_Ops.thy ===== *)
theory Lifecycle_Ops
  imports Lease_Ops
begin

text \<open>
  \<^verbatim>\<open>crates/control-plane/src/postgres/lifecycle_ops.rs\<close>: the durable acceptance of a wake and of
  a deletion, and the wake deferred until a drain has finished.
\<close>

text \<open>\<^verbatim>\<open>UPDATE instances SET state, generation WHERE instance_id = $1 RETURNING ...\<close>\<close>

definition set_instance_state ::
    "int \<Rightarrow> string \<Rightarrow> instance_state \<Rightarrow> int \<Rightarrow> store_db \<Rightarrow> store_error + (instance_row \<times> store_db)" where
  "set_instance_state now iid st g db =
     tryE (update_instances now (\<lambda>i. ir_id i = iid)
             (\<lambda>i. Inr (i\<lparr>ir_state := st, ir_generation := g\<rparr>)) db) (\<lambda>(rows, db).
     tryE (one_row rows) (\<lambda>row. Inr (row, db)))"

section \<open>Accepting a wake\<close>

definition max_backend_generation :: "string \<Rightarrow> materialization_target \<Rightarrow> store_db \<Rightarrow> int option" where
  "max_backend_generation iid t db =
     (case map mr_backend_generation (filter (on_target iid t) (db_materializations db)) of
        [] \<Rightarrow> None | g # gs \<Rightarrow> Some (fold max gs g))"

text \<open>The backend generation is raised above every one the target has seen.\<close>

definition next_backend_generation ::
    "string \<Rightarrow> materialization_target \<Rightarrow> backend_generation \<Rightarrow> store_db \<Rightarrow> store_error + backend_generation" where
  "next_backend_generation iid t bg db =
     (case max_backend_generation iid t db of
        None \<Rightarrow> Inr bg
      | Some previous \<Rightarrow>
          if previous + 1 > i64_max then Inl (InvalidArgument (Text ''backend generation exhausted''))
          else tryE (backend_generation_from_i64 (previous + 1)) (\<lambda>next. Inr (max bg next)))"

definition find_deferred :: "string \<Rightarrow> store_db \<Rightarrow> deferred_wake_row option" where
  "find_deferred iid db = find (\<lambda>d. dw_instance_id d = iid) (db_deferred_wakes db)"

text \<open>The branch of a draining instance: the wake is stored and the instance left as it is.\<close>

definition defer_wake ::
    "record_materialization_request \<Rightarrow> store_db \<Rightarrow> store_error + store_db" where
  "defer_wake p db =
     tryE (generation_to_i64 (rm_instance_generation p)) (\<lambda>g.
     tryE (generation_to_i64 (rm_projection_generation p)) (\<lambda>pg.
     tryE (backend_generation_to_i64 (rm_backend_generation p)) (\<lambda>bg.
     case find_deferred (rm_instance_id p) db of
       None \<Rightarrow> Inr (db\<lparr>db_deferred_wakes := db_deferred_wakes db @
          [\<lparr>dw_instance_id = rm_instance_id p, dw_instance_generation = g,
            dw_projection_generation = pg, dw_cluster_id = mt_cluster_id (rm_target p),
            dw_namespace = mt_namespace (rm_target p), dw_backend_generation = bg,
            dw_rendered_objects = rm_rendered_objects p,
            dw_exclusivity_keys = rm_exclusivity_keys p\<rparr>]\<rparr>)
     | Some d \<Rightarrow>
         if dw_cluster_id d \<noteq> mt_cluster_id (rm_target p) \<or> dw_namespace d \<noteq> mt_namespace (rm_target p)
         then Inl (InvalidArgument (Text ''wake already accepted for another target''))
         else Inr db)))"

text \<open>
  The writes of an accepted wake (from \<^verbatim>\<open>if current.state == InstanceState::Draining\<close> on).
\<close>

definition commit_wake ::
    "(nat \<Rightarrow> int) \<Rightarrow> record_materialization_request \<Rightarrow> instance_record \<Rightarrow> generation \<Rightarrow> store_db
     \<Rightarrow> store_error + ((store_error + instance_record) \<times> store_db)" where
  "commit_wake clk p current expected_waking db =
     (if in_state current = Draining then
        tryE (defer_wake p db) (\<lambda>db. Inr (Inr current, db))
      else
        tryE (generation_to_i64 expected_waking) (\<lambda>g.
        tryE (set_instance_state (clk 0) (rm_instance_id p) Waking g db) (\<lambda>(row, db).
        tryE (upsert_materialization (clk 1) p db) (\<lambda>(_, db).
        Inr (instance_from_row row, db)))))"

definition accept_wake ::
    "(nat \<Rightarrow> int) \<Rightarrow> accept_wake_request \<Rightarrow> store_db
     \<Rightarrow> store_error + ((store_error + instance_record) \<times> store_db)" where
  "accept_wake clk r db =
     (let p = aw_pending r; iid = rm_instance_id p in
      tryE (ok_or (NotFound ''instance'') (find_instance iid db)) (\<lambda>row.
      tryE (instance_from_row row) (\<lambda>current.
      if in_state current = Waking \<and> in_generation current = rm_instance_generation p then
        if list_ex (\<lambda>m. on_target iid (rm_target p) m \<and> mr_state m = Pending) (db_materializations db)
        then Inr (Inr current, db)
        else Inl (InvalidArgument (Text ''wake already accepted for another target''))
      else if in_generation current \<noteq> aw_expected_generation r then
        Inl (GenerationConflict (aw_expected_generation r) (in_generation current))
      else if in_state current \<noteq> Cold \<and> in_state current \<noteq> Failed \<and> in_state current \<noteq> Draining then
        Inl (InvalidArgument (Text ''wake acceptance requires cold, failed, or draining instance''))
      else if in_state current \<noteq> Draining
          \<and> list_ex (\<lambda>m. mr_instance_id m = iid \<and> mr_state m \<noteq> MDeleted) (db_materializations db) then
        Inl (Unavailable (Text ''previous materialization cleanup is still pending''))
      else
        let expected_waking = (if in_state current = Draining
              then Generation_next (Generation_next (in_generation current))
              else Generation_next (in_generation current)) in
        if rm_state p \<noteq> Pending \<or> rm_instance_generation p \<noteq> expected_waking
           \<or> rm_projection_generation p \<noteq> Generation_next expected_waking \<or> rm_backend p \<noteq> None then
          Inl (InvalidArgument (Text ''accepted wake projection does not match its next incarnation''))
        else
          tryE (next_backend_generation iid (rm_target p) (rm_backend_generation p) db) (\<lambda>bg.
          commit_wake clk (p\<lparr>rm_backend_generation := bg\<rparr>) current expected_waking db))))"

section \<open>The deferred wake\<close>

definition activate_statement ::
    "int \<Rightarrow> string \<Rightarrow> int \<Rightarrow> store_db \<Rightarrow> store_error + (instance_row list \<times> store_db)" where
  "activate_statement now iid g db =
     update_instances now (\<lambda>i. ir_id i = iid \<and> ir_state i = Cold \<and> ir_generation i = g - 1)
       (\<lambda>i. Inr (i\<lparr>ir_state := Waking, ir_generation := g\<rparr>)) db"

definition activate_deferred_wake ::
    "(nat \<Rightarrow> int) \<Rightarrow> string \<Rightarrow> store_db \<Rightarrow> store_error + (instance_record option \<times> store_db)" where
  "activate_deferred_wake clk iid db =
     (case find_deferred iid db of
        None \<Rightarrow> Inr (None, db)
      | Some d \<Rightarrow>
          let db = db\<lparr>db_deferred_wakes := filter (\<lambda>d. dw_instance_id d \<noteq> iid) (db_deferred_wakes db)\<rparr> in
          tryE (activate_statement (clk 0) iid (dw_instance_generation d) db) (\<lambda>(rows, db).
          tryE (ok_or (InvalidArgument (Text ''deferred wake no longer matches drained incarnation''))
                  (first_row rows)) (\<lambda>row.
          tryE (map_err (\<lambda>e. Internal (Text (invalid_instance_id_text e))) (InstanceId_new iid)) (\<lambda>id.
          tryE (generation_from_i64 (dw_instance_generation d)) (\<lambda>g.
          tryE (map_err (\<lambda>e. Internal (Text (invalid_target_text e)))
                  (MaterializationTarget_new (dw_cluster_id d) (dw_namespace d))) (\<lambda>t.
          tryE (backend_generation_from_i64 (dw_backend_generation d)) (\<lambda>bg.
          tryE (generation_from_i64 (dw_projection_generation d)) (\<lambda>pg.
          let p = (RecordMaterializationRequest_new id g t Pending bg)
                \<lparr>rm_projection_generation := pg, rm_rendered_objects := dw_rendered_objects d,
                 rm_exclusivity_keys := dw_exclusivity_keys d\<rparr> in
          tryE (upsert_materialization (clk 1) p db) (\<lambda>(_, db).
          tryE (instance_from_row row) (\<lambda>i. Inr (Some i, db)))))))))))"

section \<open>Deletion\<close>

text \<open>\<^verbatim>\<open>UPDATE materializations SET state = 'deleting' WHERE instance_id = $1 AND state NOT IN (...)\<close>\<close>

definition mark_instance_deleting ::
    "int \<Rightarrow> string \<Rightarrow> store_db \<Rightarrow> store_error + (materialization_row list \<times> store_db)" where
  "mark_instance_deleting now iid db =
     update_materializations now
       (\<lambda>m. mr_instance_id m = iid \<and> mr_state m \<noteq> MDeleted \<and> mr_state m \<noteq> MDeleting)
       (\<lambda>m. Inr (m\<lparr>mr_state := MDeleting\<rparr>)) db"

definition request_instance_deletion ::
    "(nat \<Rightarrow> int) \<Rightarrow> string \<Rightarrow> generation \<Rightarrow> store_db \<Rightarrow> store_error + (bool \<times> store_db)" where
  "request_instance_deletion clk iid expected db =
     tryE (generation_to_i64 expected) (\<lambda>_.
     case find_instance iid db of
       None \<Rightarrow> Inr (False, db)
     | Some row \<Rightarrow>
         tryE (generation_from_i64 (ir_generation row)) (\<lambda>actual.
         let already_accepted = (ir_state row = Deleting \<and> actual = Generation_next expected) in
         if actual \<noteq> expected \<and> \<not> already_accepted then Inl (GenerationConflict expected actual)
         else
           tryE (if ir_state row \<noteq> Deleting then
                   tryE (generation_to_i64 (Generation_next actual)) (\<lambda>_.
                   tryE (update_instances (clk 0) (\<lambda>i. ir_id i = iid)
                           (\<lambda>i. tryE (pg_add (ir_generation i) 1) (\<lambda>g.
                                Inr (i\<lparr>ir_state := Deleting, ir_generation := g\<rparr>))) db) (\<lambda>(_, db).
                   Inr db))
                 else Inr db) (\<lambda>db.
           let db = db\<lparr>db_deferred_wakes := filter (\<lambda>d. dw_instance_id d \<noteq> iid) (db_deferred_wakes db)\<rparr> in
           tryE (mark_instance_deleting (clk 1) iid db) (\<lambda>(_, db).
           Inr (True, db)))))"

definition cleanup_complete :: "store_db \<Rightarrow> string \<Rightarrow> bool" where
  "cleanup_complete db iid \<longleftrightarrow>
     \<not> list_ex (\<lambda>m. mr_instance_id m = iid \<and> mr_state m \<noteq> MDeleted) (db_materializations db)"

definition finalize_instance_deletions ::
    "int \<Rightarrow> nat \<Rightarrow> store_db \<Rightarrow> store_error + (nat \<times> store_db)" where
  "finalize_instance_deletions now limit db =
     (if int limit > i64_max then Inl (InvalidArgument (Text ''deletion batch too large''))
      else let completed = take limit (sort (map ir_id
             (filter (\<lambda>i. ir_state i = Deleting \<and> cleanup_complete db (ir_id i)) (db_instances db))))
        in delete_instances now (\<lambda>i. ir_id i \<in> set completed) db)"

end
