(* ===== verification/Sleep_Wake_Ops.thy ===== *)
theory Sleep_Wake_Ops
  imports Lifecycle_Ops
begin

text \<open>
  The rest of \<^verbatim>\<open>postgres/materialization_ops.rs\<close>: the transactions that begin and finish a
  sleep, finish a wake, retire a materialization, and the audited operator overrides.
\<close>

section \<open>Sleeping\<close>

definition deleting_for_sleep_statement ::
    "int \<Rightarrow> string \<Rightarrow> materialization_target \<Rightarrow> int \<Rightarrow> int \<Rightarrow> store_db
     \<Rightarrow> store_error + (materialization_row list \<times> store_db)" where
  "deleting_for_sleep_statement now iid t g grace db =
     update_materializations now
       (\<lambda>m. on_target iid t m \<and> mr_instance_generation m = g \<and> mr_state m \<noteq> MDeleted)
       (\<lambda>m. tryE (pg_add now grace) (\<lambda>not_before.
            Inr (m\<lparr>mr_state := MDeleting, mr_backend_uri := None, mr_backend_address := None,
                   mr_reconcile_owner := None, mr_lease_expires_at := None,
                   mr_drain_not_before := not_before\<rparr>))) db"

definition reject_active_materialization_generation_mismatch ::
    "string \<Rightarrow> materialization_target \<Rightarrow> generation \<Rightarrow> store_db \<Rightarrow> store_error + unit" where
  "reject_active_materialization_generation_mismatch iid t expected db =
     tryE (load_active_materialization iid t db) (\<lambda>active.
     case active of
       None \<Rightarrow> Inr ()
     | Some a \<Rightarrow>
         if mz_instance_generation a = expected then Inr ()
         else Inl (GenerationConflict expected (mz_instance_generation a)))"

definition mark_active_materialization_deleting_for_sleep ::
    "int \<Rightarrow> string \<Rightarrow> materialization_target \<Rightarrow> generation \<Rightarrow> duration \<Rightarrow> store_db
     \<Rightarrow> store_error + (materialization_record option \<times> store_db)" where
  "mark_active_materialization_deleting_for_sleep now iid t expected grace db =
     tryE (generation_to_i64 expected) (\<lambda>g.
     tryE (if int (as_millis grace) \<le> i64_max then Inr (int (as_millis grace))
           else Inl (InvalidArgument (Text ''drain grace timeout is too large''))) (\<lambda>millis.
     tryE (deleting_for_sleep_statement now iid t g millis db) (\<lambda>(rows, db).
     case first_row rows of
       Some row \<Rightarrow> tryE (materialization_from_row row) (\<lambda>m. Inr (Some m, db))
     | None \<Rightarrow>
         tryE (reject_active_materialization_generation_mismatch iid t expected db) (\<lambda>_.
         Inr (None, db)))))"

text \<open>The activation fence: the backend has been Ready for the minimum age.\<close>

definition check_minimum_ready_age :: "int \<Rightarrow> begin_sleep_request \<Rightarrow> store_db \<Rightarrow> store_error + unit" where
  "check_minimum_ready_age now r db =
     (case bs_minimum_ready_age r of
        None \<Rightarrow> Inr ()
      | Some minimum \<Rightarrow>
          tryE (if int (as_millis minimum) \<le> i64_max then Inr (int (as_millis minimum))
                else Inl (InvalidArgument (Text ''minimum Ready age exceeds database range''))) (\<lambda>millis.
          tryE (generation_to_i64 (bs_expected_running_generation r)) (\<lambda>g.
          tryE (ok_or (InvalidArgument (Text ''automatic sleep requires this generation's Ready materialization''))
                  (find (\<lambda>m. on_target (bs_instance_id r) (bs_target r) m
                       \<and> mr_instance_generation m = g \<and> mr_state m = Ready) (db_materializations db))) (\<lambda>m.
          let not_before = mr_state_entered_at m + millis in
          if not_before > i64_max
          then Inl (InvalidArgument (Text ''activation deadline exceeds database range''))
          else if now < not_before then Inl (SleepDeferred (from_millis (nat (not_before - now))))
          else Inr ()))))"

definition begin_sleep ::
    "(nat \<Rightarrow> int) \<Rightarrow> begin_sleep_request \<Rightarrow> store_db
     \<Rightarrow> store_error + ((instance_record \<times> materialization_record option) \<times> store_db)" where
  "begin_sleep clk r db =
     (let iid = bs_instance_id r; expected = bs_expected_running_generation r in
      tryE (ok_or (NotFound ''instance'') (find_instance iid db)) (\<lambda>row.
      tryE (instance_from_row row) (\<lambda>current.
      if in_generation current \<noteq> expected then Inl (GenerationConflict expected (in_generation current))
      else
        tryE (map_err (\<lambda>e. InvalidArgument (TransitionText e))
                (validate_instance_state_transition (in_state current) Draining IdleReported)) (\<lambda>_.
        tryE (check_minimum_ready_age (clk 0) r db) (\<lambda>_.
        tryE (generation_to_i64 (Generation_next expected)) (\<lambda>g.
        tryE (set_instance_state (clk 1) iid Draining g db) (\<lambda>(row, db).
        tryE (instance_from_row row) (\<lambda>i.
        tryE (mark_active_materialization_deleting_for_sleep (clk 2) iid (bs_target r) expected
                (bs_drain_grace_timeout r) db) (\<lambda>(m, db).
        Inr ((i, m), db))))))))))"

definition mark_active_materialization_state ::
    "int \<Rightarrow> string \<Rightarrow> materialization_target \<Rightarrow> materialization_state \<Rightarrow> generation option
     \<Rightarrow> rendered_object_ref list option \<Rightarrow> rendered_exclusivity_key list option \<Rightarrow> store_db
     \<Rightarrow> store_error + (materialization_record option \<times> store_db)" where
  "mark_active_materialization_state now iid t st g objects ks db =
     tryE (case g of
             Some g \<Rightarrow>
               tryE (generation_to_i64 g) (\<lambda>g.
               update_materializations now (\<lambda>m. on_target iid t m \<and> mr_state m \<noteq> MDeleted)
                 (\<lambda>m. Inr (m\<lparr>mr_state := st, mr_instance_generation := g, mr_backend_uri := None,
                    mr_backend_address := None,
                    mr_rendered_objects := (case objects of Some x \<Rightarrow> x | None \<Rightarrow> mr_rendered_objects m),
                    mr_exclusivity_keys := (case ks of Some x \<Rightarrow> x | None \<Rightarrow> mr_exclusivity_keys m),
                    mr_reconcile_owner := None, mr_lease_expires_at := None\<rparr>)) db)
           | None \<Rightarrow>
               update_materializations now (\<lambda>m. on_target iid t m \<and> mr_state m \<noteq> MDeleted)
                 (\<lambda>m. Inr (m\<lparr>mr_state := st, mr_backend_uri := None, mr_backend_address := None,
                    mr_reconcile_owner := None, mr_lease_expires_at := None\<rparr>)) db) (\<lambda>(rows, db).
     tryE (transposeE materialization_from_row (first_row rows)) (\<lambda>m. Inr (m, db)))"

definition finalize_sleep_in_transaction ::
    "(nat \<Rightarrow> int) \<Rightarrow> finalize_sleep_request \<Rightarrow> store_db
     \<Rightarrow> store_error + ((instance_record \<times> materialization_record option) \<times> store_db)" where
  "finalize_sleep_in_transaction clk r db =
     (let iid = fs_instance_id r; expected = fs_expected_draining_generation r in
      tryE (ok_or (NotFound ''instance'') (find_instance iid db)) (\<lambda>row.
      tryE (instance_from_row row) (\<lambda>current.
      if in_generation current \<noteq> expected then Inl (GenerationConflict expected (in_generation current))
      else
        tryE (map_err (\<lambda>e. InvalidArgument (TransitionText e))
                (validate_instance_state_transition (in_state current) Cold DrainCompleted)) (\<lambda>_.
        tryE (generation_to_i64 (Generation_next expected)) (\<lambda>g.
        tryE (set_instance_state (clk 0) iid Cold g db) (\<lambda>(row, db).
        tryE (instance_from_row row) (\<lambda>i.
        tryE (mark_active_materialization_state (clk 1) iid (fs_target r) MDeleted
                (Some (Generation_next expected)) (Some []) (Some []) db) (\<lambda>(m, db).
        tryE (activate_deferred_wake (\<lambda>n. clk (n + 2)) iid db) (\<lambda>(woken, db).
        Inr ((case woken of Some i' \<Rightarrow> i' | None \<Rightarrow> i, m), db))))))))))"

definition finalize_sleep ::
    "(nat \<Rightarrow> int) \<Rightarrow> finalize_sleep_request \<Rightarrow> store_db
     \<Rightarrow> store_error + ((instance_record \<times> materialization_record option) \<times> store_db)" where
  "finalize_sleep clk r db = finalize_sleep_in_transaction clk r db"

definition finalize_sleep_reconciliation ::
    "(nat \<Rightarrow> int) \<Rightarrow> lease_ref \<Rightarrow> finalize_sleep_request \<Rightarrow> store_db
     \<Rightarrow> store_error + ((instance_record \<times> materialization_record option) \<times> store_db)" where
  "finalize_sleep_reconciliation clk lease r db =
     tryE (validate_lease_owner (lr_owner lease)) (\<lambda>_.
     tryE (previous_generation (fs_expected_draining_generation r)) (\<lambda>g.
     tryE (ensure_reconciliation_lease (clk 0) (lr_materialization_id lease) (lr_owner lease)
             (lr_attempt lease) MDeleting (fs_instance_id r) g (fs_target r) db) (\<lambda>_.
     finalize_sleep_in_transaction (\<lambda>n. clk (n + 1)) r db)))"

section \<open>Waking\<close>

definition complete_wake_in_transaction ::
    "(nat \<Rightarrow> int) \<Rightarrow> complete_wake_request \<Rightarrow> store_db
     \<Rightarrow> store_error + ((instance_record \<times> materialization_record) \<times> store_db)" where
  "complete_wake_in_transaction clk r db =
     (let iid = cw_instance_id r; expected = cw_expected_waking_generation r in
      tryE (ok_or (NotFound ''instance'') (find_instance iid db)) (\<lambda>row.
      tryE (instance_from_row row) (\<lambda>current.
      if in_generation current \<noteq> expected then Inl (GenerationConflict expected (in_generation current))
      else
        tryE (map_err (\<lambda>e. InvalidArgument (TransitionText e))
                (validate_instance_state_transition (in_state current) Running MaterializationReady)) (\<lambda>_.
        tryE (generation_to_i64 (Generation_next expected)) (\<lambda>g.
        tryE (set_instance_state (clk 0) iid Running g db) (\<lambda>(row, db).
        tryE (instance_from_row row) (\<lambda>i.
        tryE (load_active_materialization iid (cw_target r) db) (\<lambda>prior.
        let p = (RecordMaterializationRequest_new iid (Generation_next expected) (cw_target r) Ready
                   (cw_backend_generation r))
              \<lparr>rm_projection_generation :=
                 (case prior of Some m \<Rightarrow> mz_projection_generation m | None \<Rightarrow> Generation_next expected),
               rm_backend := Some (cw_backend r), rm_rendered_objects := cw_rendered_objects r,
               rm_exclusivity_keys := cw_exclusivity_keys r\<rparr> in
        tryE (upsert_materialization (clk 1) p db) (\<lambda>(m, db).
        Inr ((i, m), db))))))))))"

definition normalize_complete_wake :: "complete_wake_request \<Rightarrow> complete_wake_request" where
  "normalize_complete_wake r =
     r\<lparr>cw_exclusivity_keys := normalize_exclusivity_keys (cw_exclusivity_keys r)\<rparr>"

definition complete_wake ::
    "(nat \<Rightarrow> int) \<Rightarrow> complete_wake_request \<Rightarrow> store_db
     \<Rightarrow> store_error + ((instance_record \<times> materialization_record) \<times> store_db)" where
  "complete_wake clk r db = complete_wake_in_transaction clk (normalize_complete_wake r) db"

definition complete_wake_reconciliation ::
    "(nat \<Rightarrow> int) \<Rightarrow> lease_ref \<Rightarrow> complete_wake_request \<Rightarrow> store_db
     \<Rightarrow> store_error + ((instance_record \<times> materialization_record) \<times> store_db)" where
  "complete_wake_reconciliation clk lease r db =
     tryE (validate_lease_owner (lr_owner lease)) (\<lambda>_.
     tryE (ensure_reconciliation_lease (clk 0) (lr_materialization_id lease) (lr_owner lease)
             (lr_attempt lease) Pending (cw_instance_id r) (cw_expected_waking_generation r)
             (cw_target r) db) (\<lambda>_.
     complete_wake_in_transaction (\<lambda>n. clk (n + 1)) (normalize_complete_wake r) db))"

section \<open>Retiring a materialization\<close>

definition retired_row :: "materialization_row \<Rightarrow> materialization_row" where
  "retired_row m =
     m\<lparr>mr_state := MDeleted, mr_backend_uri := None, mr_backend_address := None,
       mr_rendered_objects := [], mr_exclusivity_keys := [],
       mr_reconcile_owner := None, mr_lease_expires_at := None\<rparr>"

record delete_materialization_request =
  dm_lease :: lease_ref
  dm_instance_id :: string
  dm_instance_generation :: generation
  dm_target :: materialization_target
  dm_expected_state :: materialization_state

definition delete_materialization_reconciliation ::
    "(nat \<Rightarrow> int) \<Rightarrow> delete_materialization_request \<Rightarrow> store_db
     \<Rightarrow> store_error + ((store_error + materialization_record option) \<times> store_db)" where
  "delete_materialization_reconciliation clk r db =
     (let mid = lr_materialization_id (dm_lease r); owner = lr_owner (dm_lease r) in
      tryE (validate_lease_owner owner) (\<lambda>_.
      tryE (ensure_reconciliation_lease (clk 0) mid owner (lr_attempt (dm_lease r))
              (dm_expected_state r) (dm_instance_id r) (dm_instance_generation r) (dm_target r) db) (\<lambda>_.
      tryE (generation_to_i64 (dm_instance_generation r)) (\<lambda>g.
      tryE (update_materializations (clk 1)
              (\<lambda>m. mr_id m = mid \<and> mr_state m = dm_expected_state r
                 \<and> on_target (dm_instance_id r) (dm_target r) m \<and> mr_instance_generation m = g
                 \<and> mr_reconcile_owner m = Some owner \<and> lease_live (clk 1) m)
              (\<lambda>m. Inr (retired_row m)) db) (\<lambda>(rows, db).
      Inr (transposeE materialization_from_row (first_row rows), db))))))"

section \<open>Operator overrides\<close>

record operator_audit =
  oa_operator :: string
  oa_reason :: string

definition insert_operator_audit_event :: "operator_audit_row \<Rightarrow> store_db \<Rightarrow> store_db" where
  "insert_operator_audit_event e db = db\<lparr>db_audit := db_audit db @ [e]\<rparr>"

definition force_delete_materialization ::
    "int \<Rightarrow> string \<Rightarrow> operator_audit \<Rightarrow> store_db
     \<Rightarrow> store_error + ((store_error + materialization_record option) \<times> store_db)" where
  "force_delete_materialization now mid a db =
     tryE (validate_operator_audit (oa_operator a) (oa_reason a)) (\<lambda>_.
     let db = insert_operator_audit_event
           \<lparr>au_operation = ''force_delete_materialization'', au_materialization_id = Some mid,
            au_cluster_id = None, au_namespace = None, au_key_name = None,
            au_operator = oa_operator a, au_reason = oa_reason a\<rparr> db;
         existing = find (\<lambda>m. mr_id m = mid) (db_materializations db)
     in tryE (if existing \<noteq> None then
                let db = db\<lparr>db_effects := filter (\<lambda>e. ef_materialization_id e \<noteq> mid) (db_effects db)\<rparr>
                in tryE (update_materializations now (\<lambda>m. mr_id m = mid) (\<lambda>m. Inr (retired_row m)) db) (\<lambda>(_, db).
                   Inr db)
              else Inr db) (\<lambda>db.
        Inr (transposeE materialization_from_row existing, db)))"

text \<open>The rows that hold the key according to the reservation table.\<close>

definition holds_reserved_key ::
    "store_db \<Rightarrow> materialization_target \<Rightarrow> string \<Rightarrow> string \<Rightarrow> materialization_row \<Rightarrow> bool" where
  "holds_reserved_key db t name v m \<longleftrightarrow>
     mr_cluster_id m = mt_cluster_id t \<and> mr_namespace m = mt_namespace t \<and> mr_state m \<noteq> MDeleted
     \<and> list_ex (\<lambda>(k, owner). owner = mr_id m \<and> k = (mt_cluster_id t, mt_namespace t, name, v))
         (db_key_reservations db)"

definition force_release_exclusivity_key ::
    "int \<Rightarrow> materialization_target \<Rightarrow> string \<Rightarrow> string \<Rightarrow> operator_audit \<Rightarrow> store_db
     \<Rightarrow> store_error + ((nat \<times> materialization_record list) \<times> store_db)" where
  "force_release_exclusivity_key now t name v a db =
     tryE (validate_operator_audit (oa_operator a) (oa_reason a)) (\<lambda>_.
     tryE (ensure (InvalidArgument (Text ''force-release key name and value are required''))
             (\<not> is_blank name \<and> \<not> is_blank v)) (\<lambda>_.
     let db = insert_operator_audit_event
           \<lparr>au_operation = ''force_release_exclusivity_key'', au_materialization_id = None,
            au_cluster_id = Some (mt_cluster_id t), au_namespace = Some (mt_namespace t),
            au_key_name = Some name, au_operator = oa_operator a, au_reason = oa_reason a\<rparr> db
     in tryE (collectE materialization_from_row
                (filter (holds_reserved_key db t name v) (db_materializations db))) (\<lambda>affected.
        tryE (update_materializations now (holds_reserved_key db t name v)
                (\<lambda>m. Inr (m\<lparr>mr_exclusivity_keys :=
                   filter (\<lambda>k. \<not> (ek_name k = name \<and> ek_value k = v)) (mr_exclusivity_keys m)\<rparr>)) db) (\<lambda>(rows, db).
        Inr ((length rows, affected), db)))))"

end
