(* ===== verification/Instance_Ops.thy ===== *)
theory Instance_Ops
  imports Lifecycle_Ops
begin

text \<open>
  \<^verbatim>\<open>postgres/idempotency.rs\<close>, \<^verbatim>\<open>postgres/instance_ops.rs\<close> and
  \<^verbatim>\<open>postgres/route_ops.rs\<close>: workload classes, instances and route bindings, and the
  idempotency records behind both creations.
\<close>

section \<open>Idempotency keys\<close>

definition key_expired :: "int \<Rightarrow> idempotency_row \<Rightarrow> bool" where
  "key_expired now r = (case id_expires_at r of None \<Rightarrow> False | Some e \<Rightarrow> e \<le> now)"

definition expire_key :: "int \<Rightarrow> string \<Rightarrow> store_db \<Rightarrow> store_db" where
  "expire_key now key db =
     db\<lparr>db_idempotency := filter (\<lambda>r. \<not> (id_key r = key \<and> key_expired now r)) (db_idempotency db)\<rparr>"

definition expire_records :: "int \<Rightarrow> nat \<Rightarrow> store_db \<Rightarrow> store_error + (nat \<times> store_db)" where
  "expire_records now limit db =
     (if limit = 0 \<or> limit > 10000
      then Inl (InvalidArgument (Text ''idempotency GC batch must be between 1 and 10000''))
      else let expired = take limit (map id_key (sort_key (\<lambda>r. (the (id_expires_at r), id_key r))
             (filter (key_expired now) (db_idempotency db))))
        in Inr (length (filter (\<lambda>r. id_key r \<in> set expired) (db_idempotency db)),
                db\<lparr>db_idempotency := filter (\<lambda>r. id_key r \<notin> set expired) (db_idempotency db)\<rparr>))"

text \<open>
  \<^verbatim>\<open>INSERT INTO idempotency_records ... ON CONFLICT (idempotency_key) DO NOTHING\<close>; with no
  configured retention the record never expires.
\<close>

definition insert_idempotency_record ::
    "int \<Rightarrow> int option \<Rightarrow> string \<Rightarrow> idempotency_operation \<Rightarrow> fingerprint \<Rightarrow> string \<Rightarrow> store_db
     \<Rightarrow> store_error + (bool \<times> store_db)" where
  "insert_idempotency_record now retention key operation fp rid db =
     tryE (case retention of None \<Rightarrow> Inr None | Some r \<Rightarrow> tryE (pg_add now r) (\<lambda>e. Inr (Some e))) (\<lambda>expires.
     if list_ex (\<lambda>r. id_key r = key) (db_idempotency db) then Inr (False, db)
     else Inr (True, db\<lparr>db_idempotency := db_idempotency db @
       [\<lparr>id_key = key, id_operation = operation, id_fingerprint = fp, id_resource_id = rid,
         id_expires_at = expires, id_resource_deleted_at = None\<rparr>]\<rparr>))"

text \<open>The checks both replays share: same operation, same fingerprint, resource still there.\<close>

definition replayed_resource ::
    "string \<Rightarrow> idempotency_operation \<Rightarrow> fingerprint \<Rightarrow> string \<Rightarrow> store_db \<Rightarrow> store_error + string" where
  "replayed_resource key operation fp resource db =
     tryE (ok_or (Unavailable (Text ''idempotency key expired during replay; retry request''))
             (find (\<lambda>r. id_key r = key) (db_idempotency db))) (\<lambda>row.
     if id_operation row \<noteq> operation \<or> id_fingerprint row \<noteq> fp then Inl IdempotencyConflict
     else if id_resource_deleted_at row \<noteq> None then Inl (IdempotencyResourceDeleted resource)
     else Inr (id_resource_id row))"

section \<open>Route bindings\<close>

record create_route_binding_request =
  cb_idempotency_key :: string
  cb_route_binding_id :: string
  cb_instance_id :: string
  cb_identity :: route_identity
  cb_protocol :: protocol_route

definition validate_route_protocol :: "route_binding_spec \<Rightarrow> store_error + unit" where
  "validate_route_protocol spec =
     (case (bs_identity spec, bs_protocol spec) of
        (HttpIdentity _ _, HttpProtocol) \<Rightarrow> Inr ()
      | (SniIdentity _, TlsSni) \<Rightarrow> Inr ()
      | (HttpIdentity _ _, TlsSni) \<Rightarrow>
          Inl (InvalidArgument (Text ''HTTP route identities must use the HTTP protocol route''))
      | (SniIdentity _, HttpProtocol) \<Rightarrow>
          Inl (InvalidArgument (Text ''SNI route identities must use the TLS SNI protocol route'')))"

text \<open>
  Reading a binding back parses its columns again (\<^verbatim>\<open>route_binding_row_from_row\<close>).
\<close>

definition route_binding_from_row :: "route_row \<Rightarrow> store_error + route_row" where
  "route_binding_from_row row =
     (let parts = route_identity_parts_of (rr_identity row) in
      tryE (map_err (\<lambda>e. invalid_stored_data (empty_string_text e)) (RouteBindingId_new (rr_id row))) (\<lambda>bid.
      tryE (map_err (\<lambda>e. invalid_stored_data (invalid_instance_id_text e)) (InstanceId_new (rr_instance_id row))) (\<lambda>iid.
      tryE (map_err invalid_stored_data (route_identity_from_parts (ip_identity_kind parts)
              (ip_host_kind parts) (ip_host parts) (ip_path_prefix parts))) (\<lambda>i.
      Inr \<lparr>rr_id = bid, rr_instance_id = iid, rr_identity = i, rr_protocol = rr_protocol row\<rparr>))))"

definition create_route_binding_fingerprint :: "create_route_binding_request \<Rightarrow> store_error + fingerprint" where
  "create_route_binding_fingerprint r =
     tryE (validate_route_protocol \<lparr>bs_identity = cb_identity r, bs_protocol = cb_protocol r\<rparr>) (\<lambda>_.
     Inr (RouteFingerprint (cb_route_binding_id r) (cb_instance_id r) (cb_identity r) (cb_protocol r)))"

definition insert_route_binding ::
    "int \<Rightarrow> create_route_binding_request \<Rightarrow> store_db \<Rightarrow> store_error + (route_row \<times> store_db)" where
  "insert_route_binding now r db =
     (let row = \<lparr>rr_id = cb_route_binding_id r, rr_instance_id = cb_instance_id r,
                 rr_identity = cb_identity r, rr_protocol = cb_protocol r\<rparr> in
      tryE (insert_route now row db) (\<lambda>db.
      tryE (route_binding_from_row row) (\<lambda>b. Inr (b, db))))"

definition load_route_binding_record :: "string \<Rightarrow> store_db \<Rightarrow> store_error + route_row option" where
  "load_route_binding_record bid db =
     transposeE route_binding_from_row (find (\<lambda>r. rr_id r = bid) (db_routes db))"

definition replay_create_route_binding :: "string \<Rightarrow> fingerprint \<Rightarrow> store_db \<Rightarrow> store_error + route_row" where
  "replay_create_route_binding key fp db =
     tryE (replayed_resource key CreateRouteBindingOp fp ''route binding'' db) (\<lambda>rid.
     tryE (load_route_binding_record rid db) (\<lambda>b.
     ok_or (NotFound ''route binding'') b))"

definition create_route_binding ::
    "(nat \<Rightarrow> int) \<Rightarrow> int option \<Rightarrow> create_route_binding_request \<Rightarrow> store_db
     \<Rightarrow> store_error + (route_row \<times> store_db)" where
  "create_route_binding clk retention r db =
     tryE (validate_route_protocol \<lparr>bs_identity = cb_identity r, bs_protocol = cb_protocol r\<rparr>) (\<lambda>_.
     tryE (create_route_binding_fingerprint r) (\<lambda>fp.
     let key = cb_idempotency_key r; db = expire_key (clk 0) key db in
     tryE (insert_idempotency_record (clk 1) retention key CreateRouteBindingOp fp
             (cb_route_binding_id r) db) (\<lambda>(inserted, db).
     if \<not> inserted then tryE (replay_create_route_binding key fp db) (\<lambda>b. Inr (b, db))
     else insert_route_binding (clk 2) r db)))"

definition delete_route_binding :: "int \<Rightarrow> string \<Rightarrow> store_db \<Rightarrow> store_error + (bool \<times> store_db)" where
  "delete_route_binding now bid db =
     tryE (delete_routes now (\<lambda>r. rr_id r = bid) db) (\<lambda>(deleted, db). Inr (deleted > 0, db))"

definition list_route_bindings_for_instance :: "string \<Rightarrow> store_db \<Rightarrow> store_error + route_row list" where
  "list_route_bindings_for_instance iid db =
     collectE route_binding_from_row
       (sort_key rr_id (filter (\<lambda>r. rr_instance_id r = iid) (db_routes db)))"

section \<open>Workload classes\<close>

definition load_workload_class_version ::
    "workload_class_version_ref \<Rightarrow> store_db \<Rightarrow> store_error + workload_class_version option" where
  "load_workload_class_version ref db =
     tryE (generation_to_i64 (wr_version ref)) (\<lambda>_.
     Inr (find (\<lambda>c. wc_reference c = ref) (db_classes db)))"

definition create_workload_class_version ::
    "(string \<Rightarrow> json option) \<Rightarrow> workload_class_version \<Rightarrow> store_db
     \<Rightarrow> store_error + (workload_class_version \<times> store_db)" where
  "create_workload_class_version parse_yaml desired db =
     tryE (map_err (\<lambda>e. InvalidArgument (ClassText e)) (class_validate parse_yaml desired)) (\<lambda>_.
     tryE (generation_to_i64 (wr_version (wc_reference desired))) (\<lambda>_.
     tryE (generation_to_i64 (wc_template_generation desired)) (\<lambda>_.
     let inserted = \<not> list_ex (\<lambda>c. wc_reference c = wc_reference desired) (db_classes db);
         db = (if inserted then db\<lparr>db_classes := db_classes db @ [desired]\<rparr> else db)
     in tryE (load_workload_class_version (wc_reference desired) db) (\<lambda>stored.
        tryE (ok_or (NotFound ''workload class version'') stored) (\<lambda>stored.
        if \<not> inserted \<and> stored \<noteq> desired then Inl (AlreadyExists ''workload class version'')
        else Inr (stored, db))))))"

section \<open>Instances\<close>

record create_instance_request =
  cr_idempotency_key :: string
  cr_instance_id :: string
  cr_workload_class :: workload_class_version_ref
  cr_values :: instance_values
  cr_route_bindings :: "route_binding_spec list"

record create_instance_result =
  ci_instance :: instance_record
  ci_route_bindings :: "route_row list"
  ci_idempotency_replayed :: bool

definition create_instance_fingerprint :: "create_instance_request \<Rightarrow> store_error + fingerprint" where
  "create_instance_fingerprint r =
     tryE (collectE (\<lambda>spec. tryE (validate_route_protocol spec) (\<lambda>_.
             Inr (bs_identity spec, bs_protocol spec))) (cr_route_bindings r)) (\<lambda>routes.
     Inr (InstanceFingerprint (cr_instance_id r) (cr_workload_class r) (cr_values r) routes))"

definition load_instance :: "string \<Rightarrow> store_db \<Rightarrow> store_error + instance_record option" where
  "load_instance iid db = transposeE instance_from_row (find_instance iid db)"

definition insert_instance ::
    "int \<Rightarrow> create_instance_request \<Rightarrow> store_db \<Rightarrow> store_error + (instance_record \<times> store_db)" where
  "insert_instance now r db =
     tryE (generation_to_i64 (wr_version (cr_workload_class r))) (\<lambda>version.
     tryE (insert_instance_row now
             \<lparr>ir_id = cr_instance_id r, ir_class_id = wr_class_id (cr_workload_class r),
              ir_class_version = version, ir_values = cr_values r, ir_state = Cold,
              ir_generation = 0\<rparr> db) (\<lambda>(row, db).
     tryE (instance_from_row row) (\<lambda>i. Inr (i, db))))"

fun insert_route_bindings ::
    "(nat \<Rightarrow> int) \<Rightarrow> string \<Rightarrow> nat \<Rightarrow> route_binding_spec list \<Rightarrow> store_db
     \<Rightarrow> store_error + (route_row list \<times> store_db)" where
  "insert_route_bindings clk iid index [] db = Inr ([], db)"
| "insert_route_bindings clk iid index (spec # specs) db =
     tryE (validate_route_protocol spec) (\<lambda>_.
     let row = \<lparr>rr_id = iid @ '':route:'' @ dec_nat (index + 1), rr_instance_id = iid,
                rr_identity = bs_identity spec, rr_protocol = bs_protocol spec\<rparr> in
     tryE (insert_route (clk index) row db) (\<lambda>db.
     tryE (route_binding_from_row row) (\<lambda>b.
     tryE (insert_route_bindings clk iid (index + 1) specs db) (\<lambda>(bs, db).
     Inr (b # bs, db)))))"

definition load_create_instance_result ::
    "string \<Rightarrow> bool \<Rightarrow> store_db \<Rightarrow> store_error + create_instance_result" where
  "load_create_instance_result iid replayed db =
     tryE (load_instance iid db) (\<lambda>i.
     tryE (ok_or (NotFound ''instance'') i) (\<lambda>i.
     tryE (list_route_bindings_for_instance iid db) (\<lambda>bs.
     Inr \<lparr>ci_instance = i, ci_route_bindings = bs, ci_idempotency_replayed = replayed\<rparr>)))"

definition replay_create_instance ::
    "string \<Rightarrow> fingerprint \<Rightarrow> store_db \<Rightarrow> store_error + create_instance_result" where
  "replay_create_instance key fp db =
     tryE (replayed_resource key CreateInstanceOp fp ''instance'' db) (\<lambda>rid.
     load_create_instance_result rid True db)"

definition create_instance ::
    "(string \<Rightarrow> json option) \<Rightarrow> (nat \<Rightarrow> int) \<Rightarrow> int option \<Rightarrow> create_instance_request \<Rightarrow> store_db
     \<Rightarrow> store_error + (create_instance_result \<times> store_db)" where
  "create_instance parse_yaml clk retention r db =
     tryE (load_workload_class_version (cr_workload_class r) db) (\<lambda>c.
     tryE (ok_or (NotFound ''workload class version'') c) (\<lambda>c.
     tryE (map_err (\<lambda>e. InvalidArgument (ValuesText e))
             (validate_values_against parse_yaml c (cr_values r))) (\<lambda>vals.
     let r = r\<lparr>cr_values := vals\<rparr>; key = cr_idempotency_key r in
     tryE (create_instance_fingerprint r) (\<lambda>fp.
     let db = expire_key (clk 0) key db in
     tryE (insert_idempotency_record (clk 1) retention key CreateInstanceOp fp (cr_instance_id r) db) (\<lambda>(inserted, db).
     if \<not> inserted then tryE (replay_create_instance key fp db) (\<lambda>result. Inr (result, db))
     else
       tryE (insert_instance (clk 2) r db) (\<lambda>(i, db).
       tryE (insert_route_bindings (\<lambda>n. clk (n + 3)) (cr_instance_id r) 0 (cr_route_bindings r) db) (\<lambda>(bs, db).
       Inr (\<lparr>ci_instance = i, ci_route_bindings = bs, ci_idempotency_replayed = False\<rparr>, db))))))))"

definition delete_instance :: "int \<Rightarrow> string \<Rightarrow> store_db \<Rightarrow> store_error + (bool \<times> store_db)" where
  "delete_instance now iid db =
     (case find_instance iid db of
        None \<Rightarrow> Inr (False, db)
      | Some row \<Rightarrow>
          if ir_state row \<noteq> Deleting
          then Inl (InvalidArgument (Text ''instance delete requires state deleting''))
          else if \<not> cleanup_complete db iid
          then Inl (InvalidArgument (Text ''instance deletion requires completed materialization cleanup''))
          else tryE (delete_instances now (\<lambda>i. ir_id i = iid \<and> ir_state i = Deleting) db) (\<lambda>(deleted, db).
            Inr (deleted > 0, db)))"

record compare_and_swap_request =
  cs_instance_id :: string
  cs_expected_generation :: generation
  cs_next_state :: instance_state
  cs_reason :: state_transition_reason

definition compare_and_swap_instance_state ::
    "int \<Rightarrow> compare_and_swap_request \<Rightarrow> store_db \<Rightarrow> store_error + (instance_record \<times> store_db)" where
  "compare_and_swap_instance_state now r db =
     tryE (ok_or (NotFound ''instance'') (find_instance (cs_instance_id r) db)) (\<lambda>row.
     tryE (instance_from_row row) (\<lambda>current.
     if in_generation current \<noteq> cs_expected_generation r
     then Inl (GenerationConflict (cs_expected_generation r) (in_generation current))
     else
       tryE (map_err (\<lambda>e. InvalidArgument (TransitionText e))
               (validate_instance_state_transition (in_state current) (cs_next_state r) (cs_reason r))) (\<lambda>_.
       tryE (generation_to_i64 (Generation_next (cs_expected_generation r))) (\<lambda>g.
       tryE (set_instance_state now (cs_instance_id r) (cs_next_state r) g db) (\<lambda>(row, db).
       tryE (instance_from_row row) (\<lambda>i. Inr (i, db)))))))"

section \<open>Resolving a route\<close>

record route_entry =
  re_route_binding_id :: string
  re_instance_id :: string
  re_instance_state :: instance_state
  re_instance_generation :: generation
  re_backend :: "backend_endpoint option"
  re_backend_generation :: "backend_generation option"

datatype route_resolution = Resolved route_identity route_entry | Miss duration

definition NEGATIVE_CACHE_TTL :: duration where
  "NEGATIVE_CACHE_TTL = 1000000000"

text \<open>The lateral join of the statement: the Ready backend of the instance's generation here.\<close>

definition ready_backend ::
    "instance_row \<Rightarrow> materialization_target \<Rightarrow> store_db \<Rightarrow> materialization_row option" where
  "ready_backend i t db =
     find (\<lambda>m. on_target (ir_id i) t m \<and> mr_instance_generation m = ir_generation i \<and> mr_state m = Ready)
       (db_materializations db)"

definition resolve_route ::
    "route_identity \<Rightarrow> materialization_target \<Rightarrow> store_db \<Rightarrow> store_error + route_resolution" where
  "resolve_route lookup t db =
     (case select_route (map (\<lambda>r. (rr_id r, rr_identity r)) (db_routes db)) lookup of
        None \<Rightarrow> Inr (Miss NEGATIVE_CACHE_TTL)
      | Some (bid, _) \<Rightarrow>
          (case find (\<lambda>r. rr_id r = bid) (db_routes db) of
             None \<Rightarrow> Inr (Miss NEGATIVE_CACHE_TTL)
           | Some row \<Rightarrow>
               (case find_instance (rr_instance_id row) db of
                  None \<Rightarrow> Inr (Miss NEGATIVE_CACHE_TTL)
                | Some i \<Rightarrow>
                    let ready = ready_backend i t db in
                    tryE (route_binding_from_row row) (\<lambda>route.
                    tryE (generation_from_i64 (ir_generation i)) (\<lambda>g.
                    tryE (backend_endpoint_from_row (Option.bind ready mr_backend_uri)
                            (Option.bind ready mr_backend_address)) (\<lambda>backend.
                    tryE (transposeE backend_generation_from_i64 (map_option mr_backend_generation ready)) (\<lambda>bg.
                    Inr (Resolved (rr_identity route)
                      \<lparr>re_route_binding_id = rr_id route, re_instance_id = rr_instance_id route,
                       re_instance_state = ir_state i, re_instance_generation = g,
                       re_backend = backend, re_backend_generation = bg\<rparr>))))))))"

record route_dependency_set =
  rd_route_binding_id :: string
  rd_instance_id :: string
  rd_materialization_generation :: "backend_generation option"

text \<open>\<^verbatim>\<open>ORDER BY backend_generation DESC, materialization_id LIMIT 1\<close>\<close>

definition latest_ready_materialization ::
    "string \<Rightarrow> generation \<Rightarrow> store_db \<Rightarrow> store_error + materialization_record option" where
  "latest_ready_materialization iid g db =
     tryE (generation_to_i64 g) (\<lambda>ig.
     transposeE materialization_from_row
       (first_row (sort_key (\<lambda>m. (- mr_backend_generation m, mr_id m))
         (filter (\<lambda>m. mr_instance_id m = iid \<and> mr_instance_generation m = ig \<and> mr_state m = Ready)
           (db_materializations db)))))"

definition lookup_route_dependencies :: "string \<Rightarrow> store_db \<Rightarrow> store_error + route_dependency_set option" where
  "lookup_route_dependencies bid db =
     tryE (load_route_binding_record bid db) (\<lambda>route.
     case route of
       None \<Rightarrow> Inr None
     | Some route \<Rightarrow>
         tryE (load_instance (rr_instance_id route) db) (\<lambda>i.
         tryE (ok_or (NotFound ''instance'') i) (\<lambda>i.
         tryE (latest_ready_materialization (rr_instance_id route) (in_generation i) db) (\<lambda>m.
         Inr (Some \<lparr>rd_route_binding_id = rr_id route, rd_instance_id = in_id i,
                    rd_materialization_generation = map_option mz_backend_generation m\<rparr>)))))"

end
