(* ===== verification/Http01_Ops.thy ===== *)
theory Http01_Ops
  imports Row_Mapping
begin

text \<open>
  HTTP-01 challenges: the contracts of \<^verbatim>\<open>sleepypods-api/src/http01.rs\<close> and the table
  operations of \<^verbatim>\<open>postgres/http01_ops.rs\<close>. A \<^verbatim>\<open>SystemTime\<close> is the number of nanoseconds
  since the Unix epoch.
\<close>

section \<open>Contracts\<close>

datatype invalid_http01_challenge =
    InvalidHost string
  | EmptyToken
  | EmptyKeyAuthorization
  | AlreadyExpired

record http01_key =
  hk_host :: route_host
  hk_token :: string

record http01_challenge =
  hc_key :: http01_key
  hc_key_authorization :: string
  hc_expires_at :: int

definition Http01ChallengeKey_new :: "string \<Rightarrow> string \<Rightarrow> invalid_http01_challenge + http01_key" where
  "Http01ChallengeKey_new host tok =
     (if is_blank tok then Inl EmptyToken
      else tryE (map_err InvalidHost (RouteHost_exact host)) (\<lambda>h.
        Inr \<lparr>hk_host = h, hk_token = tok\<rparr>))"

definition PutHttp01ChallengeRequest_new ::
    "http01_key \<Rightarrow> string \<Rightarrow> int \<Rightarrow> int \<Rightarrow> invalid_http01_challenge + http01_challenge" where
  "PutHttp01ChallengeRequest_new key authorization expires_at now =
     (if is_blank authorization then Inl EmptyKeyAuthorization
      else if expires_at \<le> now then Inl AlreadyExpired
      else Inr \<lparr>hc_key = key, hc_key_authorization = authorization, hc_expires_at = expires_at\<rparr>)"

definition Http01ChallengeRecord_new ::
    "http01_key \<Rightarrow> string \<Rightarrow> int \<Rightarrow> int \<Rightarrow> invalid_http01_challenge + http01_challenge" where
  "Http01ChallengeRecord_new key authorization expires_at now =
     PutHttp01ChallengeRequest_new key authorization expires_at now"

definition http01_text :: "invalid_http01_challenge \<Rightarrow> string" where
  "http01_text e =
     (case e of InvalidHost m \<Rightarrow> m
      | EmptyToken \<Rightarrow> ''HTTP-01 challenge token must not be empty''
      | EmptyKeyAuthorization \<Rightarrow> ''HTTP-01 key authorization must not be empty''
      | AlreadyExpired \<Rightarrow> ''HTTP-01 challenge expiry must be in the future'')"

section \<open>Rows\<close>

text \<open>Milliseconds, rounded toward the epoch.\<close>

definition unix_millis_from_system_time :: "int \<Rightarrow> store_error + int" where
  "unix_millis_from_system_time t =
     (let millis = \<bar>t\<bar> div 1000000 in
      if millis > i64_max then Inl (InvalidArgument (Text ''system time does not fit in unix millis''))
      else Inr (if 0 \<le> t then millis else - millis))"

definition system_time_from_unix_millis :: "int \<Rightarrow> int" where
  "system_time_from_unix_millis v = v * 1000000"

definition http01_from_row :: "http01_row \<Rightarrow> store_error + http01_challenge" where
  "http01_from_row row =
     tryE (map_err (\<lambda>e. invalid_stored_data (http01_text e))
             (Http01ChallengeKey_new (h1_host row) (h1_token row))) (\<lambda>key.
     map_err (\<lambda>e. invalid_stored_data (http01_text e))
       (Http01ChallengeRecord_new key (h1_key_authorization row)
         (system_time_from_unix_millis (h1_expires_at row)) 0))"

section \<open>Operations\<close>

definition is_challenge :: "http01_key \<Rightarrow> http01_row \<Rightarrow> bool" where
  "is_challenge k row \<longleftrightarrow> h1_host row = rh_host (hk_host k) \<and> h1_token row = hk_token k"

definition put_http01_challenge ::
    "http01_challenge \<Rightarrow> store_db \<Rightarrow> store_error + ((store_error + http01_challenge) \<times> store_db)" where
  "put_http01_challenge r db =
     tryE (unix_millis_from_system_time (hc_expires_at r)) (\<lambda>expires.
     let row = \<lparr>h1_host = rh_host (hk_host (hc_key r)), h1_token = hk_token (hc_key r),
                h1_key_authorization = hc_key_authorization r, h1_expires_at = expires\<rparr>;
         rows = (if list_ex (is_challenge (hc_key r)) (db_http01 db)
                 then map (\<lambda>x. if is_challenge (hc_key r) x then row else x) (db_http01 db)
                 else db_http01 db @ [row])
     in Inr (http01_from_row row, db\<lparr>db_http01 := rows\<rparr>))"

definition resolve_http01_challenge ::
    "int \<Rightarrow> http01_key \<Rightarrow> store_db \<Rightarrow> store_error + http01_challenge option" where
  "resolve_http01_challenge now k db =
     transposeE http01_from_row
       (find (\<lambda>row. is_challenge k row \<and> h1_expires_at row > now) (db_http01 db))"

definition delete_http01_challenge :: "http01_key \<Rightarrow> store_db \<Rightarrow> bool \<times> store_db" where
  "delete_http01_challenge k db =
     (list_ex (is_challenge k) (db_http01 db),
      db\<lparr>db_http01 := filter (\<lambda>row. \<not> is_challenge k row) (db_http01 db)\<rparr>)"

definition delete_expired_http01_challenges ::
    "int \<Rightarrow> int option \<Rightarrow> nat option \<Rightarrow> store_db \<Rightarrow> store_error + (nat \<times> store_db)" where
  "delete_expired_http01_challenges now cutoff limit db =
     (let cutoff = (case cutoff of Some c \<Rightarrow> c | None \<Rightarrow> now);
          expired = filter (\<lambda>row. h1_expires_at row \<le> cutoff) (db_http01 db)
      in tryE (case limit of
                 Some l \<Rightarrow>
                   if int l > i64_max
                   then Inl (InvalidArgument (Text ''HTTP-01 expire limit does not fit in Postgres bigint''))
                   else Inr (take l (sort_key (\<lambda>r. (h1_expires_at r, h1_host r, h1_token r)) expired))
               | None \<Rightarrow> Inr expired) (\<lambda>chosen.
         let gone = (\<lambda>row. list_ex (\<lambda>c. h1_host c = h1_host row \<and> h1_token c = h1_token row) chosen)
         in Inr (length (filter gone (db_http01 db)),
                 db\<lparr>db_http01 := filter (\<lambda>row. \<not> gone row) (db_http01 db)\<rparr>)))"

definition expire_http01_challenges ::
    "int \<Rightarrow> int \<Rightarrow> nat option \<Rightarrow> store_db \<Rightarrow> store_error + (nat \<times> store_db)" where
  "expire_http01_challenges now request_now limit db =
     tryE (unix_millis_from_system_time request_now) (\<lambda>cutoff.
     delete_expired_http01_challenges now (Some cutoff) limit db)"

definition collect_expired_http01_challenges :: "int \<Rightarrow> nat \<Rightarrow> store_db \<Rightarrow> store_error + (nat \<times> store_db)" where
  "collect_expired_http01_challenges now limit db =
     delete_expired_http01_challenges now None (Some limit) db"

end
