(* ===== verification/Runtime_Work.thy ===== *)
theory Runtime_Work
  imports Sleep_Wake_Ops Instance_Ops Http01_Ops
begin

text \<open>
  \<^verbatim>\<open>crates/control-plane/src/postgres/runtime_work.rs\<close>: the change feed the proxies poll, the
  bookkeeping of failed attempts, operator requeueing and the periodic maintenance.
\<close>

section \<open>The change feed\<close>

record durable_route_changes =
  rc_cursor :: u64
  rc_reset :: bool
  rc_events :: "route_change list"

definition revision :: "store_db \<Rightarrow> u64" where
  "revision db = word_of_int (db_revision db)"

definition oldest_revision :: "store_db \<Rightarrow> int option" where
  "oldest_revision db =
     (case map ob_revision (db_outbox db) of [] \<Rightarrow> None | r # rs \<Rightarrow> Some (fold min rs r))"

definition changes :: "u64 \<Rightarrow> nat \<Rightarrow> store_db \<Rightarrow> store_error + durable_route_changes" where
  "changes cursor limit db =
     tryE (ok_or (InvalidArgument (Text ''route cursor overflow'')) (i64_of_u64 cursor)) (\<lambda>cursor.
     let limit = max 1 (min 1024 limit);
         current = db_revision db;
         reset = (cursor > current \<or> (cursor < current \<and>
           (case oldest_revision db of None \<Rightarrow> True | Some oldest \<Rightarrow> cursor < oldest - 1)));
         events = take limit (sort_key ob_revision (filter (\<lambda>r. ob_revision r > cursor) (db_outbox db)));
         last_seen = (if events = [] then current else ob_revision (last events))
     in Inr \<lparr>rc_cursor = word_of_int (if reset then current else last_seen), rc_reset = reset,
             rc_events = (if reset then [] else map ob_payload events)\<rparr>)"

section \<open>Failed attempts\<close>

record failure_request =
  fr_expected_state :: materialization_state
  fr_materialization_id :: string
  fr_owner :: string
  fr_attempt :: u64
  fr_generation :: generation
  fr_permanent :: bool
  fr_message :: string

definition I32_MAX :: int where
  "I32_MAX = 2147483647"

definition retry_delay_millis :: "int \<Rightarrow> int" where
  "retry_delay_millis count = 1000 * 2 ^ nat (min count 5)"

definition failure_kind_of :: "bool \<Rightarrow> bool \<Rightarrow> bool \<Rightarrow> failure_kind" where
  "failure_kind_of uncertain expired permanent =
     (if uncertain then Uncertain else if expired then Deadline
      else if permanent then Permanent else Transient)"

text \<open>The wake that ends here: the materialization is cleaned up, the instance has failed.\<close>

definition fail_wake ::
    "(nat \<Rightarrow> int) \<Rightarrow> string \<Rightarrow> string \<Rightarrow> int \<Rightarrow> store_db \<Rightarrow> store_error + store_db" where
  "fail_wake clk mid iid g db =
     tryE (update_materializations (clk 0) (\<lambda>m. mr_id m = mid) (\<lambda>m. Inr (m\<lparr>mr_state := MDeleting\<rparr>)) db) (\<lambda>(_, db).
     tryE (update_instances (clk 1) (\<lambda>i. ir_id i = iid \<and> ir_generation i = g \<and> ir_state i = Waking)
             (\<lambda>i. tryE (pg_add (ir_generation i) 1) (\<lambda>g'.
                  Inr (i\<lparr>ir_state := Failed, ir_generation := g'\<rparr>))) db) (\<lambda>(_, db).
     Inr db))"

definition failure_statement ::
    "int \<Rightarrow> string \<Rightarrow> int \<Rightarrow> failure_kind \<Rightarrow> string \<Rightarrow> int \<Rightarrow> bool \<Rightarrow> store_db
     \<Rightarrow> store_error + (materialization_row list \<times> store_db)" where
  "failure_statement now mid count kind msg delay cleanup db =
     update_materializations now (\<lambda>m. mr_id m = mid)
       (\<lambda>m. tryE (pg_add now delay) (\<lambda>next.
            Inr (m\<lparr>mr_failure_count := count, mr_failure_kind := Some kind, mr_failure_message := msg,
                   mr_failure_requires_cleanup := cleanup,
                   mr_wake_failure_message := (if cleanup then msg else mr_wake_failure_message m),
                   mr_next_attempt_at := next, mr_reconcile_owner := None,
                   mr_lease_expires_at := None\<rparr>))) db"

definition write_failure ::
    "(nat \<Rightarrow> int) \<Rightarrow> failure_request \<Rightarrow> int \<Rightarrow> materialization_row \<Rightarrow> store_db \<Rightarrow> store_error + (bool \<times> store_db)" where
  "write_failure clk r g m db =
     (let mid = fr_materialization_id r;
          uncertain = has_effect db mid;
          expired = mr_operation_deadline m \<le> clk 0;
          terminal = (\<not> uncertain \<and> (fr_permanent r \<or> expired));
          kind = failure_kind_of uncertain expired (fr_permanent r);
          count = min (mr_failure_count m + 1) I32_MAX;
          msg = concat (take 512 (utf8_chars (fr_message r)));
          cleanup = (terminal \<and> mr_state m = Pending) in
      tryE (if cleanup then fail_wake (\<lambda>n. clk (n + 1)) mid (mr_instance_id m) g db else Inr db) (\<lambda>db.
      tryE (failure_statement (clk 3) mid count kind msg (retry_delay_millis count) cleanup db) (\<lambda>(_, db).
      Inr (True, db))))"

definition record_failure ::
    "(nat \<Rightarrow> int) \<Rightarrow> failure_request \<Rightarrow> store_db \<Rightarrow> store_error + (bool \<times> store_db)" where
  "record_failure clk r db =
     (let mid = fr_materialization_id r in
      tryE (ok_or (InvalidArgument (Text ''attempt overflow'')) (i64_of_u64 (fr_attempt r))) (\<lambda>attempt.
      tryE (generation_to_i64 (fr_generation r)) (\<lambda>g.
      if \<not> list_ex (\<lambda>m. mr_id m = mid \<and> find_instance (mr_instance_id m) db \<noteq> None) (db_materializations db)
      then Inr (False, db)
      else
        (case find (\<lambda>m. mr_id m = mid \<and> mr_reconcile_owner m = Some (fr_owner r)
               \<and> mr_reconcile_attempt m = attempt \<and> mr_instance_generation m = g
               \<and> mr_state m = fr_expected_state r) (db_materializations db) of
           None \<Rightarrow> Inr (False, db)
         | Some m \<Rightarrow> if \<not> lease_live (clk 0) m then Inr (False, db) else write_failure clk r g m db))))"

definition enqueue :: "int \<Rightarrow> string \<Rightarrow> store_db \<Rightarrow> store_error + (bool \<times> store_db)" where
  "enqueue now mid db =
     tryE (update_materializations now
             (\<lambda>m. mr_id m = mid \<and> (in_backlog m \<or> mr_state m = MFailed)
                \<and> (mr_reconcile_owner m = None \<or> lease_expired now m) \<and> \<not> has_effect db (mr_id m))
             (\<lambda>m. tryE (pg_add (max (mr_drain_not_before m) now) (db_operation_timeout db)) (\<lambda>deadline.
                  Inr (m\<lparr>mr_state := (if mr_state m = MFailed then MDeleting else mr_state m),
                         mr_failure_kind := None, mr_failure_message := [], mr_failure_count := 0,
                         mr_operation_deadline := deadline,
                         mr_next_attempt_at := max (mr_drain_not_before m) now\<rparr>))) db) (\<lambda>(rows, db).
     Inr (length rows = 1, db))"

section \<open>Status\<close>

record work_status =
  ws_ready_age :: "duration option"
  ws_next_attempt_at :: int
  ws_operation_deadline :: int
  ws_operation_remaining :: "duration option"
  ws_failure_count :: int
  ws_failure_kind :: "failure_kind option"
  ws_failure_message :: string
  ws_wake_failure_message :: string
  ws_uncertain_effect :: "effect_row option"

definition status :: "int \<Rightarrow> string \<Rightarrow> store_db \<Rightarrow> store_error + work_status option" where
  "status now mid db =
     (case find (\<lambda>m. mr_id m = mid) (db_materializations db) of
        None \<Rightarrow> Inr None
      | Some m \<Rightarrow>
          let eff = find (\<lambda>e. ef_materialization_id e = mid) (db_effects db) in
          tryE (transposeE (\<lambda>e. generation_from_i64 (ef_instance_generation e)) eff) (\<lambda>_.
          Inr (Some
            \<lparr>ws_ready_age = (if mr_state m = Ready
               then Some (from_millis (nat (max 0 (now - mr_state_entered_at m)))) else None),
             ws_next_attempt_at = mr_next_attempt_at m,
             ws_operation_deadline = mr_operation_deadline m,
             ws_operation_remaining = (if mr_operation_deadline m > 0
               then Some (from_millis (nat (max 0 (mr_operation_deadline m - now)))) else None),
             ws_failure_count = mr_failure_count m, ws_failure_kind = mr_failure_kind m,
             ws_failure_message = mr_failure_message m,
             ws_wake_failure_message = mr_wake_failure_message m, ws_uncertain_effect = eff\<rparr>)))"

section \<open>Maintenance\<close>

text \<open>
  The outbox entries older than the oldest of the last ten minutes, at most \<^verbatim>\<open>limit\<close> of them
  in revision order.
\<close>

definition prune_outbox :: "int \<Rightarrow> nat \<Rightarrow> store_db \<Rightarrow> nat \<times> store_db" where
  "prune_outbox now limit db =
     (let recent = map ob_revision (filter (\<lambda>r. ob_created_at r \<ge> now - 600000) (db_outbox db));
          bound = (case recent of [] \<Rightarrow> i64_max | r # rs \<Rightarrow> fold min rs r);
          gone = take limit (sort (map ob_revision (filter (\<lambda>r. ob_revision r < bound) (db_outbox db))))
      in (length (filter (\<lambda>r. ob_revision r \<in> set gone) (db_outbox db)),
          db\<lparr>db_outbox := filter (\<lambda>r. ob_revision r \<notin> set gone) (db_outbox db)\<rparr>))"

text \<open>Three statements, each committed on its own; the error of one ends the pass.\<close>

definition maintain :: "(nat \<Rightarrow> int) \<Rightarrow> nat \<Rightarrow> store_db \<Rightarrow> (store_error + nat) \<times> store_db" where
  "maintain clk limit db =
     (let limit = max 1 (min 1024 limit) in
      case expire_records (clk 0) limit db of
        Inl e \<Rightarrow> (Inl e, db)
      | Inr (idempotency, db) \<Rightarrow>
          (case collect_expired_http01_challenges (clk 1) limit db of
             Inl e \<Rightarrow> (Inl e, db)
           | Inr (http01, db) \<Rightarrow>
               (let (outbox, db) = prune_outbox (clk 2) limit db
                in (Inr (idempotency + http01 + outbox), db))))"

end
