(* ===== verification/Statements.thy ===== *)
theory Statements
  imports Runtime_Work
begin

text \<open>
  The statements the store runs, as a step relation on databases. Every transaction of the
  store is a sequence of such steps (\<^theory_text>\<open>Store_Run\<close>), so an invariant is proved here once per
  statement and holds for every operation. The rules record what the operations guarantee of
  the rows they write.
\<close>

section \<open>What the primitives leave alone\<close>

lemma record_route_changes_frame:
  "record_route_changes now ps db = Inr db' \<Longrightarrow>
     \<exists>r ob. db' = db\<lparr>db_revision := r, db_outbox := ob\<rparr>"
  by (rule exI [of _ "db_revision db'"], rule exI [of _ "db_outbox db'"])
    (auto simp: record_route_changes_def result_simps split: if_splits)

lemma sync_materialization_reservations_frame:
  "sync_materialization_reservations old new db = Inr db' \<Longrightarrow>
     \<exists>os ks. db' = db\<lparr>db_object_reservations := os, db_key_reservations := ks\<rparr>"
  by (rule exI [of _ "db_object_reservations db'"], rule exI [of _ "db_key_reservations db'"])
    (auto simp: sync_materialization_reservations_def Let_def split: if_splits sum.splits)

lemma sync_rows_frame:
  "sync_rows ps db = Inr db' \<Longrightarrow>
     \<exists>os ks. db' = db\<lparr>db_object_reservations := os, db_key_reservations := ks\<rparr>"
proof (induction ps db arbitrary: db' rule: sync_rows.induct)
  case (1 db)
  show ?case
    by (rule exI [of _ "db_object_reservations db'"], rule exI [of _ "db_key_reservations db'"])
      (use 1 in auto)
next
  case (2 old new ps db)
  then obtain mid where mid: "sync_materialization_reservations (Some old) new db = Inr mid"
      and rest: "sync_rows ps mid = Inr db'"
    by (auto simp: result_simps)
  obtain os ks where "mid = db\<lparr>db_object_reservations := os, db_key_reservations := ks\<rparr>"
    using sync_materialization_reservations_frame [OF mid] by blast
  moreover obtain os' ks' where "db' = mid\<lparr>db_object_reservations := os', db_key_reservations := ks'\<rparr>"
    using "2.IH" [OF rest] by blast
  ultimately have "db' = db\<lparr>db_object_reservations := os', db_key_reservations := ks'\<rparr>"
    by simp
  then show ?case by blast
qed

text \<open>The columns no trigger writes.\<close>

definition row_core where
  "row_core m =
     (mr_id m, mr_instance_id m, mr_instance_generation m, mr_projection_generation m,
      mr_cluster_id m, mr_namespace m, mr_state m, mr_backend_uri m, mr_backend_address m,
      mr_backend_generation m, mr_rendered_objects m, mr_exclusivity_keys m,
      mr_reconcile_owner m, mr_lease_expires_at m, mr_reconcile_attempt m)"

definition written_row where
  "written_row P f m m' \<longleftrightarrow> (if P m then \<exists>n. f m = Inr n \<and> row_core m' = row_core n else m' = m)"

lemma track_materialization_state_age_core:
  "row_core (track_materialization_state_age now old new) = row_core new"
  by (simp add: track_materialization_state_age_def row_core_def)

lemma reset_materialization_schedule_core:
  "reset_materialization_schedule now timeout old new = Inr m \<Longrightarrow> row_core m = row_core new"
  by (auto simp: reset_materialization_schedule_def row_core_def result_simps split: if_splits)

lemma update_row_Inr: "update_row now timeout P f m = Inr m' \<Longrightarrow> written_row P f m m'"
  by (auto simp: update_row_def written_row_def tryE_Inr track_materialization_state_age_core
      dest: reset_materialization_schedule_core split: if_splits)

lemma update_materializations_parts:
  assumes "update_materializations now P f db = Inr (ret, db')"
  obtains rows mid ps where
    "collectE (update_row now (db_operation_timeout db) P f) (db_materializations db) = Inr rows"
    "sync_rows (filter (P \<circ> fst) (zip (db_materializations db) rows)) (db\<lparr>db_materializations := rows\<rparr>) = Inr mid"
    "record_route_changes now ps mid = Inr db'"
    "ps = remdups (map (InstanceChange \<circ> mr_instance_id \<circ> snd)
       (filter (\<lambda>(old, new). route_visible_change old new)
         (filter (P \<circ> fst) (zip (db_materializations db) rows))))"
    "ret = map snd (filter (P \<circ> fst) (zip (db_materializations db) rows))"
  using assms unfolding update_materializations_def tryE_Inr Let_def by blast

lemma update_materializations_frame:
  assumes "update_materializations now P f db = Inr (ret, db')"
  obtains rows os ks r ob where
    "db' = db\<lparr>db_materializations := rows, db_object_reservations := os,
       db_key_reservations := ks, db_revision := r, db_outbox := ob\<rparr>"
    "list_all2 (written_row P f) (db_materializations db) rows"
    "ret = map snd (filter (P \<circ> fst) (zip (db_materializations db) rows))"
proof -
  obtain rows mid ps where parts:
      "collectE (update_row now (db_operation_timeout db) P f) (db_materializations db) = Inr rows"
      "sync_rows (filter (P \<circ> fst) (zip (db_materializations db) rows)) (db\<lparr>db_materializations := rows\<rparr>) = Inr mid"
      "record_route_changes now ps mid = Inr db'"
      "ret = map snd (filter (P \<circ> fst) (zip (db_materializations db) rows))"
    using assms by (rule update_materializations_parts)
  have "list_all2 (written_row P f) (db_materializations db) rows"
    using parts(1) unfolding collectE_Inr by (rule list_all2_mono) (rule update_row_Inr)
  moreover obtain os ks where "mid = db\<lparr>db_materializations := rows, db_object_reservations := os, db_key_reservations := ks\<rparr>"
    using sync_rows_frame [OF parts(2)] by auto
  moreover obtain r ob where "db' = mid\<lparr>db_revision := r, db_outbox := ob\<rparr>"
    using record_route_changes_frame [OF parts(3)] by blast
  ultimately show thesis
    using parts(4) by (intro that) simp_all
qed

lemma update_instances_frame:
  assumes "update_instances now P f db = Inr (ret, db')"
  obtains rows r ob where
    "db' = db\<lparr>db_instances := rows,
       db_watermarks := fold (\<lambda>(old, new). raise_watermark (ir_id new) (ir_generation new))
         (filter (P \<circ> fst) (zip (db_instances db) rows)) (db_watermarks db),
       db_revision := r, db_outbox := ob\<rparr>"
    "list_all2 (\<lambda>i i'. (if P i then f i else Inr i) = Inr i') (db_instances db) rows"
    "ret = map snd (filter (P \<circ> fst) (zip (db_instances db) rows))"
proof -
  obtain rows ps where rows: "collectE (\<lambda>i. if P i then f i else Inr i) (db_instances db) = Inr rows"
      and rec: "record_route_changes now ps (db\<lparr>db_instances := rows,
        db_watermarks := fold (\<lambda>(old, new). raise_watermark (ir_id new) (ir_generation new))
          (filter (P \<circ> fst) (zip (db_instances db) rows)) (db_watermarks db)\<rparr>) = Inr db'"
      and ret: "ret = map snd (filter (P \<circ> fst) (zip (db_instances db) rows))"
    using assms unfolding update_instances_def tryE_Inr Let_def by blast
  from record_route_changes_frame [OF rec] show thesis
    using that [OF _ rows [unfolded collectE_Inr] ret] by auto
qed

section \<open>The statements\<close>

text \<open>
  What an update of a materialization keeps: the key of the row, the order of backend
  generations, and the fence around a lease: a new attempt is one more than the last and starts
  only while no effect is outstanding, and the owner changes only by a new attempt. A row is
  stamped only with the current generation of its instance.
\<close>

definition stamped :: "store_db \<Rightarrow> materialization_row \<Rightarrow> bool" where
  "stamped db m \<longleftrightarrow> (\<exists>i \<in> set (db_instances db). ir_id i = mr_instance_id m
     \<and> ir_generation i = mr_instance_generation m)"

definition row_step :: "store_db \<Rightarrow> materialization_row \<Rightarrow> materialization_row \<Rightarrow> bool" where
  "row_step db m n \<longleftrightarrow>
     mr_id n = mr_id m \<and> mr_instance_id n = mr_instance_id m
     \<and> mr_cluster_id n = mr_cluster_id m \<and> mr_namespace n = mr_namespace m
     \<and> mr_backend_generation m \<le> mr_backend_generation n
     \<and> (mr_instance_generation n = mr_instance_generation m \<or> stamped db n)
     \<and> (mr_reconcile_attempt n = mr_reconcile_attempt m
          \<and> (mr_reconcile_owner n = None \<or> mr_reconcile_owner n = mr_reconcile_owner m)
        \<or> mr_reconcile_attempt n = mr_reconcile_attempt m + 1 \<and> \<not> has_effect db (mr_id m))"

text \<open>
  Every update of an instance advances its generation by one along an edge of the lifecycle:
  a transition the validator accepts, or the deletion of an instance already marked deleted.
\<close>

definition lifecycle_edge :: "instance_state \<Rightarrow> instance_state \<Rightarrow> bool" where
  "lifecycle_edge s t \<longleftrightarrow> (\<exists>r. valid_transition s t r) \<or> s = Deleted \<and> t = Deleting"

definition instance_step :: "instance_row \<Rightarrow> instance_row \<Rightarrow> bool" where
  "instance_step i j \<longleftrightarrow>
     ir_id j = ir_id i \<and> ir_class_id j = ir_class_id i \<and> ir_class_version j = ir_class_version i
     \<and> ir_values j = ir_values i \<and> ir_generation j = ir_generation i + 1
     \<and> ir_generation i < i64_max \<and> lifecycle_edge (ir_state i) (ir_state j)"

inductive stmt :: "store_db \<Rightarrow> store_db \<Rightarrow> bool" where
  update_materialization:
    "update_materializations now P f db = Inr (ret, db') \<Longrightarrow>
     (\<And>m n. m \<in> set (db_materializations db) \<Longrightarrow> P m \<Longrightarrow> f m = Inr n \<Longrightarrow> row_step db m n) \<Longrightarrow> stmt db db'"
| insert_materialization:
    "insert_materialization now new db = Inr db' \<Longrightarrow>
     mr_id new = materialization_key (mr_instance_id new) (mr_cluster_id new) (mr_namespace new) \<Longrightarrow>
     mr_reconcile_owner new = None \<Longrightarrow> stamped db new \<Longrightarrow> stmt db db'"
| update_instance:
    "update_instances now P f db = Inr (ret', db') \<Longrightarrow>
     (\<And>i j. i \<in> set (db_instances db) \<Longrightarrow> P i \<Longrightarrow> f i = Inr j \<Longrightarrow> instance_step i j) \<Longrightarrow> stmt db db'"
| insert_instance:
    "insert_instance_row now new' db = Inr (row, db') \<Longrightarrow> ir_generation new' = 0 \<Longrightarrow>
     ir_state new' = Cold \<Longrightarrow> is_dns_label (ir_id new') \<Longrightarrow> stmt db db'"
| delete_instance:
    "delete_instances now P' db = Inr (n, db') \<Longrightarrow>
     (\<And>i. i \<in> set (db_instances db) \<Longrightarrow> P' i \<Longrightarrow> ir_state i = Deleting \<and> cleanup_complete db (ir_id i)) \<Longrightarrow>
     stmt db db'"
| insert_route_binding: "insert_route now rr db = Inr db' \<Longrightarrow> route_binding_from_row rr = Inr b \<Longrightarrow> stmt db db'"
| delete_route_binding: "delete_routes now P'' db = Inr (n, db') \<Longrightarrow> stmt db db'"
| deferred_wake:
    "\<forall>d \<in> set ds. dw_instance_generation d \<le> i64_max \<Longrightarrow> stmt db (db\<lparr>db_deferred_wakes := ds\<rparr>)"
| begin_effect:
    "m \<in> set (db_materializations db) \<Longrightarrow> mr_id m = ef_materialization_id e \<Longrightarrow>
     mr_reconcile_attempt m = ef_lease_attempt e \<Longrightarrow> \<not> has_effect db (ef_materialization_id e) \<Longrightarrow>
     stmt db (db\<lparr>db_effects := db_effects db @ [e]\<rparr>)"
| end_effect: "stmt db (db\<lparr>db_effects := filter Q (db_effects db)\<rparr>)"
| bookkeeping:
    "stmt db (db\<lparr>db_classes := cs, db_idempotency := ks, db_audit := audit, db_http01 := hs\<rparr>)"
| prune: "stmt db (snd (prune_outbox now limit db))"

section \<open>Well-formed databases\<close>

definition keyed :: "materialization_row \<Rightarrow> bool" where
  "keyed m \<longleftrightarrow> mr_id m = materialization_key (mr_instance_id m) (mr_cluster_id m) (mr_namespace m)"

definition within_instance :: "instance_row list \<Rightarrow> materialization_row \<Rightarrow> bool" where
  "within_instance is m \<longleftrightarrow>
     (\<exists>i \<in> set is. ir_id i = mr_instance_id m \<and> mr_instance_generation m \<le> ir_generation i)"

definition store_wf :: "store_db \<Rightarrow> bool" where
  "store_wf db \<longleftrightarrow>
     distinct (map ir_id (db_instances db))
     \<and> (\<forall>i \<in> set (db_instances db). is_dns_label (ir_id i)
           \<and> 0 \<le> ir_generation i \<and> ir_generation i \<le> i64_max)
     \<and> (\<forall>d \<in> set (db_deferred_wakes db). dw_instance_generation d \<le> i64_max)
     \<and> distinct (map mr_id (db_materializations db))
     \<and> (\<forall>m \<in> set (db_materializations db). keyed m \<and> within_instance (db_instances db) m)"

lemma row_step_refl: "row_step db m m"
  by (simp add: row_step_def)

lemma row_step_core: "row_core n = row_core n' \<Longrightarrow> row_step db m n \<longleftrightarrow> row_step db m n'"
  by (simp add: row_step_def stamped_def row_core_def)

lemma update_materializations_steps:
  assumes "update_materializations now P f db = Inr (ret, db')"
    and "\<And>m n. m \<in> set (db_materializations db) \<Longrightarrow> P m \<Longrightarrow> f m = Inr n \<Longrightarrow> row_step db m n"
  shows "list_all2 (row_step db) (db_materializations db) (db_materializations db')"
proof -
  obtain rows where rows: "list_all2 (written_row P f) (db_materializations db) rows"
      and db': "db_materializations db' = rows"
    using assms(1) by (rule update_materializations_frame) simp
  have "row_step db m m'" if "m \<in> set (db_materializations db)" "written_row P f m m'" for m m'
    using that assms(2) row_step_refl row_step_core unfolding written_row_def
    by (metis (full_types))
  with rows show ?thesis
    unfolding db' by (auto intro: list.rel_mono_strong)
qed

lemma update_instances_steps:
  assumes "update_instances now P f db = Inr (ret, db')"
    and "\<And>i j. i \<in> set (db_instances db) \<Longrightarrow> P i \<Longrightarrow> f i = Inr j \<Longrightarrow> instance_step i j"
  shows "list_all2 (\<lambda>i j. j = i \<or> instance_step i j) (db_instances db) (db_instances db')"
proof -
  obtain rows where rows: "list_all2 (\<lambda>i i'. (if P i then f i else Inr i) = Inr i') (db_instances db) rows"
      and db': "db_instances db' = rows"
    using assms(1) by (rule update_instances_frame) simp
  show ?thesis
    unfolding db' using rows
    by (rule list.rel_mono_strong) (auto dest: assms(2) split: if_splits)
qed

lemma list_all2_set2: "list_all2 R xs ys \<Longrightarrow> y \<in> set ys \<Longrightarrow> \<exists>x \<in> set xs. R x y"
  by (induction rule: list_all2_induct) auto

lemma list_all2_set1: "list_all2 R xs ys \<Longrightarrow> x \<in> set xs \<Longrightarrow> \<exists>y \<in> set ys. R x y"
  by (induction rule: list_all2_induct) auto

lemma list_all2_map_eq: "list_all2 R xs ys \<Longrightarrow> (\<And>x y. R x y \<Longrightarrow> g y = g x) \<Longrightarrow> map g ys = map g xs"
  by (induction rule: list_all2_induct) auto

end
