(* ===== verification/Store_Invariants.thy ===== *)
theory Store_Invariants
  imports Statements
begin

text \<open>
  Invariants of the store's database, each proved once over the statements: well-formed keys
  and generations, reservations that mirror the rows that own them, watermarks above every
  generation an id ever had, effects fenced to the attempt that began them, and a gap-free
  change feed.
\<close>

section \<open>Frames of the remaining statements\<close>

lemma insert_materialization_frame:
  assumes "insert_materialization now new db = Inr db'"
  obtains os ks r ob where
    "db' = db\<lparr>db_materializations := db_materializations db @ [new], db_object_reservations := os,
       db_key_reservations := ks, db_revision := r, db_outbox := ob\<rparr>"
    "mr_id new \<notin> mr_id ` set (db_materializations db)"
    "mr_instance_id new \<in> ir_id ` set (db_instances db)"
proof -
  obtain mid where fresh: "mr_id new \<notin> mr_id ` set (db_materializations db)"
        "mr_instance_id new \<in> ir_id ` set (db_instances db)"
      and mid: "sync_materialization_reservations None new
        (db\<lparr>db_materializations := db_materializations db @ [new]\<rparr>) = Inr mid"
      and rec: "record_route_changes now [InstanceChange (mr_instance_id new)] mid = Inr db'"
    using assms by (force simp: insert_materialization_def list_ex_iff tryE_Inr split: if_splits)
  show thesis
    using sync_materialization_reservations_frame [OF mid] record_route_changes_frame [OF rec]
      that [OF _ fresh] by auto
qed

definition incarnation :: "watermark_row list \<Rightarrow> instance_row \<Rightarrow> instance_row \<Rightarrow> bool" where
  "incarnation ws new row \<longleftrightarrow>
     (case find_watermark (ir_id new) ws of
        None \<Rightarrow> row = new
      | Some w \<Rightarrow> wm_last_generation w < i64_max
          \<and> row = new\<lparr>ir_generation := max (ir_generation new) (wm_last_generation w + 1)\<rparr>)"

lemma insert_instance_row_frame:
  assumes "insert_instance_row now new db = Inr (row, db')"
  obtains r ob where
    "db' = db\<lparr>db_instances := db_instances db @ [row],
       db_watermarks := raise_watermark (ir_id row) (ir_generation row) (db_watermarks db),
       db_revision := r, db_outbox := ob\<rparr>"
    "incarnation (db_watermarks db) new row"
    "ir_id row = ir_id new" "ir_id row \<notin> ir_id ` set (db_instances db)"
proof -
  have inc: "incarnation (db_watermarks db) new row"
    using assms by (auto simp: insert_instance_row_def incarnation_def tryE_Inr pg_add_def
        split: option.splits if_splits)
  then have ir: "ir_id row = ir_id new"
    by (auto simp: incarnation_def split: option.splits)
  have fresh: "ir_id row \<notin> ir_id ` set (db_instances db)"
    using assms by (auto simp: insert_instance_row_def list_ex_iff tryE_Inr split: if_splits)
  have rec: "record_route_changes now [InstanceChange (ir_id row)]
      (db\<lparr>db_instances := db_instances db @ [row],
         db_watermarks := raise_watermark (ir_id row) (ir_generation row) (db_watermarks db)\<rparr>) = Inr db'"
    using assms by (auto simp: insert_instance_row_def tryE_Inr split: if_splits)
  show thesis
    using record_route_changes_frame [OF rec] that [OF _ inc ir fresh] by auto
qed

definition gone_ids :: "(instance_row \<Rightarrow> bool) \<Rightarrow> store_db \<Rightarrow> string set" where
  "gone_ids P db = ir_id ` {i \<in> set (db_instances db). P i}"

lemma delete_instances_frame:
  assumes "delete_instances now P db = Inr (n, db')"
  obtains ids r ob where
    "db' = db\<lparr>db_instances := filter (\<lambda>i. \<not> P i) (db_instances db),
       db_materializations := filter (\<lambda>m. mr_instance_id m \<notin> gone_ids P db) (db_materializations db),
       db_object_reservations := filter (\<lambda>(k, ow). ow \<notin> mr_id ` {m \<in> set (db_materializations db).
         mr_instance_id m \<in> gone_ids P db}) (db_object_reservations db),
       db_key_reservations := filter (\<lambda>(k, ow). ow \<notin> mr_id ` {m \<in> set (db_materializations db).
         mr_instance_id m \<in> gone_ids P db}) (db_key_reservations db),
       db_deferred_wakes := filter (\<lambda>d. dw_instance_id d \<notin> gone_ids P db) (db_deferred_wakes db),
       db_routes := filter (\<lambda>rt. rr_instance_id rt \<notin> gone_ids P db) (db_routes db),
       db_idempotency := ids, db_revision := r, db_outbox := ob\<rparr>"
    "\<And>e m. e \<in> set (db_effects db) \<Longrightarrow> m \<in> set (db_materializations db) \<Longrightarrow>
       mr_instance_id m \<in> gone_ids P db \<Longrightarrow> ef_materialization_id e \<noteq> mr_id m"
proof -
  have gone: "list_ex (\<lambda>i. ir_id i = iid) (filter P (db_instances db)) \<longleftrightarrow> iid \<in> gone_ids P db" for iid
    by (auto simp: list_ex_iff gone_ids_def)
  have mids: "set (map mr_id (filter (\<lambda>m. mr_instance_id m \<in> gone_ids P db) (db_materializations db)))
      = mr_id ` {m \<in> set (db_materializations db). mr_instance_id m \<in> gone_ids P db}"
    by auto
  note del = assms [unfolded delete_instances_def Let_def gone mids]
  have eff: "ef_materialization_id e \<noteq> mr_id m"
    if "e \<in> set (db_effects db)" "m \<in> set (db_materializations db)" "mr_instance_id m \<in> gone_ids P db" for e m
    using del that by (auto simp: list_ex_iff split: if_splits)
  obtain ps ids where rec: "record_route_changes now ps (db\<lparr>db_instances := filter (\<lambda>i. \<not> P i) (db_instances db),
       db_materializations := filter (\<lambda>m. mr_instance_id m \<notin> gone_ids P db) (db_materializations db),
       db_object_reservations := filter (\<lambda>(k, ow). ow \<notin> mr_id ` {m \<in> set (db_materializations db).
         mr_instance_id m \<in> gone_ids P db}) (db_object_reservations db),
       db_key_reservations := filter (\<lambda>(k, ow). ow \<notin> mr_id ` {m \<in> set (db_materializations db).
         mr_instance_id m \<in> gone_ids P db}) (db_key_reservations db),
       db_deferred_wakes := filter (\<lambda>d. dw_instance_id d \<notin> gone_ids P db) (db_deferred_wakes db),
       db_routes := filter (\<lambda>rt. rr_instance_id rt \<notin> gone_ids P db) (db_routes db),
       db_idempotency := ids\<rparr>) = Inr db'"
    using del by (simp add: tryE_Inr split: if_split_asm) blast
  show thesis
    using record_route_changes_frame [OF rec] that [OF _ eff] by auto
qed

lemma insert_route_frame:
  "insert_route now rt db = Inr db' \<Longrightarrow>
     \<exists>r ob. db' = db\<lparr>db_routes := db_routes db @ [rt], db_revision := r, db_outbox := ob\<rparr>"
  by (auto simp: insert_route_def split: if_splits dest!: record_route_changes_frame)

lemma delete_routes_frame:
  "delete_routes now P db = Inr (n, db') \<Longrightarrow>
     \<exists>ids r ob. db' = db\<lparr>db_routes := filter (\<lambda>r. \<not> P r) (db_routes db), db_idempotency := ids,
        db_revision := r, db_outbox := ob\<rparr>"
  by (auto simp: delete_routes_def Let_def tryE_Inr dest!: record_route_changes_frame)

lemma prune_outbox_frame: "\<exists>ob. snd (prune_outbox now limit db) = db\<lparr>db_outbox := ob\<rparr>"
  by (auto simp: prune_outbox_def Let_def)

section \<open>Well-formedness\<close>

lemma store_wf_empty: "store_wf (empty_db t)"
  by (simp add: store_wf_def empty_db_def)

lemma within_instance_grow:
  assumes "within_instance is m" "list_all2 (\<lambda>i j. j = i \<or> instance_step i j) is js"
  shows "within_instance js m"
proof -
  obtain i where i: "i \<in> set is" "ir_id i = mr_instance_id m" "mr_instance_generation m \<le> ir_generation i"
    using assms(1) by (auto simp: within_instance_def)
  obtain j where "j \<in> set js" "j = i \<or> instance_step i j"
    using list_all2_set1 [OF assms(2) i(1)] by blast
  moreover from this(2) have "ir_id j = ir_id i \<and> ir_generation i \<le> ir_generation j"
    by (auto simp: instance_step_def)
  ultimately show ?thesis
    using i by (force simp: within_instance_def)
qed

lemma stamped_within: "stamped db m \<Longrightarrow> within_instance (db_instances db) m"
  by (auto simp: stamped_def within_instance_def)

lemma row_step_within:
  "row_step db m n \<Longrightarrow> within_instance (db_instances db) m \<Longrightarrow> within_instance (db_instances db) n"
  by (auto simp: row_step_def intro: stamped_within) (auto simp: within_instance_def)

lemma row_step_keyed: "row_step db m n \<Longrightarrow> keyed m \<Longrightarrow> keyed n"
  by (simp add: row_step_def keyed_def)

lemma instance_step_id: "j = i \<or> instance_step i j \<Longrightarrow> ir_id j = ir_id i"
  by (auto simp: instance_step_def)

lemma instance_step_range:
  "j = i \<or> instance_step i j \<Longrightarrow> 0 \<le> ir_generation i \<and> ir_generation i \<le> i64_max \<Longrightarrow>
     0 \<le> ir_generation j \<and> ir_generation j \<le> i64_max"
  by (auto simp: instance_step_def)

lemma store_wf_update_materializations:
  assumes "store_wf db" "list_all2 (row_step db) (db_materializations db) rows"
  shows "store_wf (db\<lparr>db_materializations := rows\<rparr>)"
proof -
  have "map mr_id rows = map mr_id (db_materializations db)"
    by (rule list_all2_map_eq [OF assms(2)]) (simp add: row_step_def)
  moreover have "keyed n \<and> within_instance (db_instances db) n" if "n \<in> set rows" for n
    using list_all2_set2 [OF assms(2) that] assms(1)
    by (auto simp: store_wf_def intro: row_step_within row_step_keyed)
  ultimately show ?thesis
    using assms(1) by (simp add: store_wf_def)
qed

lemma store_wf_update_instances:
  assumes "store_wf db" "list_all2 (\<lambda>i j. j = i \<or> instance_step i j) (db_instances db) rows"
  shows "store_wf (db\<lparr>db_instances := rows\<rparr>)"
proof -
  have "map ir_id rows = map ir_id (db_instances db)"
    by (rule list_all2_map_eq [OF assms(2)]) (rule instance_step_id)
  moreover have "is_dns_label (ir_id j) \<and> 0 \<le> ir_generation j \<and> ir_generation j \<le> i64_max" if mem: "j \<in> set rows" for j
  proof -
    obtain i where "i \<in> set (db_instances db)" "j = i \<or> instance_step i j"
      using list_all2_set2 [OF assms(2) mem] by blast
    then show ?thesis
      using assms(1) instance_step_range [of j i] instance_step_id [of j i] by (simp add: store_wf_def)
  qed
  moreover have "within_instance rows m" if "within_instance (db_instances db) m" for m
    by (rule within_instance_grow [OF that assms(2)])
  ultimately show ?thesis
    using assms(1) by (simp add: store_wf_def)
qed

lemma incarnation_range:
  "incarnation ws new row \<Longrightarrow> ir_generation new = 0 \<Longrightarrow> 0 \<le> ir_generation row \<and> ir_generation row \<le> i64_max"
  by (auto simp: incarnation_def i64_max_def split: option.splits)

lemma store_wf_delete:
  assumes "store_wf db"
  shows "store_wf (db\<lparr>db_instances := filter (\<lambda>i. \<not> P i) (db_instances db),
    db_materializations := filter (\<lambda>m. mr_instance_id m \<notin> gone_ids P db) (db_materializations db)\<rparr>)"
proof -
  have "within_instance (filter (\<lambda>i. \<not> P i) (db_instances db)) m"
    if m: "within_instance (db_instances db) m" "mr_instance_id m \<notin> gone_ids P db" for m
  proof -
    obtain i where "i \<in> set (db_instances db)" "ir_id i = mr_instance_id m"
        "mr_instance_generation m \<le> ir_generation i"
      using m(1) by (auto simp: within_instance_def)
    moreover from this m(2) have "\<not> P i"
      by (auto simp: gone_ids_def image_iff)
    ultimately show ?thesis
      by (auto simp: within_instance_def)
  qed
  with assms show ?thesis
    by (simp add: store_wf_def distinct_map_filter)
qed

lemma store_wf_stmt: "stmt db db' \<Longrightarrow> store_wf db \<Longrightarrow> store_wf db'"
proof (induction rule: stmt.induct)
  case (update_materialization now P f db ret db')
  have steps: "list_all2 (row_step db) (db_materializations db) (db_materializations db')"
    by (rule update_materializations_steps [OF update_materialization.hyps])
  have "db_instances db' = db_instances db" "db_deferred_wakes db' = db_deferred_wakes db"
    by (rule update_materializations_frame [OF update_materialization.hyps(1)], simp)+
  with store_wf_update_materializations [OF update_materialization.prems steps] show ?case
    by (simp add: store_wf_def)
next
  case (insert_materialization now new db db')
  then obtain "db_materializations db' = db_materializations db @ [new]" "db_instances db' = db_instances db"
      "mr_id new \<notin> mr_id ` set (db_materializations db)" "db_deferred_wakes db' = db_deferred_wakes db"
    by (auto elim!: insert_materialization_frame)
  with insert_materialization stamped_within show ?case
    by (auto simp: store_wf_def keyed_def)
next
  case (update_instance now P f db ret' db')
  have steps: "list_all2 (\<lambda>i j. j = i \<or> instance_step i j) (db_instances db) (db_instances db')"
    by (rule update_instances_steps [OF update_instance.hyps])
  have "db_materializations db' = db_materializations db" "db_deferred_wakes db' = db_deferred_wakes db"
    by (rule update_instances_frame [OF update_instance.hyps(1)], simp)+
  with store_wf_update_instances [OF update_instance.prems steps] show ?case
    by (simp add: store_wf_def)
next
  case (insert_instance now new' db row db')
  from insert_instance.hyps(1) show ?case
  proof (rule insert_instance_row_frame)
    fix r ob assume a: "db' = db\<lparr>db_instances := db_instances db @ [row],
        db_watermarks := raise_watermark (ir_id row) (ir_generation row) (db_watermarks db),
        db_revision := r, db_outbox := ob\<rparr>" "incarnation (db_watermarks db) new' row"
      "ir_id row = ir_id new'" "ir_id row \<notin> ir_id ` set (db_instances db)"
    then show "store_wf db'"
      using insert_instance.prems incarnation_range [OF a(2)] insert_instance.hyps(2,4)
      by (auto simp: store_wf_def within_instance_def)
  qed
next
  case (delete_instance now P' db n db')
  then show ?case
    using store_wf_delete [of db P'] by (auto elim!: delete_instances_frame simp: store_wf_def)
next
  case (insert_route_binding now rr db db' b)
  then show ?case by (auto dest!: insert_route_frame simp: store_wf_def)
next
  case (delete_route_binding now P'' db n db')
  then show ?case by (auto dest!: delete_routes_frame simp: store_wf_def)
next
  case (prune db now limit)
  then show ?case using prune_outbox_frame [of now limit db] by (auto simp: store_wf_def)
qed (simp_all add: store_wf_def)

end
