(* ===== verification/Store_Fences.thy ===== *)
theory Store_Fences
  imports Store_Invariants
begin

text \<open>
  The fences of the store: a generation names one state of one incarnation of an instance, a
  lease attempt names one owner, an outstanding effect pins the attempt that began it. Each is
  stated over any sequence of statements.
\<close>

section \<open>Watermarks\<close>

definition high_water :: "store_db \<Rightarrow> string \<Rightarrow> int option" where
  "high_water db iid = map_option wm_last_generation (find_watermark iid (db_watermarks db))"

definition reaches :: "store_db \<Rightarrow> string \<Rightarrow> int \<Rightarrow> bool" where
  "reaches db iid g \<longleftrightarrow> (case high_water db iid of None \<Rightarrow> False | Some h \<Rightarrow> g \<le> h)"

definition watermarks_ok :: "store_db \<Rightarrow> bool" where
  "watermarks_ok db \<longleftrightarrow> (\<forall>i \<in> set (db_instances db). reaches db (ir_id i) (ir_generation i))"

definition mark_reaches :: "watermark_row list \<Rightarrow> string \<Rightarrow> int \<Rightarrow> bool" where
  "mark_reaches ws iid g \<longleftrightarrow> (case find_watermark iid ws of None \<Rightarrow> False | Some w \<Rightarrow> g \<le> wm_last_generation w)"

lemma reaches_mark: "reaches db iid g \<longleftrightarrow> mark_reaches (db_watermarks db) iid g"
  by (auto simp: reaches_def mark_reaches_def high_water_def split: option.splits)

lemma find_watermark_map:
  "find_watermark iid (map (\<lambda>w. if wm_instance_id w = j then w\<lparr>wm_last_generation := max (wm_last_generation w) g\<rparr> else w) ws)
     = map_option (\<lambda>w. if iid = j then w\<lparr>wm_last_generation := max (wm_last_generation w) g\<rparr> else w)
         (find_watermark iid ws)"
  by (induction ws) (auto simp: find_watermark_def)

lemma find_watermark_append:
  "find_watermark iid (ws @ [w]) = (case find_watermark iid ws of
      Some v \<Rightarrow> Some v | None \<Rightarrow> if wm_instance_id w = iid then Some w else None)"
  by (induction ws) (auto simp: find_watermark_def)

lemma find_watermark_ex: "list_ex (\<lambda>w. wm_instance_id w = iid) ws \<longleftrightarrow> find_watermark iid ws \<noteq> None"
  by (auto simp: find_watermark_def find_None_iff list_ex_iff)

lemma mark_reaches_raise:
  "mark_reaches (raise_watermark j g ws) iid h \<longleftrightarrow> mark_reaches ws iid h \<or> iid = j \<and> h \<le> g"
  by (auto simp: mark_reaches_def raise_watermark_def find_watermark_map find_watermark_append
      find_watermark_ex split: option.splits if_splits)

lemma mark_reaches_fold:
  "mark_reaches (fold (\<lambda>(old, new). raise_watermark (ir_id new) (ir_generation new)) ps ws) iid h \<longleftrightarrow>
     mark_reaches ws iid h \<or> (\<exists>(old, new) \<in> set ps. ir_id new = iid \<and> h \<le> ir_generation new)"
  by (induction ps arbitrary: ws) (auto simp: mark_reaches_raise)

lemma incarnation_fresh:
  "incarnation ws new row \<Longrightarrow> mark_reaches ws (ir_id row) h \<Longrightarrow> h < ir_generation row"
  by (auto simp: incarnation_def mark_reaches_def split: option.splits)

text \<open>A watermark never falls, not even when its instance is deleted.\<close>

lemma reaches_stmt: "stmt db db' \<Longrightarrow> reaches db iid g \<Longrightarrow> reaches db' iid g"
proof (induction rule: stmt.induct)
  case (update_materialization now P f db ret db')
  then show ?case by (elim update_materializations_frame) (simp add: reaches_mark)
next
  case (insert_materialization now new db db')
  then show ?case by (elim insert_materialization_frame) (simp add: reaches_mark)
next
  case (update_instance now P f db ret' db')
  then show ?case by (elim update_instances_frame) (simp add: reaches_mark mark_reaches_fold)
next
  case (insert_instance now new' db row db')
  then show ?case by (elim insert_instance_row_frame) (simp add: reaches_mark mark_reaches_raise)
next
  case (delete_instance now P' db n db')
  then show ?case by (elim delete_instances_frame) (simp add: reaches_mark)
next
  case (insert_route_binding now rr db db' b)
  then show ?case by (auto dest!: insert_route_frame simp: reaches_mark)
next
  case (delete_route_binding now P'' db n db')
  then show ?case by (auto dest!: delete_routes_frame simp: reaches_mark)
next
  case (prune db now limit)
  then show ?case using prune_outbox_frame [of now limit db] by (auto simp: reaches_mark)
qed (simp_all add: reaches_mark)

lemma watermarks_ok_empty: "watermarks_ok (empty_db t)"
  by (simp add: watermarks_ok_def empty_db_def)

lemma zip_unselected:
  assumes "list_all2 (\<lambda>i i'. (if P i then f i else Inr i) = Inr i') xs ys" "y \<in> set ys"
  shows "y \<in> set xs \<or> (\<exists>x. (x, y) \<in> set (filter (P \<circ> fst) (zip xs ys)))"
  using assms by (induction rule: list_all2_induct) (auto split: if_splits)

lemma watermarks_ok_update_instances:
  assumes "update_instances now P f db = Inr (ret, db')" "watermarks_ok db"
  shows "watermarks_ok db'"
  using assms(1)
proof (rule update_instances_frame)
  fix rows r ob
  assume db': "db' = db\<lparr>db_instances := rows,
      db_watermarks := fold (\<lambda>(old, new). raise_watermark (ir_id new) (ir_generation new))
        (filter (P \<circ> fst) (zip (db_instances db) rows)) (db_watermarks db),
      db_revision := r, db_outbox := ob\<rparr>"
    and rows: "list_all2 (\<lambda>i i'. (if P i then f i else Inr i) = Inr i') (db_instances db) rows"
  have "reaches db' (ir_id j) (ir_generation j)" if "j \<in> set rows" for j
    using zip_unselected [OF rows that] assms(2)
    unfolding db' reaches_mark watermarks_ok_def by (auto simp: mark_reaches_fold)
  then show "watermarks_ok db'"
    by (simp add: watermarks_ok_def db')
qed

lemma watermarks_ok_stmt: "stmt db db' \<Longrightarrow> watermarks_ok db \<Longrightarrow> watermarks_ok db'"
proof (induction rule: stmt.induct)
  case (update_materialization now P f db ret db')
  then show ?case by (elim update_materializations_frame) (simp add: watermarks_ok_def reaches_mark)
next
  case (insert_materialization now new db db')
  then show ?case by (elim insert_materialization_frame) (simp add: watermarks_ok_def reaches_mark)
next
  case (update_instance now P f db ret' db')
  then show ?case by (simp add: watermarks_ok_update_instances)
next
  case (insert_instance now new' db row db')
  then show ?case
    by (elim insert_instance_row_frame) (simp add: watermarks_ok_def reaches_mark mark_reaches_raise)
next
  case (delete_instance now P' db n db')
  then show ?case by (elim delete_instances_frame) (simp add: watermarks_ok_def reaches_mark)
next
  case (insert_route_binding now rr db db' b)
  then show ?case by (auto dest!: insert_route_frame simp: watermarks_ok_def reaches_mark)
next
  case (delete_route_binding now P'' db n db')
  then show ?case by (auto dest!: delete_routes_frame simp: watermarks_ok_def reaches_mark)
next
  case (prune db now limit)
  then show ?case
    using prune_outbox_frame [of now limit db] by (auto simp: watermarks_ok_def reaches_mark)
qed (simp_all add: watermarks_ok_def reaches_mark)

section \<open>What a statement does to instances and to materializations\<close>

text \<open>
  The rows of both tables change in one of three ways: each row steps or stays, one row is
  added, or rows are removed.
\<close>

lemma list_all2_refl_steps: "(\<And>x. R x x) \<Longrightarrow> list_all2 R xs xs"
  by (simp add: list_all2_same)

lemma incarnation_state: "incarnation ws new row \<Longrightarrow> ir_state row = ir_state new"
  by (auto simp: incarnation_def split: option.splits)

lemma stmt_instances:
  assumes "stmt db db'"
  obtains (steps) "list_all2 (\<lambda>i j. j = i \<or> instance_step i j) (db_instances db) (db_instances db')"
  | (added) new row where "db_instances db' = db_instances db @ [row]"
      "incarnation (db_watermarks db) new row" "ir_state row = Cold" "ir_generation new = 0"
  | (removed) P where "db_instances db' = filter (\<lambda>i. \<not> P i) (db_instances db)"
      "\<forall>i \<in> set (db_instances db). P i \<longrightarrow> ir_state i = Deleting \<and> cleanup_complete db (ir_id i)"
  using assms
proof (cases rule: stmt.cases)
  case (update_instance now P f ret')
  then show ?thesis by (intro steps) (rule update_instances_steps)
next
  case (insert_instance now new' row)
  from insert_instance(1) show ?thesis
    by (rule insert_instance_row_frame)
      (rule added [of row new'], use insert_instance(2,3) incarnation_state in auto)
next
  case (delete_instance now P' n)
  from delete_instance(1) show ?thesis
    by (rule delete_instances_frame) (use delete_instance(2) in \<open>intro removed, auto\<close>)
next
  case (update_materialization now P f ret)
  from update_materialization(1) show ?thesis
    by (rule update_materializations_frame) (intro steps, simp add: list_all2_refl_steps)
next
  case (insert_materialization now new)
  from insert_materialization(1) show ?thesis
    by (rule insert_materialization_frame) (intro steps, simp add: list_all2_refl_steps)
next
  case (prune now limit)
  then show ?thesis
    using prune_outbox_frame [of now limit db] by (intro steps) (auto simp: list_all2_refl_steps)
qed (intro steps, auto simp: list_all2_refl_steps dest!: insert_route_frame delete_routes_frame)

lemma stmt_rows:
  assumes "stmt db db'"
  obtains (steps) "list_all2 (row_step db) (db_materializations db) (db_materializations db')"
  | (added) new where "db_materializations db' = db_materializations db @ [new]" "keyed new"
      "mr_id new \<notin> mr_id ` set (db_materializations db)" "stamped db new"
      "mr_reconcile_owner new = None"
  | (removed) P where "db_materializations db' = filter (\<lambda>m. mr_instance_id m \<notin> gone_ids P db) (db_materializations db)"
      "\<forall>i \<in> set (db_instances db). P i \<longrightarrow> ir_state i = Deleting \<and> cleanup_complete db (ir_id i)"
      "db_instances db' = filter (\<lambda>i. \<not> P i) (db_instances db)" "db_watermarks db' = db_watermarks db"
      "\<forall>e \<in> set (db_effects db). \<forall>m \<in> set (db_materializations db).
         mr_instance_id m \<in> gone_ids P db \<longrightarrow> ef_materialization_id e \<noteq> mr_id m"
  using assms
proof (cases rule: stmt.cases)
  case (update_materialization now P f ret)
  then show ?thesis by (intro steps) (rule update_materializations_steps)
next
  case (insert_materialization now new)
  from insert_materialization(1) show ?thesis
    by (rule insert_materialization_frame)
      (use insert_materialization(2-4) in \<open>intro added, auto simp: keyed_def\<close>)
next
  case (delete_instance now P' n)
  from delete_instance(1) show ?thesis
    by (rule delete_instances_frame) (use delete_instance(2) in \<open>intro removed, auto\<close>)
next
  case (update_instance now P f ret')
  from update_instance(1) show ?thesis
    by (rule update_instances_frame) (intro steps, simp add: list_all2_refl_steps row_step_refl)
next
  case (insert_instance now new' row)
  from insert_instance(1) show ?thesis
    by (rule insert_instance_row_frame) (intro steps, simp add: list_all2_refl_steps row_step_refl)
next
  case (prune now limit)
  then show ?thesis
    using prune_outbox_frame [of now limit db]
    by (intro steps) (auto simp: list_all2_refl_steps row_step_refl)
qed (intro steps, auto simp: list_all2_refl_steps row_step_refl dest!: insert_route_frame delete_routes_frame)

section \<open>A generation names one state\<close>

lemma generation_fence_stmt:
  assumes "stmt db db'" "reaches db (ir_id i) (ir_generation i)"
    and "\<forall>j \<in> set (db_instances db). ir_id j = ir_id i \<longrightarrow> j = i \<or> ir_generation i < ir_generation j"
  shows "\<forall>j \<in> set (db_instances db'). ir_id j = ir_id i \<longrightarrow> j = i \<or> ir_generation i < ir_generation j"
  using assms(1)
proof (cases rule: stmt_instances)
  case steps
  then show ?thesis
    using assms(3) by (force dest: list_all2_set2 simp: instance_step_def)
next
  case (added new row)
  then have "ir_id row = ir_id i \<Longrightarrow> ir_generation i < ir_generation row"
    using incarnation_fresh [of "db_watermarks db" new row] assms(2) by (simp add: reaches_mark)
  then show ?thesis
    using assms(3) added by auto
qed (use assms(3) in auto)

lemma generation_fence:
  assumes "stmt\<^sup>*\<^sup>* db db'" "store_wf db" "watermarks_ok db" "i \<in> set (db_instances db)"
    and "j \<in> set (db_instances db')" "ir_id j = ir_id i"
  shows "j = i \<or> ir_generation i < ir_generation j"
proof -
  have start: "reaches db (ir_id i) (ir_generation i)"
      "\<forall>j \<in> set (db_instances db). ir_id j = ir_id i \<longrightarrow> j = i"
    using assms(2-4) unfolding watermarks_ok_def store_wf_def distinct_map inj_on_def by blast+
  from assms(1) have "reaches db' (ir_id i) (ir_generation i) \<and>
      (\<forall>j \<in> set (db_instances db'). ir_id j = ir_id i \<longrightarrow> j = i \<or> ir_generation i < ir_generation j)"
  proof induction
    case (step mid db')
    then show ?case
      using generation_fence_stmt reaches_stmt by blast
  qed (use start in auto)
  with assms(5,6) show ?thesis by blast
qed

end
