(* ===== verification/Lease_Fences.thy ===== *)
theory Lease_Fences
  imports Store_Fences
begin

text \<open>
  Leases and effects across any sequence of statements: an outstanding effect keeps the attempt
  of its materialization, and one attempt at one generation never has two owners, not even when
  the instance is deleted and created again in between.
\<close>

section \<open>Effects\<close>

definition effects_ok :: "store_db \<Rightarrow> bool" where
  "effects_ok db \<longleftrightarrow>
     distinct (map ef_materialization_id (db_effects db))
     \<and> (\<forall>e \<in> set (db_effects db). \<exists>m \<in> set (db_materializations db).
          mr_id m = ef_materialization_id e \<and> mr_reconcile_attempt m = ef_lease_attempt e)"

lemma stmt_effects:
  assumes "stmt db db'"
  obtains (same) "db_effects db' = db_effects db"
  | (begun) m e where "db' = db\<lparr>db_effects := db_effects db @ [e]\<rparr>" "m \<in> set (db_materializations db)"
      "mr_id m = ef_materialization_id e" "mr_reconcile_attempt m = ef_lease_attempt e"
      "\<not> has_effect db (ef_materialization_id e)"
  | (ended) Q where "db' = db\<lparr>db_effects := filter Q (db_effects db)\<rparr>"
  using assms
proof (cases rule: stmt.cases)
  case (update_materialization now P f ret)
  from update_materialization(1) show ?thesis
    by (rule update_materializations_frame) (intro same, simp)
next
  case (insert_materialization now new)
  from insert_materialization(1) show ?thesis
    by (rule insert_materialization_frame) (intro same, simp)
next
  case (update_instance now P f ret')
  from update_instance(1) show ?thesis
    by (rule update_instances_frame) (intro same, simp)
next
  case (insert_instance now new' row)
  from insert_instance(1) show ?thesis
    by (rule insert_instance_row_frame) (intro same, simp)
next
  case (delete_instance now P' n)
  from delete_instance(1) show ?thesis
    by (rule delete_instances_frame) (intro same, simp)
next
  case (begin_effect m e)
  then show ?thesis by (intro begun)
next
  case (end_effect Q)
  then show ?thesis by (intro ended)
next
  case (prune now limit)
  then show ?thesis
    using prune_outbox_frame [of now limit db] by (intro same) auto
qed (intro same, auto dest!: insert_route_frame delete_routes_frame)

lemma has_effect_iff: "has_effect db mid \<longleftrightarrow> mid \<in> ef_materialization_id ` set (db_effects db)"
  by (auto simp: has_effect_def list_ex_iff)

lemma row_step_attempt:
  "row_step db m n \<Longrightarrow> has_effect db (mr_id m) \<Longrightarrow> mr_reconcile_attempt n = mr_reconcile_attempt m"
  by (auto simp: row_step_def)

lemma effects_ok_rows:
  assumes "stmt db db'" "db_effects db' = db_effects db" "effects_ok db"
  shows "effects_ok db'"
proof -
  have "\<exists>n \<in> set (db_materializations db'). mr_id n = ef_materialization_id e
      \<and> mr_reconcile_attempt n = ef_lease_attempt e" if e: "e \<in> set (db_effects db)" for e
  proof -
    obtain m where m: "m \<in> set (db_materializations db)" "mr_id m = ef_materialization_id e"
        "mr_reconcile_attempt m = ef_lease_attempt e"
      using assms(3) e by (auto simp: effects_ok_def)
    have busy: "has_effect db (mr_id m)"
      using e m(2) by (simp add: has_effect_iff)
    from assms(1) show ?thesis
    proof (cases rule: stmt_rows)
      case steps
      from list_all2_set1 [OF this m(1)] show ?thesis
        using busy m(2,3) by (auto dest: row_step_attempt simp: row_step_def)
    next
      case (added new)
      then show ?thesis using m by auto
    next
      case (removed P)
      have "mr_instance_id m \<notin> gone_ids P db"
        using bspec [OF bspec [OF removed(5) e] m(1)] m(2) by auto
      then show ?thesis using m removed(1) by auto
    qed
  qed
  with assms(2,3) show ?thesis
    by (simp add: effects_ok_def)
qed

lemma effects_ok_stmt:
  assumes "stmt db db'" "effects_ok db"
  shows "effects_ok db'"
  using assms(1)
proof (cases rule: stmt_effects)
  case same
  from effects_ok_rows [OF assms(1) this assms(2)] show ?thesis .
next
  case (begun m e)
  with assms(2) show ?thesis by (auto simp: effects_ok_def has_effect_iff)
next
  case (ended Q)
  with assms(2) show ?thesis by (auto simp: effects_ok_def distinct_map_filter)
qed

lemma effects_ok_empty: "effects_ok (empty_db t)"
  by (simp add: effects_ok_def empty_db_def)

section \<open>An attempt has one owner\<close>

lemma wf_row:
  "store_wf db \<Longrightarrow> m \<in> set (db_materializations db) \<Longrightarrow> keyed m \<and> is_dns_label (mr_instance_id m)"
  unfolding store_wf_def within_instance_def by metis

lemma key_instance:
  assumes "store_wf db" "m \<in> set (db_materializations db)" "keyed n" "is_dns_label (mr_instance_id n)"
    and "mr_id n = mr_id m"
  shows "mr_instance_id n = mr_instance_id m"
proof -
  have "keyed m" "is_dns_label (mr_instance_id m)"
    using wf_row [OF assms(1,2)] by simp_all
  with assms(3-5) show ?thesis
    using colon_separates [of "mr_instance_id n" "mr_cluster_id n @ CHR '':'' # mr_namespace n" "mr_instance_id m"
        "mr_cluster_id m @ CHR '':'' # mr_namespace m"] is_dns_label_no_colon
    by (auto simp: keyed_def materialization_key_def)
qed

lemma instance_unique:
  "store_wf db \<Longrightarrow> i \<in> set (db_instances db) \<Longrightarrow> j \<in> set (db_instances db) \<Longrightarrow> ir_id i = ir_id j \<Longrightarrow> i = j"
  by (auto simp: store_wf_def distinct_map dest: inj_onD)

lemma row_unique:
  "store_wf db \<Longrightarrow> m \<in> set (db_materializations db) \<Longrightarrow> n \<in> set (db_materializations db) \<Longrightarrow>
     mr_id m = mr_id n \<Longrightarrow> m = n"
  by (auto simp: store_wf_def distinct_map dest: inj_onD)

text \<open>Generations of a row never fall.\<close>

lemma row_step_generation:
  assumes "store_wf db" "m \<in> set (db_materializations db)" "row_step db m n"
  shows "mr_instance_generation m \<le> mr_instance_generation n"
proof (cases "stamped db n")
  case True
  then obtain i where i: "i \<in> set (db_instances db)" "ir_id i = mr_instance_id n"
      "ir_generation i = mr_instance_generation n"
    by (auto simp: stamped_def)
  obtain j where j: "j \<in> set (db_instances db)" "ir_id j = mr_instance_id m"
      "mr_instance_generation m \<le> ir_generation j"
    using assms(1,2) by (auto simp: store_wf_def within_instance_def)
  have "i = j"
    using assms(1,3) i j by (intro instance_unique) (auto simp: row_step_def)
  with i j show ?thesis by simp
qed (use assms(3) in \<open>auto simp: row_step_def\<close>)

definition fenced :: "materialization_row \<Rightarrow> materialization_row \<Rightarrow> bool" where
  "fenced m n \<longleftrightarrow>
     mr_instance_generation m < mr_instance_generation n
     \<or> mr_reconcile_attempt m < mr_reconcile_attempt n
     \<or> mr_reconcile_attempt n = mr_reconcile_attempt m
        \<and> (mr_reconcile_owner n = None \<or> mr_reconcile_owner n = mr_reconcile_owner m)"

text \<open>
  Every row with the id is fenced; while there is none, its instance is gone or is a later
  incarnation.
\<close>

definition row_fenced :: "materialization_row \<Rightarrow> store_db \<Rightarrow> bool" where
  "row_fenced m db \<longleftrightarrow>
     reaches db (mr_instance_id m) (mr_instance_generation m)
     \<and> (\<forall>n \<in> set (db_materializations db). mr_id n = mr_id m \<longrightarrow> fenced m n)
     \<and> (mr_id m \<in> mr_id ` set (db_materializations db)
        \<or> (\<forall>i \<in> set (db_instances db). ir_id i = mr_instance_id m \<longrightarrow> mr_instance_generation m < ir_generation i))"

lemma fenced_step:
  assumes "store_wf db" "n \<in> set (db_materializations db)" "row_step db n n'" "fenced m n"
  shows "fenced m n'"
  using row_step_generation [OF assms(1-3)] assms(3,4) by (auto simp: fenced_def row_step_def)

lemma gone_row:
  assumes "store_wf db" "m \<in> set (db_materializations db)" "mr_instance_id m \<in> gone_ids P db"
    and "i \<in> set (filter (\<lambda>i. \<not> P i) (db_instances db))"
  shows "ir_id i \<noteq> mr_instance_id m"
  using assms(3,4) by (auto simp: gone_ids_def dest: instance_unique [OF assms(1)])

lemma row_fenced_added:
  assumes "store_wf db" "is_dns_label (mr_instance_id m)" "keyed m" "row_fenced m db"
    and "db_materializations db' = db_materializations db @ [new]" "keyed new"
    and "mr_id new \<notin> mr_id ` set (db_materializations db)" "stamped db new"
    and "n \<in> set (db_materializations db')" "mr_id n = mr_id m"
  shows "fenced m n"
proof (cases "n = new")
  case True
  obtain i where i: "i \<in> set (db_instances db)" "ir_id i = mr_instance_id new"
      "ir_generation i = mr_instance_generation new"
    using assms(8) by (auto simp: stamped_def)
  have "is_dns_label (mr_instance_id new)"
    using assms(1) i by (auto simp: store_wf_def)
  then have "mr_instance_id new = mr_instance_id m"
    using colon_separates [of "mr_instance_id new" "mr_cluster_id new @ CHR '':'' # mr_namespace new"
        "mr_instance_id m" "mr_cluster_id m @ CHR '':'' # mr_namespace m"] is_dns_label_no_colon
      assms(2,3,6,10) True by (auto simp: keyed_def materialization_key_def)
  moreover have "mr_id m \<notin> mr_id ` set (db_materializations db)"
    using assms(7,10) True by simp
  ultimately show ?thesis
    using assms(4) i True by (auto simp: row_fenced_def fenced_def)
qed (use assms(4,5,9,10) in \<open>auto simp: row_fenced_def\<close>)

lemma row_fenced_stmt:
  assumes "stmt db db'" "store_wf db" "is_dns_label (mr_instance_id m)" "keyed m" "row_fenced m db"
  shows "row_fenced m db'"
proof -
  let ?later = "\<lambda>db. \<forall>i \<in> set (db_instances db). ir_id i = mr_instance_id m \<longrightarrow>
    mr_instance_generation m < ir_generation i"
  have marks: "reaches db' (mr_instance_id m) (mr_instance_generation m)"
    using assms(1,5) reaches_stmt by (simp add: row_fenced_def)
  have later: "?later db'" if "?later db"
    using assms(1)
  proof (cases rule: stmt_instances)
    case steps
    then show ?thesis using that by (force dest: list_all2_set2 simp: instance_step_def)
  next
    case (added new row)
    then show ?thesis
      using that assms(5) incarnation_fresh [of "db_watermarks db" new row]
      by (auto simp: row_fenced_def reaches_mark)
  qed (use that in auto)
  have "(\<forall>n \<in> set (db_materializations db'). mr_id n = mr_id m \<longrightarrow> fenced m n)
      \<and> (mr_id m \<in> mr_id ` set (db_materializations db') \<or> ?later db')"
    using assms(1)
  proof (cases rule: stmt_rows)
    case steps
    have "map mr_id (db_materializations db') = map mr_id (db_materializations db)"
      by (rule list_all2_map_eq [OF steps]) (simp add: row_step_def)
    then have "mr_id ` set (db_materializations db') = mr_id ` set (db_materializations db)"
      by (metis list.set_map)
    moreover have "fenced m n" if "n \<in> set (db_materializations db')" "mr_id n = mr_id m" for n
      using list_all2_set2 [OF steps that(1)] that(2) assms(2,5)
      by (auto simp: row_fenced_def row_step_def intro: fenced_step [OF assms(2)])
    ultimately show ?thesis
      using assms(5) later by (auto simp: row_fenced_def)
  next
    case (added new)
    with assms(5) later row_fenced_added [OF assms(2-5) added(1-4)] show ?thesis
      by (auto simp: row_fenced_def)
  next
    case (removed P)
    have "?later db'" if "mr_id m \<notin> mr_id ` set (db_materializations db')"
        "n \<in> set (db_materializations db)" "mr_id n = mr_id m" for n
    proof -
      have "mr_instance_id n = mr_instance_id m"
        using key_instance [OF assms(2) that(2) assms(4,3)] that(3) by simp
      moreover have "mr_instance_id n \<in> gone_ids P db"
        using that removed(1) by (auto simp: image_iff)
      ultimately show ?thesis
        using gone_row [OF assms(2) that(2)] removed(3) by auto
    qed
    with assms(5) later removed(1) show ?thesis
      by (auto simp: row_fenced_def)
  qed
  with marks show ?thesis by (simp add: row_fenced_def)
qed

lemma lease_fence:
  assumes "stmt\<^sup>*\<^sup>* db db'" "store_wf db" "watermarks_ok db" "m \<in> set (db_materializations db)"
    and "n \<in> set (db_materializations db')" "mr_id n = mr_id m"
  shows "fenced m n"
proof -
  obtain i where i: "i \<in> set (db_instances db)" "ir_id i = mr_instance_id m"
      "mr_instance_generation m \<le> ir_generation i"
    using assms(2,4) by (auto simp: store_wf_def within_instance_def)
  have "reaches db (mr_instance_id m) (mr_instance_generation m)"
    using assms(3) i by (force simp: watermarks_ok_def reaches_def split: option.splits)
  then have start: "row_fenced m db"
    using assms(4) row_unique [OF assms(2) _ assms(4)] by (auto simp: row_fenced_def fenced_def)
  have m: "is_dns_label (mr_instance_id m)" "keyed m"
    using wf_row [OF assms(2,4)] by simp_all
  from assms(1) have "store_wf db' \<and> row_fenced m db'"
  proof induction
    case (step mid db')
    then show ?case
      using store_wf_stmt row_fenced_stmt [OF _ _ m] by blast
  qed (use start assms(2) in simp)
  with assms(5,6) show ?thesis by (auto simp: row_fenced_def)
qed

end
