(* ===== verification/Reservation_Invariant.thy ===== *)
theory Reservation_Invariant
  imports Store_Invariants
begin

text \<open>
  The two reservation tables always mirror the materializations that own their keys, so no two
  live materializations hold the same Kubernetes object or the same exclusivity key. Both tables
  are instances of the contract of \<^theory_text>\<open>Reservations\<close>.
\<close>

interpretation objects: reservation_table mr_id held_objects .

interpretation exclusivity: reservation_table mr_id held_keys .

definition reservations_ok :: "store_db \<Rightarrow> bool" where
  "reservations_ok db \<longleftrightarrow>
     objects.reserved (db_materializations db) (db_object_reservations db)
     \<and> exclusivity.reserved (db_materializations db) (db_key_reservations db)"

definition both_reserved :: "materialization_row list \<Rightarrow> store_db \<Rightarrow> bool" where
  "both_reserved rows db \<longleftrightarrow>
     objects.reserved rows (db_object_reservations db) \<and> exclusivity.reserved rows (db_key_reservations db)"

lemma sync_one_reserved:
  assumes "sync_materialization_reservations (Some old) new db = Inr mid" "mr_id new = mr_id old"
    and "distinct (map mr_id (A @ old # B))" "both_reserved (A @ old # B) db"
  shows "both_reserved (A @ new # B) mid"
proof (cases "mr_state new = mr_state old \<and> mr_rendered_objects new = mr_rendered_objects old
    \<and> mr_exclusivity_keys new = mr_exclusivity_keys old
    \<and> mr_cluster_id new = mr_cluster_id old \<and> mr_namespace new = mr_namespace old")
  case True
  then have "mid = db" "held_objects new = held_objects old" "held_keys new = held_keys old"
    using assms(1) by (simp_all add: sync_materialization_reservations_def held_objects_def held_keys_def)
  with assms(2,4) show ?thesis
    using objects.reserved_same [of A old B _ new] exclusivity.reserved_same [of A old B _ new]
    by (simp add: both_reserved_def)
next
  case False
  then obtain os ks where
      "acquire (mr_id new) (held_objects new) (release_all (mr_id new) (db_object_reservations db)) = Inr os"
      "acquire (mr_id new) (held_keys new) (release_all (mr_id new) (db_key_reservations db)) = Inr ks"
      "db_object_reservations mid = os" "db_key_reservations mid = ks"
    using assms(1) by (auto simp: sync_materialization_reservations_def Let_def split: if_splits sum.splits)
  with assms(4) show ?thesis
    using objects.reserved_sync [OF _ assms(3,2) _ HOL.refl] exclusivity.reserved_sync [OF _ assms(3,2) _ HOL.refl]
    by (auto simp: both_reserved_def)
qed

lemma sync_rows_reserved:
  assumes "sync_rows (filter (P \<circ> fst) ps) db = Inr db'"
    and "\<forall>(old, new) \<in> set ps. mr_id new = mr_id old \<and> (\<not> P old \<longrightarrow> new = old)"
    and "distinct (map mr_id (A @ map fst ps))" "both_reserved (A @ map fst ps) db"
  shows "both_reserved (A @ map snd ps) db'"
  using assms
proof (induction ps arbitrary: A db)
  case (Cons p ps)
  obtain old new where p: "p = (old, new)" by force
  have same: "mr_id new = mr_id old" using Cons.prems(2) p by simp
  have tl: "\<forall>(old, new) \<in> set ps. mr_id new = mr_id old \<and> (\<not> P old \<longrightarrow> new = old)"
    using Cons.prems(2) by simp
  have ids: "distinct (map mr_id ((A @ [new]) @ map fst ps))"
    using Cons.prems(3) p same by simp
  show ?case
  proof (cases "P old")
    case True
    then obtain mid where mid: "sync_materialization_reservations (Some old) new db = Inr mid"
        and rest: "sync_rows (filter (P \<circ> fst) ps) mid = Inr db'"
      using Cons.prems(1) p by (auto simp: tryE_Inr comp_def)
    have "both_reserved (A @ new # map fst ps) mid"
      by (rule sync_one_reserved [OF mid same]) (use Cons.prems(3,4) p in simp_all)
    with Cons.IH [OF rest tl ids] p show ?thesis
      by simp
  next
    case False
    then have new: "new = old" and rest: "sync_rows (filter (P \<circ> fst) ps) db = Inr db'"
      using Cons.prems(1,2) p by (simp_all add: comp_def)
    from Cons.IH [OF rest tl ids] Cons.prems(4) p new show ?thesis
      by simp
  qed
qed simp

lemma written_row_unselected: "written_row P f m m' \<Longrightarrow> \<not> P m \<Longrightarrow> m' = m"
  by (simp add: written_row_def)

lemma row_step_id: "row_step db m n \<Longrightarrow> mr_id n = mr_id m"
  by (simp add: row_step_def)

lemma list_all2_zip: "list_all2 R xs ys \<Longrightarrow> (x, y) \<in> set (zip xs ys) \<Longrightarrow> R x y"
  by (auto simp: list_all2_iff)

lemma reservations_ok_update:
  assumes upd: "update_materializations now P f db = Inr (ret, db')"
    and steps: "\<And>m n. m \<in> set (db_materializations db) \<Longrightarrow> P m \<Longrightarrow> f m = Inr n \<Longrightarrow> row_step db m n"
    and wf: "store_wf db" and ok: "reservations_ok db"
  shows "reservations_ok db'"
proof -
  let ?old = "db_materializations db"
  from upd obtain rows mid ps where
      rows: "collectE (update_row now (db_operation_timeout db) P f) ?old = Inr rows"
      and sync: "sync_rows (filter (P \<circ> fst) (zip ?old rows)) (db\<lparr>db_materializations := rows\<rparr>) = Inr mid"
      and rec: "record_route_changes now ps mid = Inr db'"
    by (rule update_materializations_parts)
  have written: "list_all2 (written_row P f) ?old rows"
    using rows unfolding collectE_Inr by (rule list_all2_mono) (rule update_row_Inr)
  then have len: "length rows = length ?old"
    by (simp add: list_all2_lengthD)
  obtain os ks where mid: "mid = db\<lparr>db_materializations := rows, db_object_reservations := os, db_key_reservations := ks\<rparr>"
    using sync_rows_frame [OF sync] by auto
  obtain r ob where db': "db' = mid\<lparr>db_revision := r, db_outbox := ob\<rparr>"
    using record_route_changes_frame [OF rec] by blast
  have "db_materializations db' = rows"
    unfolding db' mid by simp
  moreover have "list_all2 (row_step db) ?old (db_materializations db')"
    using upd by (rule update_materializations_steps) (rule steps)
  ultimately have "list_all2 (row_step db) ?old rows"
    by simp
  then have "\<forall>(old, new) \<in> set (zip ?old rows). mr_id new = mr_id old \<and> (\<not> P old \<longrightarrow> new = old)"
    by (auto dest: list_all2_zip [OF written] list_all2_zip row_step_id written_row_unselected)
  then have "both_reserved ([] @ map snd (zip ?old rows)) mid"
    by (rule sync_rows_reserved [OF sync])
      (use wf ok len in \<open>simp_all add: store_wf_def reservations_ok_def both_reserved_def\<close>)
  then show ?thesis
    using len by (simp add: db' mid both_reserved_def reservations_ok_def)
qed

lemma reservations_ok_insert:
  assumes "insert_materialization now new db = Inr db'" "reservations_ok db"
  shows "reservations_ok db'"
proof -
  obtain mid where fresh: "mr_id new \<notin> mr_id ` set (db_materializations db)"
      and mid: "sync_materialization_reservations None new
        (db\<lparr>db_materializations := db_materializations db @ [new]\<rparr>) = Inr mid"
      and rec: "record_route_changes now [InstanceChange (mr_instance_id new)] mid = Inr db'"
    using assms(1) by (force simp: insert_materialization_def list_ex_iff tryE_Inr split: if_splits)
  obtain os ks where
      "acquire (mr_id new) (held_objects new) (release_all (mr_id new) (db_object_reservations db)) = Inr os"
      "acquire (mr_id new) (held_keys new) (release_all (mr_id new) (db_key_reservations db)) = Inr ks"
      "db_object_reservations mid = os" "db_key_reservations mid = ks"
      "db_materializations mid = db_materializations db @ [new]"
    using mid by (auto simp: sync_materialization_reservations_def Let_def split: sum.splits)
  with record_route_changes_frame [OF rec] assms(2) fresh show ?thesis
    by (auto simp: reservations_ok_def objects.reserved_insert exclusivity.reserved_insert)
qed

lemma reservations_ok_cong:
  "db_materializations db' = db_materializations db \<Longrightarrow>
   db_object_reservations db' = db_object_reservations db \<Longrightarrow>
   db_key_reservations db' = db_key_reservations db \<Longrightarrow> reservations_ok db \<Longrightarrow> reservations_ok db'"
  by (simp add: reservations_ok_def)

lemma reservations_ok_delete:
  assumes "delete_instances now P db = Inr (n, db')" "store_wf db" "reservations_ok db"
  shows "reservations_ok db'"
proof -
  have ids: "distinct (map mr_id (db_materializations db))"
    using assms(2) by (simp add: store_wf_def)
  note keep = objects.reserved_delete [OF _ ids, of _ "\<lambda>m. mr_instance_id m \<notin> gone_ids P db"]
    exclusivity.reserved_delete [OF _ ids, of _ "\<lambda>m. mr_instance_id m \<notin> gone_ids P db"]
  from assms(1) show ?thesis
    by (rule delete_instances_frame) (use keep assms(3) in \<open>simp add: reservations_ok_def\<close>)
qed

lemma reservations_ok_stmt: "stmt db db' \<Longrightarrow> store_wf db \<Longrightarrow> reservations_ok db \<Longrightarrow> reservations_ok db'"
proof (induction rule: stmt.induct)
  case (update_materialization now P f db ret db')
  then show ?case by (rule reservations_ok_update)
next
  case (insert_materialization now new db db')
  then show ?case by (simp add: reservations_ok_insert)
next
  case (update_instance now P f db ret' db')
  then show ?case by (elim update_instances_frame) (simp add: reservations_ok_def)
next
  case (insert_instance now new' db row db')
  then show ?case by (elim insert_instance_row_frame) (simp add: reservations_ok_def)
next
  case (delete_instance now P' db n db')
  then show ?case by (simp add: reservations_ok_delete)
next
  case (insert_route_binding now rr db db' b)
  then show ?case by (auto dest!: insert_route_frame simp: reservations_ok_def)
next
  case (delete_route_binding now P'' db n db')
  then show ?case by (auto dest!: delete_routes_frame simp: reservations_ok_def)
next
  case (prune db now limit)
  then show ?case using prune_outbox_frame [of now limit db] by (auto simp: reservations_ok_def)
qed (simp_all add: reservations_ok_def)

lemma reservations_ok_empty: "reservations_ok (empty_db t)"
  by (simp add: reservations_ok_def empty_db_def objects.reserved_Nil exclusivity.reserved_Nil)

end
