(* ===== verification/Change_Feed.thy ===== *)
theory Change_Feed
  imports Store_Invariants
begin

text \<open>
  The route change outbox as a feed: the retained revisions are always the last ones, without a
  gap, so a poll either delivers exactly the next events after its cursor or tells the consumer
  to reset.
\<close>

section \<open>The retained window\<close>

definition feed_ok :: "store_db \<Rightarrow> bool" where
  "feed_ok db \<longleftrightarrow> 0 \<le> db_revision db \<and> db_revision db \<le> i64_max
     \<and> (\<exists>lo. 1 \<le> lo \<and> lo \<le> db_revision db + 1
          \<and> map ob_revision (db_outbox db) = [lo..db_revision db])"

lemma filter_upto: "filter (\<lambda>r. k < r) [a..b] = [max a (k + 1)..(b :: int)]"
proof (induction a b rule: upto.induct)
  case (1 a b)
  show ?case
  proof (cases "a \<le> b")
    case True
    with 1 show ?thesis
      by (cases "k < a") (auto simp: upto_rec1 max_absorb1 max_absorb2)
  qed simp
qed

lemma upto_append: "lo \<le> mid + 1 \<Longrightarrow> mid \<le> hi \<Longrightarrow> [lo..mid] @ [mid + 1..hi] = [lo..(hi :: int)]"
proof (cases "lo = mid + 1")
  case False
  then show "lo \<le> mid + 1 \<Longrightarrow> mid \<le> hi \<Longrightarrow> ?thesis"
    by (simp add: upto_split2 [symmetric])
qed simp

lemma map_enumerate_upto:
  "map (\<lambda>x. base + 1 + int (fst x)) (enumerate 0 ps) = [base + 1..base + int (length ps)]"
proof (induction ps rule: rev_induct)
  case (snoc p ps)
  then show ?case
    by (simp add: enumerate_append_eq upto_rec2)
qed simp

lemma map_filter_revision: "map g (filter (\<lambda>r. k < g r) xs) = filter (\<lambda>r. k < r) (map g xs)"
  by (induction xs) auto

lemma record_route_changes_feed:
  assumes "record_route_changes now ps db = Inr db'" "feed_ok db"
  shows "feed_ok db'"
proof (cases "ps = []")
  case False
  let ?next = "db_revision db + int (length ps)"
  obtain lo where lo: "1 \<le> lo" "lo \<le> db_revision db + 1" "map ob_revision (db_outbox db) = [lo..db_revision db]"
      and rev: "0 \<le> db_revision db"
    using assms(2) by (auto simp: feed_ok_def)
  have bound: "?next \<le> i64_max" and next_rev: "db_revision db' = ?next"
    and outbox: "map ob_revision (db_outbox db') = filter (\<lambda>r. ?next - OUTBOX_RETAINED < r)
      (map ob_revision (db_outbox db) @ [db_revision db + 1..?next])"
    using assms(1) False
    by (auto simp: record_route_changes_def tryE_Inr pg_add_def map_filter_revision
        map_enumerate_upto [symmetric] comp_def case_prod_beta split: if_splits)
  have "map ob_revision (db_outbox db') = [max lo (?next - OUTBOX_RETAINED + 1)..?next]"
    unfolding outbox lo(3) using lo(2) by (simp add: upto_append filter_upto del: filter_append)
  then show ?thesis
    using bound next_rev lo rev unfolding feed_ok_def
    by (intro conjI exI [of _ "max lo (?next - OUTBOX_RETAINED + 1)"])
      (auto simp: OUTBOX_RETAINED_def)
qed (use assms in \<open>simp add: record_route_changes_def\<close>)

lemma feed_ok_cong:
  "db_revision db' = db_revision db \<Longrightarrow> db_outbox db' = db_outbox db \<Longrightarrow> feed_ok db' \<longleftrightarrow> feed_ok db"
  by (simp add: feed_ok_def)

lemma take_upto: "take n [a..b] = [a..min b (a + int n - 1)]"
proof (induction n arbitrary: a)
  case (Suc n)
  show ?case
  proof (cases "a \<le> b")
    case True
    then have "take (Suc n) [a..b] = a # take n [a + 1..b]"
      by (simp add: upto_rec1)
    also have "\<dots> = [a..min b (a + int (Suc n) - 1)]"
      using True by (simp add: Suc.IH upto_rec1 algebra_simps)
    finally show ?thesis .
  qed simp
qed simp

lemma filter_below_upto: "filter (\<lambda>r. r < k) [a..b] = [a..min b (k - 1 :: int)]"
proof (induction a b rule: upto.induct)
  case (1 a b)
  then show ?case
    by (cases "a \<le> b"; cases "a < k") (auto simp: upto_rec1 filter_empty_conv)
qed

lemma map_filter_below: "map g (filter (\<lambda>r. g r < k) xs) = filter (\<lambda>r. r < k) (map g xs)"
  by (induction xs) auto

lemma map_filter_notin: "map g (filter (\<lambda>r. g r \<notin> A) xs) = filter (\<lambda>r. r \<notin> A) (map g xs)"
  by (induction xs) auto

lemma feed_ok_prune: "feed_ok db \<Longrightarrow> feed_ok (snd (prune_outbox now limit db))"
proof -
  assume "feed_ok db"
  then obtain lo where lo: "1 \<le> lo" "lo \<le> db_revision db + 1"
      "map ob_revision (db_outbox db) = [lo..db_revision db]" "0 \<le> db_revision db" "db_revision db \<le> i64_max"
    by (auto simp: feed_ok_def)
  obtain bound where pruned: "map ob_revision (db_outbox (snd (prune_outbox now limit db))) =
      filter (\<lambda>r. r \<notin> set (take limit (sort (filter (\<lambda>r. r < bound) [lo..db_revision db])))) [lo..db_revision db]"
    unfolding prune_outbox_def Let_def by (simp add: map_filter_notin map_filter_below lo(3))
  define c where "c = min (min (db_revision db) (bound - 1)) (lo + int limit - 1)"
  have "take limit (sort (filter (\<lambda>r. r < bound) [lo..db_revision db])) = [lo..c]"
    by (simp add: filter_below_upto take_upto sorted_sort_id c_def)
  then have "map ob_revision (db_outbox (snd (prune_outbox now limit db))) = filter (\<lambda>r. c < r) [lo..db_revision db]"
    unfolding pruned by (auto intro: filter_cong)
  then have "map ob_revision (db_outbox (snd (prune_outbox now limit db))) = [max lo (c + 1)..db_revision db]"
    by (simp add: filter_upto)
  moreover have "db_revision (snd (prune_outbox now limit db)) = db_revision db"
    by (simp add: prune_outbox_def Let_def)
  moreover have "c \<le> db_revision db"
    by (simp add: c_def)
  ultimately show ?thesis
    using lo unfolding feed_ok_def by (intro conjI exI [of _ "max lo (c + 1)"]) auto
qed

text \<open>Every statement that touches the feed records its changes last.\<close>

lemma recorded_feed:
  "record_route_changes now ps mid = Inr db' \<Longrightarrow> db_revision mid = db_revision db \<Longrightarrow>
   db_outbox mid = db_outbox db \<Longrightarrow> feed_ok db \<Longrightarrow> feed_ok db'"
  by (rule record_route_changes_feed [of now ps mid]) (simp_all add: feed_ok_cong [of mid db])

lemma sync_rows_feed:
  "sync_rows ps db = Inr db' \<Longrightarrow> db_revision db' = db_revision db \<and> db_outbox db' = db_outbox db"
  using sync_rows_frame by fastforce

lemma sync_one_feed:
  "sync_materialization_reservations old new db = Inr db' \<Longrightarrow>
     db_revision db' = db_revision db \<and> db_outbox db' = db_outbox db"
  using sync_materialization_reservations_frame by fastforce

lemma feed_ok_stmt: "stmt db db' \<Longrightarrow> feed_ok db \<Longrightarrow> feed_ok db'"
proof (induction rule: stmt.induct)
  case (update_materialization now P f db ret db')
  from update_materialization(1) show ?case
  proof (rule update_materializations_parts)
    fix rows mid ps
    assume sync: "sync_rows (filter (P \<circ> fst) (zip (db_materializations db) rows))
        (db\<lparr>db_materializations := rows\<rparr>) = Inr mid" and rec: "record_route_changes now ps mid = Inr db'"
    show "feed_ok db'"
      by (rule recorded_feed [OF rec, of db]) (use sync_rows_feed [OF sync] update_materialization.prems in simp_all)
  qed
next
  case (insert_materialization now new db db')
  then show ?case
    by (auto simp: insert_materialization_def tryE_Inr split: if_splits dest!: sync_one_feed intro: recorded_feed)
next
  case (update_instance now P f db ret' db')
  then show ?case
    by (auto simp: update_instances_def Let_def tryE_Inr intro: recorded_feed [where db = db])
next
  case (insert_instance now new' db row db')
  then show ?case
    by (auto simp: insert_instance_row_def tryE_Inr split: if_splits intro: recorded_feed [where db = db])
next
  case (delete_instance now P' db n db')
  then show ?case
    by (auto simp: delete_instances_def Let_def tryE_Inr split: if_splits intro: recorded_feed [where db = db])
next
  case (insert_route_binding now rr db db' b)
  then show ?case
    by (auto simp: insert_route_def split: if_splits intro: recorded_feed [where db = db])
next
  case (delete_route_binding now P'' db n db')
  then show ?case
    by (auto simp: delete_routes_def Let_def tryE_Inr intro: recorded_feed [where db = db])
next
  case (prune db now limit)
  then show ?case by (rule feed_ok_prune)
qed (simp_all add: feed_ok_def)

lemma feed_ok_empty: "feed_ok (empty_db t)"
  by (auto simp: feed_ok_def empty_db_def i64_max_def)

end
