(* ===== verification/Store_Run.thy ===== *)
theory Store_Run
  imports Lease_Fences Reservation_Invariant Change_Feed
begin

text \<open>
  Every store operation is a sequence of the statements of \<^theory_text>\<open>Statements\<close>. The proofs follow
  the transactions: a generation that an operation writes is the successor of the one it has
  checked, and a materialization is stamped with the generation its instance has at that point.
\<close>

section \<open>Shared steps\<close>

lemma find_instance_Some: "find_instance iid db = Some i \<Longrightarrow> i \<in> set (db_instances db) \<and> ir_id i = iid"
  by (auto simp: find_instance_def find_Some_iff)

lemma find_instance_unique:
  assumes "store_wf db" "i \<in> set (db_instances db)"
  shows "find_instance (ir_id i) db = Some i"
proof (cases "find_instance (ir_id i) db")
  case None
  with assms(2) show ?thesis by (auto simp: find_instance_def find_None_iff)
next
  case (Some j)
  with find_instance_Some [OF Some] instance_unique [OF assms(1) _ assms(2)] show ?thesis by simp
qed

lemma wf_generation:
  "store_wf db \<Longrightarrow> find_instance iid db = Some i \<Longrightarrow> 0 \<le> ir_generation i \<and> ir_generation i \<le> i64_max"
  by (auto simp: store_wf_def dest!: find_instance_Some)

text \<open>The successor of a checked generation.\<close>

lemma next_generation:
  assumes "store_wf db" "find_instance iid db = Some i" "instance_from_row i = Inr c"
    and "uint (Generation_next (in_generation c)) \<le> i64_max"
  shows "uint (Generation_next (in_generation c)) = ir_generation i + 1" "ir_generation i < i64_max"
proof -
  have "uint (in_generation c) = ir_generation i"
    using instance_from_row_Inr [OF assms(3)] wf_generation [OF assms(1,2)] by (simp add: uint_of_i64)
  with assms(4) wf_generation [OF assms(1,2)] show
      "uint (Generation_next (in_generation c)) = ir_generation i + 1" "ir_generation i < i64_max"
    by (simp_all add: uint_Generation_next)
qed

lemma update_instances_rows:
  assumes "update_instances now P f db = Inr (ret, db')"
  shows "list_all2 (\<lambda>i i'. (if P i then f i else Inr i) = Inr i') (db_instances db) (db_instances db')"
    "ret = map snd (filter (P \<circ> fst) (zip (db_instances db) (db_instances db')))"
    "db_materializations db' = db_materializations db" "db_deferred_wakes db' = db_deferred_wakes db"
    "db_effects db' = db_effects db"
  by (rule update_instances_frame [OF assms], simp)+

lemma update_one_instance:
  assumes upd: "update_instances now P (\<lambda>i. Inr (i\<lparr>ir_state := st, ir_generation := g\<rparr>)) db = Inr (ret, db')"
    and row: "first_row ret = Some row" and wf: "store_wf db"
    and sel: "\<And>i. i \<in> set (db_instances db) \<Longrightarrow> P i \<Longrightarrow> ir_id i = iid \<and> g = ir_generation i + 1
      \<and> ir_generation i < i64_max \<and> lifecycle_edge (ir_state i) st"
  shows "stmt db db'" "find_instance iid db' = Some row" "ir_generation row = g" "ir_state row = st"
proof -
  show st: "stmt db db'"
    by (rule stmt.update_instance [OF upd]) (use sel in \<open>auto simp: instance_step_def\<close>)
  note rows = update_instances_rows [OF upd]
  have "row \<in> set ret"
    using row by (cases ret) (auto simp: first_row_def)
  then obtain j where j: "(j, row) \<in> set (zip (db_instances db) (db_instances db'))" "P j"
    by (auto simp: rows(2))
  then have mem: "j \<in> set (db_instances db)" "row \<in> set (db_instances db')"
    by (auto dest: set_zip_leftD set_zip_rightD)
  have row_eq: "row = j\<lparr>ir_state := st, ir_generation := g\<rparr>"
    using list_all2_zip [OF rows(1) j(1)] j(2) by simp
  then show "ir_generation row = g" "ir_state row = st" by simp_all
  from find_instance_unique [OF store_wf_stmt [OF st wf] mem(2)] show "find_instance iid db' = Some row"
    using row_eq sel [OF mem(1) j(2)] by simp
qed

lemma set_instance_state_stmt:
  assumes "set_instance_state now iid st g db = Inr (row, db')" "store_wf db"
    and "find_instance iid db = Some i" "g = ir_generation i + 1" "ir_generation i < i64_max"
    and "lifecycle_edge (ir_state i) st"
  shows "stmt db db'" "find_instance iid db' = Some row" "ir_generation row = g"
    "db_materializations db' = db_materializations db" "db_deferred_wakes db' = db_deferred_wakes db"
    "store_wf db'"
proof -
  obtain ret where upd: "update_instances now (\<lambda>i. ir_id i = iid)
      (\<lambda>i. Inr (i\<lparr>ir_state := st, ir_generation := g\<rparr>)) db = Inr (ret, db')"
      and row: "first_row ret = Some row"
    using assms(1) by (auto simp: set_instance_state_def one_row_def tryE_Inr ok_or_Inr)
  have "j = i" if "j \<in> set (db_instances db)" "ir_id j = iid" for j
    using instance_unique [OF assms(2) that(1)] that(2) find_instance_Some [OF assms(3)] by auto
  then have sel: "j \<in> set (db_instances db) \<Longrightarrow> ir_id j = iid \<Longrightarrow> ir_id j = iid \<and> g = ir_generation j + 1
      \<and> ir_generation j < i64_max \<and> lifecycle_edge (ir_state j) st" for j
    using assms(4-6) by auto
  note one = update_one_instance [OF upd row assms(2) sel]
  from one(1-3) store_wf_stmt [OF one(1) assms(2)] update_instances_rows [OF upd]
  show "stmt db db'" "find_instance iid db' = Some row" "ir_generation row = g"
    "db_materializations db' = db_materializations db" "db_deferred_wakes db' = db_deferred_wakes db"
    "store_wf db'"
    by simp_all
qed

text \<open>Recording a projection at the current generation of its instance.\<close>

lemma on_target_keyed:
  "keyed m \<Longrightarrow> on_target iid t m \<Longrightarrow> mr_id m = materialization_key iid (mt_cluster_id t) (mt_namespace t)"
  by (simp add: keyed_def on_target_def)

lemma upsert_stmt:
  assumes "upsert_materialization now r db = Inr (rec, db')" "store_wf db"
    and "find_instance (rm_instance_id r) db = Some i" "uint (rm_instance_generation r) = ir_generation i"
  shows "stmt db db'"
proof -
  let ?mid = "materialization_key (rm_instance_id r) (mt_cluster_id (rm_target r)) (mt_namespace (rm_target r))"
  obtain pg bg out where up: "upsert_statement now ?mid (ir_generation i) pg bg r db = Inr (out, db')"
    using assms(1,4)
    by (auto simp: upsert_materialization_def tryE_Inr generation_to_i64_Inr backend_generation_to_i64_Inr
        split: option.splits dest!: materialization_id_Inr)
  have i: "i \<in> set (db_instances db)" "ir_id i = rm_instance_id r"
    using find_instance_Some [OF assms(3)] by auto
  show ?thesis
  proof (cases "list_ex (on_target (rm_instance_id r) (rm_target r)) (db_materializations db)")
    case True
    then obtain ret where upd: "update_materializations now
        (\<lambda>m. on_target (rm_instance_id r) (rm_target r) m \<and> mr_backend_generation m \<le> bg)
        (\<lambda>m. Inr (overwritten_row ?mid (ir_generation i) pg bg r m)) db = Inr (ret, db')"
      using up by (auto simp: upsert_statement_def tryE_Inr)
    have keyed: "keyed m" if "m \<in> set (db_materializations db)" for m
      using assms(2) that by (simp add: store_wf_def)
    show ?thesis
      by (rule stmt.update_materialization [OF upd])
        (use keyed on_target_keyed i in \<open>auto simp: row_step_def overwritten_row_def stamped_def on_target_def\<close>)
  next
    case False
    then obtain deadline where
        ins: "insert_materialization now (inserted_row now deadline ?mid (ir_generation i) pg bg r) db = Inr db'"
      using up by (auto simp: upsert_statement_def tryE_Inr Let_def)
    show ?thesis
      by (rule stmt.insert_materialization [OF ins]) (use i in \<open>auto simp: inserted_row_def stamped_def\<close>)
  qed
qed

text \<open>Updates that keep a row's key, generation, backend generation and attempt.\<close>

definition gentle :: "(materialization_row \<Rightarrow> store_error + materialization_row) \<Rightarrow> bool" where
  "gentle f \<longleftrightarrow> (\<forall>m n. f m = Inr n \<longrightarrow> mr_id n = mr_id m \<and> mr_instance_id n = mr_instance_id m
     \<and> mr_cluster_id n = mr_cluster_id m \<and> mr_namespace n = mr_namespace m
     \<and> mr_backend_generation n = mr_backend_generation m
     \<and> mr_instance_generation n = mr_instance_generation m
     \<and> mr_reconcile_attempt n = mr_reconcile_attempt m
     \<and> (mr_reconcile_owner n = None \<or> mr_reconcile_owner n = mr_reconcile_owner m))"

lemma gentle_stmt: "update_materializations now P f db = Inr (ret, db') \<Longrightarrow> gentle f \<Longrightarrow> stmt db db'"
  by (erule stmt.update_materialization) (auto simp: gentle_def row_step_def)

section \<open>Leases and effects\<close>

abbreviation stmts :: "store_db \<Rightarrow> store_db \<Rightarrow> bool" where
  "stmts \<equiv> stmt\<^sup>*\<^sup>*"

lemma stmts_two: "stmt a b \<Longrightarrow> stmt b c \<Longrightarrow> stmts a c"
  by (rule rtranclp.rtrancl_into_rtrancl) auto

lemma record_materialization_stmts:
  assumes "record_materialization now r db = Inr (rec, db')" "store_wf db"
  shows "stmts db db'"
proof -
  let ?r = "r\<lparr>rm_exclusivity_keys := normalize_exclusivity_keys (rm_exclusivity_keys r)\<rparr>"
  obtain i where up: "upsert_materialization now ?r db = Inr (rec, db')"
      and i: "find_instance (rm_instance_id ?r) db = Some i" "uint (rm_instance_generation ?r) = ir_generation i"
    using assms(1) by (auto simp: record_materialization_def ensure_instance_generation_def Let_def tryE_Inr ok_or_Inr
        generation_to_i64_Inr split: if_splits)
  from upsert_stmt [OF up assms(2) i] show ?thesis ..
qed

lemma claim_stmts:
  assumes "claim_materialization_reconciliation now mid owner ttl db = Inr (r, db')"
  shows "stmts db db'"
proof -
  obtain ttl rows where "claim_statement now mid owner ttl db = Inr (rows, db')"
    using assms by (auto simp: claim_materialization_reconciliation_def tryE_Inr)
  then have "stmt db db'"
    unfolding claim_statement_def
    by (rule stmt.update_materialization) (auto simp: row_step_def claimable_def tryE_Inr dest!: pg_add_Inr)
  then show ?thesis ..
qed

lemma renew_stmts:
  "renew_materialization_reconciliation_lease now mid owner attempt g ttl st db = Inr (r, db') \<Longrightarrow> stmts db db'"
  by (auto simp: renew_materialization_reconciliation_lease_def renew_statement_def tryE_Inr
      dest!: gentle_stmt simp: gentle_def)

lemma release_stmts:
  "release_materialization_reconciliation_lease now mid owner attempt g db = Inr (r, db') \<Longrightarrow> stmts db db'"
  by (auto simp: release_materialization_reconciliation_lease_def release_statement_def tryE_Inr
      dest!: gentle_stmt simp: gentle_def)

lemma begin_effect_stmts:
  assumes "begin_materialization_effect now r db = Inr (ok, db')"
  shows "stmts db db'"
proof (cases "db' = db")
  case False
  then obtain attempt effect_id g m where db': "db' = db\<lparr>db_effects := db_effects db @ [effect_of_request effect_id attempt g r]\<rparr>"
      and m: "m \<in> set (db_materializations db)" "mr_id m = me_materialization_id r" "mr_reconcile_attempt m = attempt"
      and idle: "\<not> has_effect db (me_materialization_id r)"
    using assms by (auto simp: begin_materialization_effect_def tryE_Inr Let_def list_ex_iff split: if_splits)
  have "stmt db db'"
    unfolding db' by (rule stmt.begin_effect [OF m(1)]) (use m idle in \<open>simp_all add: effect_of_request_def\<close>)
  then show ?thesis ..
qed simp

lemma acknowledge_effect_stmts:
  "acknowledge_materialization_effect mid owner attempt effect_id g db = Inr (ok, db') \<Longrightarrow> stmts db db'"
  by (auto simp: acknowledge_materialization_effect_def tryE_Inr Let_def intro: stmt.end_effect)

section \<open>Lifecycle\<close>

lemma lifecycle_edge_valid: "valid_transition s t r \<Longrightarrow> lifecycle_edge s t"
  by (auto simp: lifecycle_edge_def)

lemma wake_edges: "lifecycle_edge Cold Waking" "lifecycle_edge Failed Waking"
  by (rule lifecycle_edge_valid [where r = WakeRequested], simp add: valid_transition_def)+

lemma fail_edge: "lifecycle_edge Waking Failed"
  by (rule lifecycle_edge_valid [where r = "FailureReported []"]) (simp add: valid_transition_def)

lemma delete_edge: "s \<noteq> Deleting \<Longrightarrow> lifecycle_edge s Deleting"
  by (cases "s = Deleted", simp add: lifecycle_edge_def,
      rule lifecycle_edge_valid [where r = DeleteRequested], cases s) (simp_all add: valid_transition_def)

lemma defer_wake_stmts:
  assumes "defer_wake p db = Inr db'" "store_wf db"
  shows "stmts db db'"
proof (cases "db' = db")
  case False
  then obtain d where "db' = db\<lparr>db_deferred_wakes := db_deferred_wakes db @ [d]\<rparr>" "dw_instance_generation d \<le> i64_max"
    using assms(1) by (auto simp: defer_wake_def tryE_Inr generation_to_i64_Inr split: option.splits if_splits)
  then have "stmt db db'"
    using assms(2) by (auto simp: store_wf_def intro!: stmt.deferred_wake)
  then show ?thesis ..
qed simp

lemma accept_wake_cases:
  assumes "accept_wake clk r db = Inr (res, db')" "db' \<noteq> db"
  obtains i c bg where "find_instance (rm_instance_id (aw_pending r)) db = Some i" "instance_from_row i = Inr c"
    "in_state c = Cold \<or> in_state c = Failed \<or> in_state c = Draining"
    "commit_wake clk (aw_pending r\<lparr>rm_backend_generation := bg\<rparr>) c (rm_instance_generation (aw_pending r)) db = Inr (res, db')"
    "in_state c \<noteq> Draining \<Longrightarrow> rm_instance_generation (aw_pending r) = Generation_next (in_generation c)"
    "next_backend_generation (rm_instance_id (aw_pending r)) (rm_target (aw_pending r))
       (rm_backend_generation (aw_pending r)) db = Inr bg" "rm_state (aw_pending r) = Pending"
proof -
  obtain i c where i: "find_instance (rm_instance_id (aw_pending r)) db = Some i" "instance_from_row i = Inr c"
    using assms(1) by (auto simp: accept_wake_def Let_def tryE_Inr ok_or_Inr)
  note acc = assms(1) [unfolded accept_wake_def Let_def i ok_or_simps tryE_simps]
  have state: "in_state c = Cold \<or> in_state c = Failed \<or> in_state c = Draining"
    using acc assms(2) by (auto split: if_split_asm)
  have gen: "rm_instance_generation (aw_pending r) = (if in_state c = Draining
      then Generation_next (Generation_next (in_generation c)) else Generation_next (in_generation c))"
    using acc assms(2) by (simp split: if_split_asm)
  obtain bg where "commit_wake clk (aw_pending r\<lparr>rm_backend_generation := bg\<rparr>) c (rm_instance_generation (aw_pending r)) db
      = Inr (res, db')" "next_backend_generation (rm_instance_id (aw_pending r)) (rm_target (aw_pending r))
       (rm_backend_generation (aw_pending r)) db = Inr bg" "rm_state (aw_pending r) = Pending"
    using acc assms(2) unfolding gen [symmetric] by (auto simp: tryE_Inr split: if_split_asm)
  with i state gen that show thesis by simp
qed

lemma accept_wake_stmts:
  assumes acc: "accept_wake clk r db = Inr (res, db')" and wf: "store_wf db"
  shows "stmts db db'"
proof (cases "db' = db")
  case False
  with acc show ?thesis
  proof (rule accept_wake_cases)
    fix i c bg
    let ?p = "aw_pending r\<lparr>rm_backend_generation := bg\<rparr>"
    assume i: "find_instance (rm_instance_id (aw_pending r)) db = Some i" and c: "instance_from_row i = Inr c"
      and state: "in_state c = Cold \<or> in_state c = Failed \<or> in_state c = Draining"
      and commit: "commit_wake clk ?p c (rm_instance_generation (aw_pending r)) db = Inr (res, db')"
      and gen: "in_state c \<noteq> Draining \<Longrightarrow> rm_instance_generation (aw_pending r) = Generation_next (in_generation c)"
    show ?thesis
    proof (cases "in_state c = Draining")
      case True
      then have "defer_wake ?p db = Inr db'"
        using commit by (auto simp: commit_wake_def tryE_Inr)
      then show ?thesis by (rule defer_wake_stmts) (rule wf)
    next
      case live: False
      then obtain g row mid rec where g: "generation_to_i64 (Generation_next (in_generation c)) = Inr g"
          and set: "set_instance_state (clk 0) (rm_instance_id ?p) Waking g db = Inr (row, mid)"
          and up: "upsert_materialization (clk 1) ?p mid = Inr (rec, db')"
        using commit gen [OF live] by (auto simp: commit_wake_def tryE_Inr simp del: One_nat_def)
      have g': "g = ir_generation i + 1" "ir_generation i < i64_max" "g = uint (Generation_next (in_generation c))"
        using next_generation [OF wf i c] g by (simp_all add: generation_to_i64_Inr)
      have "lifecycle_edge (ir_state i) Waking"
        using instance_from_row_Inr [OF c] state live wake_edges by auto
      moreover have "find_instance (rm_instance_id ?p) db = Some i" using i by simp
      ultimately have one: "stmt db mid" "find_instance (rm_instance_id ?p) mid = Some row" "ir_generation row = g" "store_wf mid"
        using set_instance_state_stmt [OF set wf _ g'(1,2)] by blast+
      have "stmt mid db'"
        by (rule upsert_stmt [OF up one(4,2)]) (simp add: gen [OF live] one(3) g'(3))
      with one(1) show ?thesis by (rule stmts_two)
    qed
  qed
qed simp

text \<open>
  The opening of the sleep, wake and compare-and-swap transactions: the checked generation
  advances along a valid transition.
\<close>

lemma checked_transition:
  assumes "find_instance iid db = Some i" "instance_from_row i = Inr c"
    and "valid_transition (in_state c) st reason" "generation_to_i64 (Generation_next (in_generation c)) = Inr g"
    and "set_instance_state now iid st g db = Inr (row, mid)" "store_wf db"
  shows "stmt db mid" "find_instance iid mid = Some row" "ir_generation row = g" "store_wf mid"
    "g = uint (Generation_next (in_generation c))" "db_materializations mid = db_materializations db"
proof -
  show g: "g = uint (Generation_next (in_generation c))"
    using assms(4) by (simp add: generation_to_i64_Inr)
  have n: "g = ir_generation i + 1" "ir_generation i < i64_max"
    using next_generation [OF assms(6,1,2)] assms(4) by (simp_all add: generation_to_i64_Inr)
  have "lifecycle_edge (ir_state i) st"
    using instance_from_row_Inr [OF assms(2)] assms(3) by (auto intro: lifecycle_edge_valid)
  from set_instance_state_stmt [OF assms(5,6,1) n this]
  show "stmt db mid" "find_instance iid mid = Some row" "ir_generation row = g" "store_wf mid"
    "db_materializations mid = db_materializations db"
    by simp_all
qed

lemma activate_deferred_wake_stmts:
  assumes act: "activate_deferred_wake clk iid db = Inr (res, db')" and wf: "store_wf db"
  shows "stmts db db'"
proof (cases "find_deferred iid db")
  case None
  with act show ?thesis by (simp add: activate_deferred_wake_def)
next
  case (Some d)
  let ?db = "db\<lparr>db_deferred_wakes := filter (\<lambda>d. dw_instance_id d \<noteq> iid) (db_deferred_wakes db)\<rparr>"
  obtain rows mid row p rec where upd: "activate_statement (clk 0) iid (dw_instance_generation d) ?db = Inr (rows, mid)"
      and row: "first_row rows = Some row"
      and up: "upsert_materialization (clk 1) p mid = Inr (rec, db')"
      and p: "rm_instance_id p = iid" "rm_instance_generation p = word_of_int (dw_instance_generation d)"
      and pos: "0 \<le> dw_instance_generation d"
    using act Some
    by (auto simp: activate_deferred_wake_def Let_def tryE_Inr ok_or_Inr map_err_Inr generation_from_i64_Inr
        InstanceId_new_Inr RecordMaterializationRequest_new_def simp del: One_nat_def split: option.splits)
  have range: "dw_instance_generation d \<le> i64_max"
    using Some wf by (auto simp: find_deferred_def find_Some_iff store_wf_def)
  have drop: "stmt db ?db"
    using wf by (intro stmt.deferred_wake) (auto simp: store_wf_def)
  note wf' = store_wf_stmt [OF drop wf]
  have one: "stmt ?db mid" "find_instance iid mid = Some row" "ir_generation row = dw_instance_generation d"
    by (rule update_one_instance [OF upd [unfolded activate_statement_def] row wf', of iid];
        use range wake_edges in auto)+
  have "stmt mid db'"
    by (rule upsert_stmt [OF up store_wf_stmt [OF one(1) wf'], of row])
      (use p one range pos in \<open>simp_all add: uint_of_i64\<close>)
  with one(1) have "stmts ?db db'" by (rule stmts_two)
  with drop show ?thesis by (rule converse_rtranclp_into_rtranclp)
qed

lemma mark_deleting_stmt: "mark_instance_deleting now iid db = Inr (rows, db') \<Longrightarrow> stmt db db'"
  unfolding mark_instance_deleting_def by (erule gentle_stmt) (simp add: gentle_def)

lemma request_instance_deletion_stmts:
  assumes req: "request_instance_deletion clk iid expected db = Inr (res, db')" and wf: "store_wf db"
  shows "stmts db db'"
proof (cases "find_instance iid db")
  case None
  with req show ?thesis by (auto simp: request_instance_deletion_def tryE_Inr)
next
  case (Some i)
  then obtain mid rows where mid: "mid = db \<or> ir_state i \<noteq> Deleting \<and>
        (\<exists>ret. update_instances (clk 0) (\<lambda>i. ir_id i = iid) (\<lambda>i. tryE (pg_add (ir_generation i) 1) (\<lambda>g.
          Inr (i\<lparr>ir_state := Deleting, ir_generation := g\<rparr>))) db = Inr (ret, mid))"
      and mark: "mark_instance_deleting (clk 1) iid
        (mid\<lparr>db_deferred_wakes := filter (\<lambda>d. dw_instance_id d \<noteq> iid) (db_deferred_wakes mid)\<rparr>) = Inr (rows, db')"
    using req by (auto simp: request_instance_deletion_def tryE_Inr Let_def simp del: One_nat_def split: if_splits)
  have i: "i \<in> set (db_instances db)" "ir_id i = iid"
    using find_instance_Some [OF Some] by auto
  have only: "j = i" if "j \<in> set (db_instances db)" "ir_id j = iid" for j
    using instance_unique [OF wf that(1) i(1)] that(2) i(2) by simp
  have first: "stmts db mid"
    using mid
  proof
    assume "ir_state i \<noteq> Deleting \<and> (\<exists>ret. update_instances (clk 0) (\<lambda>i. ir_id i = iid)
        (\<lambda>i. tryE (pg_add (ir_generation i) 1) (\<lambda>g.
          Inr (i\<lparr>ir_state := Deleting, ir_generation := g\<rparr>))) db = Inr (ret, mid))"
    then obtain ret where st: "ir_state i \<noteq> Deleting" and upd: "update_instances (clk 0) (\<lambda>i. ir_id i = iid)
        (\<lambda>i. tryE (pg_add (ir_generation i) 1) (\<lambda>g.
          Inr (i\<lparr>ir_state := Deleting, ir_generation := g\<rparr>))) db = Inr (ret, mid)"
      by blast
    have "stmt db mid"
      by (rule stmt.update_instance [OF upd])
        (use only delete_edge [OF st] in \<open>auto simp: instance_step_def tryE_Inr pg_add_def split: if_splits\<close>)
    then show ?thesis ..
  qed simp
  have wf': "store_wf mid"
    using first wf by induction (auto intro: store_wf_stmt)
  have "stmt mid (mid\<lparr>db_deferred_wakes := filter (\<lambda>d. dw_instance_id d \<noteq> iid) (db_deferred_wakes mid)\<rparr>)"
    using wf' by (intro stmt.deferred_wake) (auto simp: store_wf_def)
  from stmts_two [OF this mark_deleting_stmt [OF mark]] show ?thesis
    using first by auto
qed

lemma finalize_instance_deletions_stmts:
  assumes "finalize_instance_deletions now limit db = Inr (n, db')" "store_wf db"
  shows "stmts db db'"
proof -
  let ?done = "filter (\<lambda>i. ir_state i = Deleting \<and> cleanup_complete db (ir_id i)) (db_instances db)"
  obtain ids where del: "delete_instances now (\<lambda>i. ir_id i \<in> set ids) db = Inr (n, db')"
      and ids: "set ids \<subseteq> ir_id ` set ?done"
  proof
    let ?ids = "take limit (sort (map ir_id ?done))"
    show "delete_instances now (\<lambda>i. ir_id i \<in> set ?ids) db = Inr (n, db')"
      using assms(1) by (auto simp: finalize_instance_deletions_def Let_def split: if_splits)
    show "set ?ids \<subseteq> ir_id ` set ?done"
      by (rule subset_trans [OF set_take_subset]) simp
  qed
  have "ir_state i = Deleting \<and> cleanup_complete db (ir_id i)"
    if "i \<in> set (db_instances db)" "ir_id i \<in> set ids" for i
    using that ids instance_unique [OF assms(2) that(1)] by auto
  then have "stmt db db'" by (intro stmt.delete_instance [OF del])
  then show ?thesis ..
qed

end
