(* ===== verification/Store_Trace.thy ===== *)
theory Store_Trace
  imports Store_Run
begin

text \<open>
  The remaining operations as sequences of statements, the operations of the store as one
  datatype, and the histories they generate.
\<close>

section \<open>Sleep and wake\<close>

lemma begin_sleep_stmts:
  assumes beg: "begin_sleep clk r db = Inr (res, db')" and wf: "store_wf db"
  shows "stmts db db'"
proof -
  let ?iid = "bs_instance_id r"
  obtain i c g row mid where i: "find_instance ?iid db = Some i" and c: "instance_from_row i = Inr c"
      and exp: "in_generation c = bs_expected_running_generation r"
      and valid: "valid_transition (in_state c) Draining IdleReported"
      and g: "generation_to_i64 (Generation_next (in_generation c)) = Inr g"
      and set: "set_instance_state (clk 1) ?iid Draining g db = Inr (row, mid)"
      and mark: "\<exists>m. mark_active_materialization_deleting_for_sleep (clk 2) ?iid (bs_target r)
        (bs_expected_running_generation r) (bs_drain_grace_timeout r) mid = Inr (m, db')"
    using beg unfolding begin_sleep_def Let_def
    by (auto simp: tryE_Inr ok_or_Inr map_err_Inr validate_transition_Inr simp del: One_nat_def split: if_splits)
  obtain gg millis rows where "deleting_for_sleep_statement (clk 2) ?iid (bs_target r) gg millis mid = Inr (rows, db')"
    using mark by (auto simp: mark_active_materialization_deleting_for_sleep_def tryE_Inr split: option.splits if_splits)
  then have "stmt mid db'"
    unfolding deleting_for_sleep_statement_def by (rule gentle_stmt) (auto simp: gentle_def tryE_Inr)
  with checked_transition(1) [OF i c valid g set wf] show ?thesis
    by (rule stmts_two)
qed

lemma stamped_mark_stmt:
  assumes "mark_active_materialization_state now iid t st (Some g) os ks db = Inr (m, db')"
    and "find_instance iid db = Some i" "uint g = ir_generation i"
  shows "stmt db db'"
proof -
  obtain rows where upd: "update_materializations now (\<lambda>m. on_target iid t m \<and> mr_state m \<noteq> MDeleted)
      (\<lambda>m. Inr (m\<lparr>mr_state := st, mr_instance_generation := ir_generation i, mr_backend_uri := None,
         mr_backend_address := None,
         mr_rendered_objects := (case os of Some x \<Rightarrow> x | None \<Rightarrow> mr_rendered_objects m),
         mr_exclusivity_keys := (case ks of Some x \<Rightarrow> x | None \<Rightarrow> mr_exclusivity_keys m),
         mr_reconcile_owner := None, mr_lease_expires_at := None\<rparr>)) db = Inr (rows, db')"
    using assms(1,3) by (auto simp: mark_active_materialization_state_def tryE_Inr generation_to_i64_Inr)
  show ?thesis
    by (rule stmt.update_materialization [OF upd])
      (use find_instance_Some [OF assms(2)] in \<open>auto simp: row_step_def stamped_def on_target_def\<close>)
qed

lemma finalize_sleep_stmts:
  assumes fin: "finalize_sleep_in_transaction clk r db = Inr (res, db')" and wf: "store_wf db"
  shows "stmts db db'"
proof -
  let ?iid = "fs_instance_id r"
  obtain i c g row mid mid' m woken where i: "find_instance ?iid db = Some i" and c: "instance_from_row i = Inr c"
      and exp: "in_generation c = fs_expected_draining_generation r"
      and valid: "valid_transition (in_state c) Cold DrainCompleted"
      and g: "generation_to_i64 (Generation_next (in_generation c)) = Inr g"
      and set: "set_instance_state (clk 0) ?iid Cold g db = Inr (row, mid)"
      and mark: "mark_active_materialization_state (clk 1) ?iid (fs_target r) MDeleted
        (Some (Generation_next (in_generation c))) (Some []) (Some []) mid = Inr (m, mid')"
      and act: "activate_deferred_wake (\<lambda>n. clk (n + 2)) ?iid mid' = Inr (woken, db')"
    using fin unfolding finalize_sleep_in_transaction_def Let_def
    by (auto simp: tryE_Inr ok_or_Inr map_err_Inr validate_transition_Inr
        simp del: One_nat_def add_2_eq_Suc' split: if_splits)
  note one = checked_transition [OF i c valid g set wf]
  have two: "stmt mid mid'"
    by (rule stamped_mark_stmt [OF mark one(2)]) (simp add: one(3,5))
  have "stmts mid' db'"
    by (rule activate_deferred_wake_stmts [OF act store_wf_stmt [OF two one(4)]])
  with stmts_two [OF one(1) two] show ?thesis by simp
qed

lemma finalize_sleep_reconciliation_stmts:
  "finalize_sleep_reconciliation clk lease r db = Inr (res, db') \<Longrightarrow> store_wf db \<Longrightarrow> stmts db db'"
  by (auto simp: finalize_sleep_reconciliation_def tryE_Inr intro: finalize_sleep_stmts)

lemma complete_wake_stmts:
  assumes com: "complete_wake_in_transaction clk r db = Inr (res, db')" and wf: "store_wf db"
  shows "stmts db db'"
proof -
  let ?iid = "cw_instance_id r"
  obtain i c g row mid where i: "find_instance ?iid db = Some i" and c: "instance_from_row i = Inr c"
      and exp: "in_generation c = cw_expected_waking_generation r"
      and valid: "valid_transition (in_state c) Running MaterializationReady"
      and g: "generation_to_i64 (Generation_next (in_generation c)) = Inr g"
      and set: "set_instance_state (clk 0) ?iid Running g db = Inr (row, mid)"
      and ups: "\<exists>p m. rm_instance_id p = ?iid \<and> rm_instance_generation p = Generation_next (in_generation c)
        \<and> upsert_materialization (clk 1) p mid = Inr (m, db')"
    using com unfolding complete_wake_in_transaction_def Let_def
    by (auto simp: tryE_Inr ok_or_Inr map_err_Inr validate_transition_Inr RecordMaterializationRequest_new_def
        simp del: One_nat_def split: if_splits) fastforce
  obtain p m where p: "rm_instance_id p = ?iid" "rm_instance_generation p = Generation_next (in_generation c)"
      and up: "upsert_materialization (clk 1) p mid = Inr (m, db')"
    using ups by blast
  note one = checked_transition [OF i c valid g set wf]
  have "stmt mid db'"
    by (rule upsert_stmt [OF up one(4), of row]) (simp_all add: p one(2,3,5))
  with one(1) show ?thesis by (rule stmts_two)
qed

lemma complete_wake_reconciliation_stmts:
  "complete_wake_reconciliation clk lease r db = Inr (res, db') \<Longrightarrow> store_wf db \<Longrightarrow> stmts db db'"
  by (auto simp: complete_wake_reconciliation_def tryE_Inr intro: complete_wake_stmts)

section \<open>Retirement and overrides\<close>

lemma gentle_retired: "gentle (\<lambda>m. Inr (retired_row m))"
  by (simp add: gentle_def retired_row_def)

lemma delete_materialization_stmts:
  "delete_materialization_reconciliation clk r db = Inr (res, db') \<Longrightarrow> stmts db db'"
  by (auto simp: delete_materialization_reconciliation_def Let_def tryE_Inr dest!: gentle_stmt [OF _ gentle_retired])

lemma audit_stmt: "stmt db (insert_operator_audit_event e db)"
  using stmt.bookkeeping [where db = db and cs = "db_classes db" and ks = "db_idempotency db"
      and audit = "db_audit db @ [e]" and hs = "db_http01 db"]
  by (simp add: insert_operator_audit_event_def)

lemma force_delete_stmts:
  assumes "force_delete_materialization now mid a db = Inr (res, db')"
  shows "stmts db db'"
proof -
  obtain e where e: "db' = insert_operator_audit_event e db \<or>
      (\<exists>rows. update_materializations now (\<lambda>m. mr_id m = mid) (\<lambda>m. Inr (retired_row m))
        ((insert_operator_audit_event e db)\<lparr>db_effects :=
          filter (\<lambda>e. ef_materialization_id e \<noteq> mid) (db_effects (insert_operator_audit_event e db))\<rparr>) = Inr (rows, db'))"
    using assms by (auto simp: force_delete_materialization_def Let_def tryE_Inr split: if_splits)
  from e show ?thesis
  proof
    assume "db' = insert_operator_audit_event e db"
    then show ?thesis using audit_stmt by auto
  next
    assume "\<exists>rows. update_materializations now (\<lambda>m. mr_id m = mid) (\<lambda>m. Inr (retired_row m))
        ((insert_operator_audit_event e db)\<lparr>db_effects :=
          filter (\<lambda>e. ef_materialization_id e \<noteq> mid) (db_effects (insert_operator_audit_event e db))\<rparr>) = Inr (rows, db')"
    then show ?thesis
      using gentle_stmt [OF _ gentle_retired] stmt.end_effect audit_stmt
      by (meson converse_rtranclp_into_rtranclp r_into_rtranclp)
  qed
qed

lemma force_release_stmts:
  assumes "force_release_exclusivity_key now t name v a db = Inr (res, db')"
  shows "stmts db db'"
proof -
  obtain e rows P where upd: "update_materializations now P
      (\<lambda>m. Inr (m\<lparr>mr_exclusivity_keys :=
         filter (\<lambda>k. \<not> (ek_name k = name \<and> ek_value k = v)) (mr_exclusivity_keys m)\<rparr>))
      (insert_operator_audit_event e db) = Inr (rows, db')"
    using assms by (auto simp: force_release_exclusivity_key_def Let_def tryE_Inr)
  have "stmt (insert_operator_audit_event e db) db'"
    by (rule gentle_stmt [OF upd]) (simp add: gentle_def)
  from stmts_two [OF audit_stmt this] show ?thesis .
qed

section \<open>Instances, classes and routes\<close>

lemma idempotency_stmt: "stmt db (db\<lparr>db_idempotency := ks\<rparr>)"
  using stmt.bookkeeping [where db = db and cs = "db_classes db" and ks = ks
      and audit = "db_audit db" and hs = "db_http01 db"] by simp

lemma classes_stmt: "stmt db (db\<lparr>db_classes := cs\<rparr>)"
  using stmt.bookkeeping [where db = db and cs = cs and ks = "db_idempotency db"
      and audit = "db_audit db" and hs = "db_http01 db"] by simp

lemma http01_stmt: "stmt db (db\<lparr>db_http01 := hs\<rparr>)"
  using stmt.bookkeeping [where db = db and cs = "db_classes db" and ks = "db_idempotency db"
      and audit = "db_audit db" and hs = hs] by simp

lemma claim_key_stmts:
  assumes "insert_idempotency_record now ret key operation fp rid (expire_key now' key db) = Inr (inserted, db')"
  shows "stmts db db'"
proof -
  have "\<exists>ks. db' = db\<lparr>db_idempotency := ks\<rparr>"
    using assms by (auto simp: insert_idempotency_record_def expire_key_def tryE_Inr split: option.splits if_splits)
  then show ?thesis
    using idempotency_stmt by auto
qed

lemma insert_instance_stmt:
  assumes "insert_instance now r db = Inr (i, db')"
  shows "stmt db db'"
proof -
  let ?new = "\<lparr>ir_id = cr_instance_id r, ir_class_id = wr_class_id (cr_workload_class r),
      ir_class_version = uint (wr_version (cr_workload_class r)), ir_values = cr_values r,
      ir_state = Cold, ir_generation = 0\<rparr>"
  obtain row where ins: "insert_instance_row now ?new db = Inr (row, db')" and i: "instance_from_row row = Inr i"
    using assms by (auto simp: insert_instance_def tryE_Inr generation_to_i64_Inr)
  have "ir_id row = ir_id ?new"
    using ins by (rule insert_instance_row_frame)
  then have "is_dns_label (ir_id ?new)"
    using instance_from_row_Inr [OF i] by simp
  then show ?thesis
    by (intro stmt.insert_instance [OF ins]) simp_all
qed

lemma insert_route_bindings_stmts:
  "insert_route_bindings clk iid n specs db = Inr (bs, db') \<Longrightarrow> stmts db db'"
proof (induction clk iid n specs db arbitrary: bs rule: insert_route_bindings.induct)
  case (2 clk iid index spec specs db)
  let ?row = "\<lparr>rr_id = iid @ '':route:'' @ dec_nat (index + 1), rr_instance_id = iid,
      rr_identity = bs_identity spec, rr_protocol = bs_protocol spec\<rparr>"
  obtain u mid b rest where step: "validate_route_protocol spec = Inr u"
      "insert_route (clk index) ?row db = Inr mid" "route_binding_from_row ?row = Inr b"
      "insert_route_bindings clk iid (index + 1) specs mid = Inr (rest, db')"
    using "2.prems" by (auto simp: tryE_Inr Let_def simp del: dec_nat.simps)
  have "stmt db mid"
    by (rule stmt.insert_route_binding [OF step(2,3)])
  moreover have "stmts mid db'"
    by (rule "2.IH" [OF HOL.refl step(4)])
  ultimately show ?case by (rule converse_rtranclp_into_rtranclp)
qed simp

lemma create_instance_stmts:
  assumes "create_instance parse_yaml clk retention r db = Inr (res, db')"
  shows "stmts db db'"
proof -
  obtain fp inserted mid vs where key: "insert_idempotency_record (clk 1) retention (cr_idempotency_key r)
        CreateInstanceOp fp (cr_instance_id r) (expire_key (clk 0) (cr_idempotency_key r) db) = Inr (inserted, mid)"
      and rest: "mid = db' \<or> (\<exists>i mid' bs. insert_instance (clk 2) (r\<lparr>cr_values := vs\<rparr>) mid = Inr (i, mid')
        \<and> insert_route_bindings (\<lambda>n. clk (n + 3)) (cr_instance_id r) 0 (cr_route_bindings r) mid' = Inr (bs, db'))"
    using assms unfolding create_instance_def Let_def
    by (auto simp: tryE_Inr simp del: One_nat_def split: if_split_asm) blast+
  from rest show ?thesis
  proof
    assume "mid = db'"
    with claim_key_stmts [OF key] show ?thesis by simp
  next
    assume "\<exists>i mid' bs. insert_instance (clk 2) (r\<lparr>cr_values := vs\<rparr>) mid = Inr (i, mid')
        \<and> insert_route_bindings (\<lambda>n. clk (n + 3)) (cr_instance_id r) 0 (cr_route_bindings r) mid' = Inr (bs, db')"
    then obtain i mid' bs where "insert_instance (clk 2) (r\<lparr>cr_values := vs\<rparr>) mid = Inr (i, mid')"
        "insert_route_bindings (\<lambda>n. clk (n + 3)) (cr_instance_id r) 0 (cr_route_bindings r) mid' = Inr (bs, db')"
      by blast
    then have "stmt mid mid'" "stmts mid' db'"
      by (auto intro: insert_instance_stmt insert_route_bindings_stmts)
    with claim_key_stmts [OF key] show ?thesis
      by (meson rtranclp.rtrancl_into_rtrancl rtranclp_trans)
  qed
qed

lemma create_route_binding_stmts:
  assumes "create_route_binding clk retention r db = Inr (res, db')"
  shows "stmts db db'"
proof -
  obtain fp inserted mid where key: "insert_idempotency_record (clk 1) retention (cb_idempotency_key r)
        CreateRouteBindingOp fp (cb_route_binding_id r) (expire_key (clk 0) (cb_idempotency_key r) db) = Inr (inserted, mid)"
      and rest: "mid = db' \<or> insert_route_binding (clk 2) r mid = Inr (res, db')"
    using assms unfolding create_route_binding_def Let_def
    by (auto simp: tryE_Inr simp del: One_nat_def split: if_split_asm)
  have "stmts mid db'"
    using rest by (auto simp: insert_route_binding_def Let_def tryE_Inr intro: stmt.insert_route_binding)
  with claim_key_stmts [OF key] show ?thesis by simp
qed

lemma create_class_stmts: "create_workload_class_version parse_yaml c db = Inr (res, db') \<Longrightarrow> stmts db db'"
  using classes_stmt by (auto simp: create_workload_class_version_def Let_def tryE_Inr split: if_splits)

lemma delete_route_binding_stmts: "delete_route_binding now bid db = Inr (res, db') \<Longrightarrow> stmts db db'"
  by (auto simp: delete_route_binding_def tryE_Inr dest!: stmt.delete_route_binding)

lemma delete_instance_stmts:
  assumes "delete_instance now iid db = Inr (res, db')" "store_wf db"
  shows "stmts db db'"
proof (cases "db' = db")
  case False
  then obtain n where del: "delete_instances now (\<lambda>i. ir_id i = iid \<and> ir_state i = Deleting) db = Inr (n, db')"
      and clean: "cleanup_complete db iid"
    using assms(1) by (auto simp: delete_instance_def tryE_Inr split: option.splits if_splits)
  have "stmt db db'"
    by (rule stmt.delete_instance [OF del]) (use clean in auto)
  then show ?thesis ..
qed simp

lemma compare_and_swap_stmts:
  assumes cas: "compare_and_swap_instance_state now r db = Inr (res, db')" and wf: "store_wf db"
  shows "stmts db db'"
proof -
  obtain i c g row where i: "find_instance (cs_instance_id r) db = Some i" and c: "instance_from_row i = Inr c"
      and valid: "valid_transition (in_state c) (cs_next_state r) (cs_reason r)"
      and g: "generation_to_i64 (Generation_next (in_generation c)) = Inr g"
      and set: "set_instance_state now (cs_instance_id r) (cs_next_state r) g db = Inr (row, db')"
    using cas unfolding compare_and_swap_instance_state_def
    by (auto simp: tryE_Inr ok_or_Inr map_err_Inr validate_transition_Inr split: if_splits)
  from checked_transition(1) [OF i c valid g set wf] show ?thesis ..
qed

section \<open>Runtime work\<close>

lemma fail_wake_stmts:
  assumes "fail_wake clk mid iid g db = Inr db'"
  shows "stmts db db'"
proof -
  obtain ret ret' mdb where m: "update_materializations (clk 0) (\<lambda>m. mr_id m = mid) (\<lambda>m. Inr (m\<lparr>mr_state := MDeleting\<rparr>)) db = Inr (ret, mdb)"
      and i: "update_instances (clk 1) (\<lambda>i. ir_id i = iid \<and> ir_generation i = g \<and> ir_state i = Waking)
        (\<lambda>i. tryE (pg_add (ir_generation i) 1) (\<lambda>g'.
             Inr (i\<lparr>ir_state := Failed, ir_generation := g'\<rparr>))) mdb = Inr (ret', db')"
    using assms by (auto simp: fail_wake_def tryE_Inr simp del: One_nat_def)
  have "stmt db mdb"
    by (rule gentle_stmt [OF m]) (simp add: gentle_def)
  moreover have "stmt mdb db'"
    by (rule stmt.update_instance [OF i])
      (use fail_edge in \<open>auto simp: instance_step_def tryE_Inr pg_add_def split: if_splits\<close>)
  ultimately show ?thesis by (rule stmts_two)
qed

lemma failure_statement_stmt: "failure_statement now mid count kind msg delay cleanup db = Inr (rows, db') \<Longrightarrow> stmt db db'"
  unfolding failure_statement_def by (erule gentle_stmt) (auto simp: gentle_def tryE_Inr)

lemma write_failure_stmts:
  assumes "write_failure clk r g m db = Inr (res, db')"
  shows "stmts db db'"
proof -
  obtain mdb count kind msg delay cleanup rows where
      "mdb = db \<or> fail_wake (\<lambda>n. clk (n + 1)) (fr_materialization_id r) (mr_instance_id m) g db = Inr mdb"
      "failure_statement (clk 3) (fr_materialization_id r) count kind msg delay cleanup mdb = Inr (rows, db')"
    using assms unfolding write_failure_def Let_def by (auto simp: tryE_Inr split: if_split_asm) blast+
  then have "stmts db mdb" "stmt mdb db'"
    by (auto intro: fail_wake_stmts failure_statement_stmt)
  then show ?thesis by simp
qed

lemma record_failure_stmts: "record_failure clk r db = Inr (res, db') \<Longrightarrow> stmts db db'"
  unfolding record_failure_def Let_def
  by (auto simp: tryE_Inr split: option.split_asm if_split_asm dest: write_failure_stmts)

lemma enqueue_stmts: "enqueue now mid db = Inr (res, db') \<Longrightarrow> stmts db db'"
  by (auto simp: enqueue_def tryE_Inr gentle_def dest!: gentle_stmt)

lemma expire_records_stmts: "expire_records now limit db = Inr (n, db') \<Longrightarrow> stmts db db'"
  using idempotency_stmt by (auto simp: expire_records_def Let_def split: if_splits)

lemma delete_expired_http01_stmts:
  "delete_expired_http01_challenges now cutoff limit db = Inr (n, db') \<Longrightarrow> stmts db db'"
  using http01_stmt by (auto simp: delete_expired_http01_challenges_def Let_def tryE_Inr)

lemma maintain_stmts: "maintain clk limit db = (res, db') \<Longrightarrow> stmts db db'"
proof -
  assume run: "maintain clk limit db = (res, db')"
  let ?limit = "max 1 (min 1024 limit)"
  show "stmts db db'"
  proof (cases "expire_records (clk 0) ?limit db")
    case (Inl e)
    with run show ?thesis by (simp add: maintain_def)
  next
    case (Inr p)
    obtain n mid where p: "p = (n, mid)" by force
    have first: "stmts db mid" using expire_records_stmts Inr p by simp
    show ?thesis
    proof (cases "collect_expired_http01_challenges (clk 1) ?limit mid")
      case (Inl e)
      with run Inr p first show ?thesis by (simp add: maintain_def)
    next
      case q: (Inr q)
      obtain k mid' where q': "q = (k, mid')" by force
      have "stmts mid mid'"
        using q q' delete_expired_http01_stmts by (simp add: collect_expired_http01_challenges_def)
      moreover have "db' = snd (prune_outbox (clk 2) ?limit mid')"
        using run Inr p q q' by (simp add: maintain_def case_prod_beta Let_def)
      ultimately show ?thesis
        using first stmt.prune by (metis rtranclp.rtrancl_into_rtrancl rtranclp_trans)
    qed
  qed
qed

lemma put_http01_stmts: "put_http01_challenge r db = Inr (res, db') \<Longrightarrow> stmts db db'"
  using http01_stmt by (auto simp: put_http01_challenge_def Let_def tryE_Inr)

lemma delete_http01_stmts: "delete_http01_challenge k db = (res, db') \<Longrightarrow> stmts db db'"
  using http01_stmt by (auto simp: delete_http01_challenge_def)

end
