(* ===== verification/Store_Operations.thy ===== *)
theory Store_Operations
  imports Store_Trace Store_Fences Lease_Fences Reservation_Invariant Change_Feed
begin

text \<open>
  The writing operations of the trait \<^verbatim>\<open>ControlPlaneStore\<close> (\<^verbatim>\<open>store.rs\<close>) as one alphabet, the
  databases that any sequence of them reaches from the migrated, empty database, and the
  invariants of every such database. Each operation carries the database clock of its statements
  (any clock: the theorems hold for clocks that stand still or jump). An operation that reports an
  error before its commit leaves the database as it was.
\<close>

section \<open>Operations and runs\<close>

datatype store_op =
    RecordMaterialization int record_materialization_request
  | ClaimReconciliation int string string duration
  | RenewLease int string string u64 generation duration materialization_state
  | ReleaseLease int string string u64 generation
  | BeginEffect int materialization_effect_request
  | AcknowledgeEffect string string u64 u64 generation
  | AcceptWake "nat \<Rightarrow> int" accept_wake_request
  | RequestInstanceDeletion "nat \<Rightarrow> int" string generation
  | FinalizeInstanceDeletions int nat
  | BeginSleep "nat \<Rightarrow> int" begin_sleep_request
  | FinalizeSleep "nat \<Rightarrow> int" finalize_sleep_request
  | FinalizeSleepReconciliation "nat \<Rightarrow> int" lease_ref finalize_sleep_request
  | CompleteWake "nat \<Rightarrow> int" complete_wake_request
  | CompleteWakeReconciliation "nat \<Rightarrow> int" lease_ref complete_wake_request
  | DeleteMaterialization "nat \<Rightarrow> int" delete_materialization_request
  | ForceDelete int string operator_audit
  | ForceReleaseKey int materialization_target string string operator_audit
  | CreateInstance "nat \<Rightarrow> int" "int option" create_instance_request
  | DeleteInstance int string
  | CreateWorkloadClassVersion workload_class_version
  | CreateRouteBinding "nat \<Rightarrow> int" "int option" create_route_binding_request
  | DeleteRouteBinding int string
  | CompareAndSwapInstanceState int compare_and_swap_request
  | RecordFailure "nat \<Rightarrow> int" failure_request
  | Enqueue int string
  | Maintain "nat \<Rightarrow> int" nat
  | ExpireRecords int nat
  | PutHttp01 http01_challenge
  | DeleteHttp01 http01_key
  | ExpireHttp01 int int "nat option"

definition committed :: "store_db \<Rightarrow> store_error + ('a \<times> store_db) \<Rightarrow> store_db" where
  "committed db r = (case r of Inl e \<Rightarrow> db | Inr (_, db') \<Rightarrow> db')"

primrec exec :: "(string \<Rightarrow> json option) \<Rightarrow> store_op \<Rightarrow> store_db \<Rightarrow> store_db" where
  "exec yaml (RecordMaterialization now r) db = committed db (record_materialization now r db)"
| "exec yaml (ClaimReconciliation now mid owner ttl) db =
     committed db (claim_materialization_reconciliation now mid owner ttl db)"
| "exec yaml (RenewLease now mid owner attempt g ttl st) db =
     committed db (renew_materialization_reconciliation_lease now mid owner attempt g ttl st db)"
| "exec yaml (ReleaseLease now mid owner attempt g) db =
     committed db (release_materialization_reconciliation_lease now mid owner attempt g db)"
| "exec yaml (BeginEffect now r) db = committed db (begin_materialization_effect now r db)"
| "exec yaml (AcknowledgeEffect mid owner attempt eid g) db =
     committed db (acknowledge_materialization_effect mid owner attempt eid g db)"
| "exec yaml (AcceptWake clk r) db = committed db (accept_wake clk r db)"
| "exec yaml (RequestInstanceDeletion clk iid g) db = committed db (request_instance_deletion clk iid g db)"
| "exec yaml (FinalizeInstanceDeletions now limit) db = committed db (finalize_instance_deletions now limit db)"
| "exec yaml (BeginSleep clk r) db = committed db (begin_sleep clk r db)"
| "exec yaml (FinalizeSleep clk r) db = committed db (finalize_sleep clk r db)"
| "exec yaml (FinalizeSleepReconciliation clk lease r) db =
     committed db (finalize_sleep_reconciliation clk lease r db)"
| "exec yaml (CompleteWake clk r) db = committed db (complete_wake clk r db)"
| "exec yaml (CompleteWakeReconciliation clk lease r) db =
     committed db (complete_wake_reconciliation clk lease r db)"
| "exec yaml (DeleteMaterialization clk r) db = committed db (delete_materialization_reconciliation clk r db)"
| "exec yaml (ForceDelete now mid a) db = committed db (force_delete_materialization now mid a db)"
| "exec yaml (ForceReleaseKey now t name v a) db =
     committed db (force_release_exclusivity_key now t name v a db)"
| "exec yaml (CreateInstance clk retention r) db = committed db (create_instance yaml clk retention r db)"
| "exec yaml (DeleteInstance now iid) db = committed db (delete_instance now iid db)"
| "exec yaml (CreateWorkloadClassVersion c) db = committed db (create_workload_class_version yaml c db)"
| "exec yaml (CreateRouteBinding clk retention r) db = committed db (create_route_binding clk retention r db)"
| "exec yaml (DeleteRouteBinding now bid) db = committed db (delete_route_binding now bid db)"
| "exec yaml (CompareAndSwapInstanceState now r) db = committed db (compare_and_swap_instance_state now r db)"
| "exec yaml (RecordFailure clk r) db = committed db (record_failure clk r db)"
| "exec yaml (Enqueue now mid) db = committed db (enqueue now mid db)"
| "exec yaml (Maintain clk limit) db = snd (maintain clk limit db)"
| "exec yaml (ExpireRecords now limit) db = committed db (expire_records now limit db)"
| "exec yaml (PutHttp01 r) db = committed db (put_http01_challenge r db)"
| "exec yaml (DeleteHttp01 k) db = snd (delete_http01_challenge k db)"
| "exec yaml (ExpireHttp01 now cutoff limit) db = committed db (expire_http01_challenges now cutoff limit db)"

definition run :: "(string \<Rightarrow> json option) \<Rightarrow> store_op list \<Rightarrow> store_db \<Rightarrow> store_db" where
  "run yaml ops db = fold (exec yaml) ops db"

lemma run_simps [simp]: "run yaml [] db = db" "run yaml (x # xs) db = run yaml xs (exec yaml x db)"
    "run yaml (xs @ ys) db = run yaml ys (run yaml xs db)"
  by (simp_all add: run_def)

section \<open>Every operation is a sequence of statements\<close>

lemma committed_stmts:
  "(\<And>res db'. r = Inr (res, db') \<Longrightarrow> stmts db db') \<Longrightarrow> stmts db (committed db r)"
  by (cases r) (auto simp: committed_def)

lemma expire_http01_stmts: "expire_http01_challenges now cutoff limit db = Inr (n, db') \<Longrightarrow> stmts db db'"
  by (auto simp: expire_http01_challenges_def tryE_Inr dest: delete_expired_http01_stmts)

lemmas op_stmts =
  record_materialization_stmts claim_stmts renew_stmts release_stmts begin_effect_stmts
  acknowledge_effect_stmts accept_wake_stmts request_instance_deletion_stmts
  finalize_instance_deletions_stmts begin_sleep_stmts finalize_sleep_stmts
  finalize_sleep_reconciliation_stmts complete_wake_stmts complete_wake_reconciliation_stmts
  delete_materialization_stmts force_delete_stmts force_release_stmts create_instance_stmts
  delete_instance_stmts create_class_stmts create_route_binding_stmts delete_route_binding_stmts
  compare_and_swap_stmts record_failure_stmts enqueue_stmts expire_records_stmts put_http01_stmts
  expire_http01_stmts

lemmas pair_stmts =
  maintain_stmts [OF prod.collapse [symmetric]] delete_http01_stmts [OF prod.collapse [symmetric]]

lemma exec_stmts: "store_wf db \<Longrightarrow> stmts db (exec yaml x db)"
  by (cases x) (auto simp: finalize_sleep_def complete_wake_def pair_stmts intro!: committed_stmts elim: op_stmts)

section \<open>Invariants of the reachable databases\<close>

text \<open>
  A property that holds of the empty database and that every statement preserves holds of every
  database a run of operations reaches.
\<close>

locale store_invariant =
  fixes inv :: "store_db \<Rightarrow> bool"
  assumes initial: "inv (empty_db t)"
    and preserved: "stmt db db' \<Longrightarrow> store_wf db \<Longrightarrow> inv db \<Longrightarrow> inv db'"
begin

lemma along: "stmts db db' \<Longrightarrow> store_wf db \<Longrightarrow> inv db \<Longrightarrow> inv db' \<and> store_wf db'"
  by (induction rule: rtranclp_induct) (auto intro: preserved store_wf_stmt)

lemma after_run: "store_wf db \<Longrightarrow> inv db \<Longrightarrow> inv (run yaml ops db) \<and> store_wf (run yaml ops db)"
proof (induction ops arbitrary: db)
  case (Cons x ops)
  from along [OF exec_stmts [OF Cons.prems(1)] Cons.prems] Cons.IH show ?case by simp
qed simp

lemma reachable: "inv (run yaml ops (empty_db t))"
  using after_run [OF store_wf_empty initial] by blast

end

interpretation wf: store_invariant store_wf
  by unfold_locales (auto intro: store_wf_empty store_wf_stmt)

interpretation reservations: store_invariant reservations_ok
  by unfold_locales (auto intro: reservations_ok_empty reservations_ok_stmt)

interpretation watermarks: store_invariant watermarks_ok
  by unfold_locales (auto intro: watermarks_ok_empty watermarks_ok_stmt)

interpretation effects: store_invariant effects_ok
  by unfold_locales (auto intro: effects_ok_empty effects_ok_stmt)

interpretation feed: store_invariant feed_ok
  by unfold_locales (auto intro: feed_ok_empty feed_ok_stmt)

lemma run_stmts: "store_wf db \<Longrightarrow> stmts db (run yaml ops db)"
proof (induction ops arbitrary: db)
  case (Cons x ops)
  from exec_stmts [OF Cons.prems, of yaml x] wf.along [OF exec_stmts Cons.prems]
  show ?case using Cons.IH Cons.prems by (auto intro: rtranclp_trans)
qed simp

end
