(* ===== verification/Store_Examples.thy ===== *)
theory Store_Examples
  imports Store_Operations "HOL-Library.Code_Target_Nat"
begin

text \<open>
  A concrete history of the store: a workload class with an exclusivity key, an instance of it,
  its wake, the claim of the wake's reconciliation and its completion, a sleep and the wake that
  arrives while it drains. The evaluated databases are the concrete inputs of the witnesses.
\<close>

definition literal_text :: "string \<Rightarrow> template_text" where
  "literal_text s = \<lparr>tt_parts = [Literal s]\<rparr>"

definition sample_class :: workload_class_version where
  "sample_class =
     \<lparr>wc_reference = \<lparr>wr_class_id = ''web'', wr_version = 1\<rparr>, wc_template_generation = 1,
      wc_template =
        \<lparr>mt_workload = \<lparr>wt_kind = Deployment, wt_name = literal_text ''web'', wt_replicas = Some 1,
           wt_app_container = \<lparr>ct_name = ''app'', ct_image = literal_text ''img'', ct_ports = [], ct_env = []\<rparr>\<rparr>,
         mt_sidecar = \<lparr>st_name = ''sidecar'', st_image = literal_text ''sc'', st_listen_port = 8080, st_mode = None\<rparr>,
         mt_service = None, mt_volumes = [], mt_raw_objects = []\<rparr>,
      wc_default_values = [], wc_value_schema = \<lparr>vs_fields = [], vs_allow_extra = True\<rparr>,
      wc_sleep_policy = \<lparr>sp_idle_timeout_ms = 1000, sp_idle_retry_backoff_ms = 1000,
        sp_drain_grace_timeout_ms = 1000, sp_idle_timeout_override = None\<rparr>,
      wc_exclusivity_keys = []\<rparr>"

definition sample_target :: materialization_target where
  "sample_target = \<lparr>mt_cluster_id = ''c1'', mt_namespace = ''ns''\<rparr>"

definition sample_route :: route_binding_spec where
  "sample_route = \<lparr>bs_identity = HttpIdentity \<lparr>rh_kind = ExactHost, rh_host = ''a.b''\<rparr> None, bs_protocol = HttpProtocol\<rparr>"

definition sample_create :: create_instance_request where
  "sample_create =
     \<lparr>cr_idempotency_key = ''k'', cr_instance_id = ''a'',
      cr_workload_class = \<lparr>wr_class_id = ''web'', wr_version = 1\<rparr>, cr_values = [],
      cr_route_bindings = [sample_route]\<rparr>"

definition sample_pending :: record_materialization_request where
  "sample_pending =
     \<lparr>rm_instance_id = ''a'', rm_instance_generation = 1, rm_projection_generation = 2,
      rm_target = sample_target, rm_state = Pending, rm_backend = None, rm_backend_generation = 1,
      rm_rendered_objects = [\<lparr>ro_api_version = ''apps/v1'', ro_kind = ''Deployment'', ro_namespace = ''ns'', ro_name = ''a''\<rparr>],
      rm_exclusivity_keys = [\<lparr>ek_name = ''disk'', ek_value = ''d1''\<rparr>]\<rparr>"

definition sample_wake :: accept_wake_request where
  "sample_wake = \<lparr>aw_expected_generation = 0, aw_pending = sample_pending\<rparr>"

abbreviation no_yaml :: "string \<Rightarrow> json option" where
  "no_yaml \<equiv> \<lambda>_. None"

definition sample_setup :: "store_op list" where
  "sample_setup = [CreateWorkloadClassVersion sample_class, CreateInstance (\<lambda>n. 0) None sample_create,
     AcceptWake (\<lambda>n. 0) sample_wake]"

definition sample_row :: materialization_row where
  "sample_row =
     \<lparr>mr_id = ''a:c1:ns'', mr_instance_id = ''a'', mr_instance_generation = 1, mr_projection_generation = 2,
      mr_cluster_id = ''c1'', mr_namespace = ''ns'', mr_state = Pending, mr_backend_uri = None,
      mr_backend_address = None, mr_backend_generation = 1,
      mr_rendered_objects = rm_rendered_objects sample_pending,
      mr_exclusivity_keys = rm_exclusivity_keys sample_pending,
      mr_reconcile_owner = None, mr_lease_expires_at = None, mr_reconcile_attempt = 0,
      mr_state_entered_at = 0, mr_next_attempt_at = 0, mr_drain_not_before = 0,
      mr_wake_failure_message = [], mr_failure_requires_cleanup = False, mr_failure_count = 0,
      mr_failure_kind = None, mr_failure_message = [], mr_operation_deadline = 600\<rparr>"

definition sample_instance :: "instance_state \<Rightarrow> int \<Rightarrow> instance_row" where
  "sample_instance st g =
     \<lparr>ir_id = ''a'', ir_class_id = ''web'', ir_class_version = 1, ir_values = [], ir_state = st, ir_generation = g\<rparr>"

lemma sample_setup_rows:
  "db_materializations (run no_yaml sample_setup (empty_db 600)) = [sample_row]"
  "db_instances (run no_yaml sample_setup (empty_db 600)) = [sample_instance Waking 1]"
  by code_simp+

text \<open>A worker claims the wake and completes it.\<close>

definition sample_complete :: complete_wake_request where
  "sample_complete =
     \<lparr>cw_instance_id = ''a'', cw_expected_waking_generation = 1, cw_target = sample_target,
      cw_backend = \<lparr>be_uri = ''http://10.0.0.1'', be_address = None\<rparr>, cw_backend_generation = 1,
      cw_rendered_objects = rm_rendered_objects sample_pending,
      cw_exclusivity_keys = rm_exclusivity_keys sample_pending\<rparr>"

definition sample_lease :: lease_ref where
  "sample_lease = \<lparr>lr_materialization_id = ''a:c1:ns'', lr_owner = ''w1'', lr_attempt = 1\<rparr>"

definition sample_claim :: "store_op list" where
  "sample_claim = [ClaimReconciliation 0 ''a:c1:ns'' ''w1'' (from_millis 1000)]"

definition sample_claimed_row :: materialization_row where
  "sample_claimed_row = sample_row\<lparr>mr_reconcile_owner := Some ''w1'', mr_lease_expires_at := Some 1000,
     mr_reconcile_attempt := 1\<rparr>"

lemma sample_claimed_rows:
  "db_materializations (run no_yaml (sample_setup @ sample_claim) (empty_db 600)) = [sample_claimed_row]"
  by code_simp

definition sample_effect :: materialization_effect_request where
  "sample_effect =
     \<lparr>me_effect_id = 1, me_materialization_id = ''a:c1:ns'', me_owner = ''w1'', me_attempt = 1,
      me_instance_generation = 1, me_expected_state = Pending, me_operation = ''apply'',
      me_object = hd (rm_rendered_objects sample_pending), me_precondition = None\<rparr>"

definition sample_running :: "store_op list" where
  "sample_running = sample_setup @ sample_claim @ [
     CompleteWakeReconciliation (\<lambda>n. 10) sample_lease sample_complete]"

lemma sample_running_rows:
  "db_instances (run no_yaml sample_running (empty_db 600)) = [sample_instance Running 2]"
  by code_simp

definition sample_draining :: "store_op list" where
  "sample_draining = sample_running @ [BeginSleep (\<lambda>n. 20) \<lparr>bs_instance_id = ''a'',
     bs_expected_running_generation = 2, bs_target = sample_target, bs_drain_grace_timeout = 0,
     bs_minimum_ready_age = None\<rparr>]"

end
