(* ===== verification/Lease_Protocol.thy ===== *)
theory Lease_Protocol
  imports Store_Examples
begin

text \<open>
  The reconciliation lease of a materialization as a fenced lock. The abstract lock has an owner,
  an expiry and an attempt number; claiming, renewing and releasing the lease in the database
  refine its operations, and its contract is proved once, for any implementation of it.
\<close>

section \<open>Updates that leave the projection alone\<close>

text \<open>
  An update of lease columns fires no trigger: the state, the references and the columns the
  routes depend on are as they were.
\<close>

definition quiet :: "materialization_row \<Rightarrow> materialization_row \<Rightarrow> bool" where
  "quiet m n \<longleftrightarrow> mr_state n = mr_state m \<and> mr_rendered_objects n = mr_rendered_objects m
     \<and> mr_exclusivity_keys n = mr_exclusivity_keys m \<and> mr_cluster_id n = mr_cluster_id m
     \<and> mr_namespace n = mr_namespace m \<and> mr_backend_uri n = mr_backend_uri m
     \<and> mr_backend_address n = mr_backend_address m \<and> mr_backend_generation n = mr_backend_generation m
     \<and> mr_instance_generation n = mr_instance_generation m \<and> mr_failure_kind n = mr_failure_kind m"

lemma quiet_triggers:
  assumes "quiet m n"
  shows "reset_materialization_schedule now timeout m n = Inr n"
    and "track_materialization_state_age now m n = n"
    and "sync_materialization_reservations (Some m) n db = Inr db"
    and "\<not> route_visible_change m n"
  using assms
  by (auto simp: quiet_def reset_materialization_schedule_def track_materialization_state_age_def
      sync_materialization_reservations_def route_visible_change_def)

lemma sync_rows_quiet: "\<forall>(m, n) \<in> set ps. quiet m n \<Longrightarrow> sync_rows ps db = Inr db"
  by (induction ps) (auto simp: quiet_triggers)

lemma collectE_map: "(\<And>x. x \<in> set xs \<Longrightarrow> f x = Inr (g x)) \<Longrightarrow> collectE f xs = Inr (map g xs)"
  by (induction xs) auto

lemma update_quiet:
  assumes "\<And>m. m \<in> set (db_materializations db) \<Longrightarrow> P m \<Longrightarrow> f m = Inr (g m) \<and> quiet m (g m)"
  shows "update_materializations now P f db =
    Inr (map g (filter P (db_materializations db)),
         db\<lparr>db_materializations := map (\<lambda>m. if P m then g m else m) (db_materializations db)\<rparr>)"
proof -
  let ?ms = "db_materializations db" and ?h = "\<lambda>m. if P m then g m else m"
  let ?ps = "filter (P \<circ> fst) (zip ?ms (map ?h ?ms))"
  have rows: "collectE (update_row now (db_operation_timeout db) P f) ?ms = Inr (map ?h ?ms)"
    using assms by (intro collectE_map) (auto simp: update_row_def quiet_triggers)
  have ps: "?ps = map (\<lambda>m. (m, g m)) (filter P ?ms)"
    by (induction ?ms) (simp_all add: zip_map2 filter_map comp_def zip_same_conv_map)
  have quiet: "\<forall>(m, n) \<in> set ?ps. quiet m n"
    using assms unfolding ps by auto
  then have "filter (\<lambda>(old, new). route_visible_change old new) ?ps = []"
    using quiet_triggers(4) by (auto simp: filter_empty_conv)
  then show ?thesis
    unfolding update_materializations_def rows tryE_simps Let_def sync_rows_quiet [OF quiet]
    by (simp add: record_route_changes_def ps)
qed

lemma update_none:
  assumes "\<And>m. m \<in> set (db_materializations db) \<Longrightarrow> \<not> P m"
  shows "update_materializations now P f db = Inr ([], db)"
proof -
  have "filter P (db_materializations db) = []" "map (\<lambda>m. if P m then m else m) (db_materializations db) = db_materializations db"
    using assms by (auto simp: filter_empty_conv)
  then show ?thesis
    using update_quiet [of db P f "\<lambda>m. m" now] assms by simp
qed

text \<open>The one row with an id.\<close>

definition set_row :: "materialization_row \<Rightarrow> store_db \<Rightarrow> store_db" where
  "set_row n db = db\<lparr>db_materializations := map (\<lambda>m. if mr_id m = mr_id n then n else m) (db_materializations db)\<rparr>"

lemma update_one_quiet:
  assumes wf: "store_wf db" and m: "m \<in> set (db_materializations db)"
    and P: "P m" "\<And>n. P n \<Longrightarrow> mr_id n = mr_id m"
    and f: "f m = Inr n" "quiet m n" "mr_id n = mr_id m"
  shows "update_materializations now P f db = Inr ([n], set_row n db)"
proof -
  let ?ms = "db_materializations db"
  have only: "P x \<longleftrightarrow> x = m" "mr_id x = mr_id n \<longleftrightarrow> x = m" if "x \<in> set ?ms" for x
    using P(1) P(2) [of x] f(3) row_unique [OF wf that m] by metis+
  obtain A B where ms: "?ms = A @ m # B" using split_list [OF m] by blast
  have "distinct ?ms" using wf by (simp add: store_wf_def distinct_map)
  then have "filter P A = []" "filter P B = []"
    using only(1) unfolding ms by (force simp: filter_empty_conv)+
  then have rows: "filter P ?ms = [m]"
    using P(1) by (simp add: ms)
  have tab: "map (\<lambda>x. if P x then n else x) ?ms = map (\<lambda>x. if mr_id x = mr_id n then n else x) ?ms"
    using only by (intro map_cong) simp_all
  have "f x = Inr n \<and> quiet x n" if "x \<in> set ?ms" "P x" for x
    using only(1) [OF that(1)] that(2) f by simp
  from update_quiet [of db P f "\<lambda>_. n" now, OF this, unfolded rows tab] show ?thesis
    by (simp add: set_row_def)
qed

section \<open>The contract of a fenced lock\<close>

text \<open>
  A lock whose holders expire and whose every acquisition has a new, larger token. \<^verbatim>\<open>held now w a\<close>
  means that \<^verbatim>\<open>w\<close> holds it at time \<^verbatim>\<open>now\<close> with token \<^verbatim>\<open>a\<close>.
\<close>

locale fenced_lock =
  fixes token_of :: "'s \<Rightarrow> int"
    and free :: "int \<Rightarrow> 's \<Rightarrow> bool"
    and held :: "int \<Rightarrow> string \<Rightarrow> int \<Rightarrow> 's \<Rightarrow> bool"
    and acquire_lock :: "int \<Rightarrow> string \<Rightarrow> int \<Rightarrow> 's \<Rightarrow> 's"
    and renew_lock :: "int \<Rightarrow> string \<Rightarrow> int \<Rightarrow> int \<Rightarrow> 's \<Rightarrow> 's"
    and release_lock :: "int \<Rightarrow> string \<Rightarrow> int \<Rightarrow> 's \<Rightarrow> 's"
  assumes held_token: "held now w a s \<Longrightarrow> a = token_of s"
    and held_owner: "held now w a s \<Longrightarrow> held now' w' a s \<Longrightarrow> w' = w"
    and held_busy: "held now w a s \<Longrightarrow> \<not> free now s"
    and acquire_free: "free now s \<Longrightarrow> 0 < ttl \<Longrightarrow> held now w (token_of s + 1) (acquire_lock now w ttl s)"
    and acquire_busy: "\<not> free now s \<Longrightarrow> acquire_lock now w ttl s = s"
    and renew_held: "held now w a s \<Longrightarrow> 0 < ttl \<Longrightarrow> held now w a (renew_lock now w a ttl s)"
    and renew_other: "\<not> held now w a s \<Longrightarrow> renew_lock now w a ttl s = s"
    and release_held: "held now w a s \<Longrightarrow> free now' (release_lock now w a s) \<and> token_of (release_lock now w a s) = a"
    and release_other: "\<not> held now w a s \<Longrightarrow> release_lock now w a s = s"
begin

text \<open>At most one holder.\<close>

lemma one_holder: "held now w a s \<Longrightarrow> held now w' a' s \<Longrightarrow> w' = w \<and> a' = a"
  using held_token [of now w a s] held_token [of now w' a' s] held_owner [of now w a s now w'] by blast

text \<open>The token never falls, and it grows when the lock changes hands.\<close>

lemma acquire_token: "0 < ttl \<Longrightarrow> token_of s \<le> token_of (acquire_lock now w ttl s)"
  using held_token [OF acquire_free, of now s ttl w] acquire_busy by (cases "free now s") auto

lemma renew_token: "0 < ttl \<Longrightarrow> token_of (renew_lock now w a ttl s) = token_of s"
  using held_token [of now w a s] held_token [OF renew_held, of now w a s ttl] renew_other
  by (cases "held now w a s") auto

lemma release_token: "token_of (release_lock now w a s) = token_of s"
  using held_token [of now w a s] release_held [of now w a s] release_other by (cases "held now w a s") auto

text \<open>While it is held, no other worker's operation changes anything.\<close>

lemma undisturbed:
  assumes "held now w a s" "w' \<noteq> w"
  shows "acquire_lock now w' ttl s = s" "renew_lock now w' a' ttl s = s" "release_lock now w' a' s = s"
proof -
  have "\<not> held now w' a' s" for a' using assms one_holder by blast
  then show "acquire_lock now w' ttl s = s" "renew_lock now w' a' ttl s = s" "release_lock now w' a' s = s"
    using acquire_busy [OF held_busy [OF assms(1)]] by (auto intro: renew_other release_other)
qed

text \<open>A worker whose lease was taken over can neither renew nor release it.\<close>

lemma fenced_off:
  assumes "a < token_of s"
  shows "renew_lock now w a ttl s = s" "release_lock now w a s = s"
proof -
  have "\<not> held now w a s" using assms held_token by fastforce
  then show "renew_lock now w a ttl s = s" "release_lock now w a s = s"
    by (auto intro: renew_other release_other)
qed

end

section \<open>The lease columns are a fenced lock\<close>

record lease_view =
  lv_attempt :: int
  lv_owner :: "string option"
  lv_expires :: "int option"

definition lease_of :: "materialization_row \<Rightarrow> lease_view" where
  "lease_of m = \<lparr>lv_attempt = mr_reconcile_attempt m, lv_owner = mr_reconcile_owner m,
     lv_expires = mr_lease_expires_at m\<rparr>"

definition lease_free :: "int \<Rightarrow> lease_view \<Rightarrow> bool" where
  "lease_free now v \<longleftrightarrow> lv_owner v = None \<or> (case lv_expires v of None \<Rightarrow> False | Some e \<Rightarrow> e \<le> now)"

definition lease_held :: "int \<Rightarrow> string \<Rightarrow> int \<Rightarrow> lease_view \<Rightarrow> bool" where
  "lease_held now w a v \<longleftrightarrow> lv_owner v = Some w \<and> lv_attempt v = a
     \<and> (case lv_expires v of None \<Rightarrow> False | Some e \<Rightarrow> e > now)"

definition lease_acquire :: "int \<Rightarrow> string \<Rightarrow> int \<Rightarrow> lease_view \<Rightarrow> lease_view" where
  "lease_acquire now w ttl v =
     (if lease_free now v
      then \<lparr>lv_attempt = lv_attempt v + 1, lv_owner = Some w, lv_expires = Some (now + ttl)\<rparr> else v)"

definition lease_renew :: "int \<Rightarrow> string \<Rightarrow> int \<Rightarrow> int \<Rightarrow> lease_view \<Rightarrow> lease_view" where
  "lease_renew now w a ttl v = (if lease_held now w a v then v\<lparr>lv_expires := Some (now + ttl)\<rparr> else v)"

definition lease_release :: "int \<Rightarrow> string \<Rightarrow> int \<Rightarrow> lease_view \<Rightarrow> lease_view" where
  "lease_release now w a v =
     (if lease_held now w a v then v\<lparr>lv_owner := None, lv_expires := None\<rparr> else v)"

interpretation lease: fenced_lock lv_attempt lease_free lease_held lease_acquire lease_renew lease_release
  by unfold_locales
    (auto simp: lease_free_def lease_held_def lease_acquire_def lease_renew_def lease_release_def
      split: option.splits)

section \<open>Refinement\<close>

definition work_due :: "int \<Rightarrow> store_db \<Rightarrow> materialization_row \<Rightarrow> bool" where
  "work_due now db m \<longleftrightarrow> in_backlog m \<and> retry_allowed m \<and> \<not> has_effect db (mr_id m)
     \<and> mr_next_attempt_at m \<le> now \<and> mr_drain_not_before m \<le> now"

lemma claimable_due: "claimable now db m \<longleftrightarrow> work_due now db m \<and> lease_free now (lease_of m)"
  by (auto simp: claimable_def work_due_def lease_free_def lease_of_def lease_expired_def)

lemma lease_held_row:
  "lease_held now w a (lease_of m) \<longleftrightarrow> mr_reconcile_owner m = Some w \<and> mr_reconcile_attempt m = a \<and> lease_live now m"
  by (auto simp: lease_held_def lease_of_def lease_live_def split: option.splits)

lemma set_row_same: "store_wf db \<Longrightarrow> m \<in> set (db_materializations db) \<Longrightarrow> set_row m db = db"
proof -
  assume "store_wf db" "m \<in> set (db_materializations db)"
  then have "map (\<lambda>x. if mr_id x = mr_id m then m else x) (db_materializations db) = db_materializations db"
    by (intro map_idI) (auto dest: row_unique)
  then show ?thesis by (simp add: set_row_def)
qed

text \<open>Time and counters within \<^verbatim>\<open>bigint\<close>.\<close>

definition in_time :: "int \<Rightarrow> int \<Rightarrow> bool" where
  "in_time now ttl \<longleftrightarrow> 0 \<le> now \<and> 0 \<le> ttl \<and> now + ttl \<le> i64_max"

lemma in_time_add: "in_time now ttl \<Longrightarrow> pg_add now ttl = Inr (now + ttl)"
  by (simp add: in_time_def pg_add_def i64_max_def)

lemma lease_ttl_positive: "lease_ttl_millis ttl = Inr ms \<Longrightarrow> 0 < ms"
  by (auto simp: lease_ttl_millis_def Let_def split: if_splits)

lemma lease_of_updates [simp]:
  "lease_of (m\<lparr>mr_reconcile_owner := w, mr_lease_expires_at := e, mr_reconcile_attempt := a\<rparr>)
     = \<lparr>lv_attempt = a, lv_owner = w, lv_expires = e\<rparr>"
  "lease_of (m\<lparr>mr_lease_expires_at := e\<rparr>) = (lease_of m)\<lparr>lv_expires := e\<rparr>"
  "lease_of (m\<lparr>mr_reconcile_owner := w, mr_lease_expires_at := e, mr_next_attempt_at := t\<rparr>)
     = (lease_of m)\<lparr>lv_owner := w, lv_expires := e\<rparr>"
  by (simp_all add: lease_of_def)

lemma claim_refines:
  assumes wf: "store_wf db" "m \<in> set (db_materializations db)" and due: "work_due now db m"
    and args: "\<not> is_blank w" "lease_ttl_millis ttl = Inr ms"
    and range: "in_time now ms" "0 \<le> mr_reconcile_attempt m" "mr_reconcile_attempt m < i64_max"
  shows "\<exists>m' res. claim_materialization_reconciliation now (mr_id m) w ttl db = Inr (res, set_row m' db)
     \<and> mr_id m' = mr_id m \<and> lease_of m' = lease_acquire now w ms (lease_of m)"
proof (cases "lease_free now (lease_of m)")
  case True
  let ?n = "m\<lparr>mr_reconcile_owner := Some w, mr_lease_expires_at := Some (now + ms),
    mr_reconcile_attempt := mr_reconcile_attempt m + 1\<rparr>"
  have "claim_statement now (mr_id m) w ms db = Inr ([?n], set_row ?n db)"
    unfolding claim_statement_def
    by (rule update_one_quiet [OF wf])
      (use True due range in \<open>auto simp: claimable_due in_time_def quiet_def pg_add_def i64_max_def\<close>)
  then show ?thesis
    using args True
    by (intro exI [of _ ?n])
      (auto simp: claim_materialization_reconciliation_def validate_lease_owner_def ensure_def lease_acquire_def lease_of_def)
next
  case False
  have "claim_statement now (mr_id m) w ms db = Inr ([], db)"
    unfolding claim_statement_def
    by (rule update_none) (use False row_unique [OF wf(1) _ wf(2)] in \<open>auto simp: claimable_due\<close>)
  then show ?thesis
    using args False set_row_same [OF wf]
    by (intro exI [of _ m])
      (auto simp: claim_materialization_reconciliation_def validate_lease_owner_def ensure_def lease_acquire_def)
qed

lemma renew_refines:
  assumes wf: "store_wf db" "m \<in> set (db_materializations db)" and work: "in_backlog m"
    and args: "\<not> is_blank w" "lease_ttl_millis ttl = Inr ms" "lease_attempt attempt = Inr a"
      "generation_to_i64 g = Inr (mr_instance_generation m)"
    and range: "in_time now ms"
  shows "\<exists>m'. renew_materialization_reconciliation_lease now (mr_id m) w attempt g ttl (mr_state m) db
       = Inr (lease_held now w a (lease_of m), set_row m' db)
     \<and> mr_id m' = mr_id m \<and> lease_of m' = lease_renew now w a ms (lease_of m)"
proof (cases "lease_held now w a (lease_of m)")
  case True
  let ?n = "m\<lparr>mr_lease_expires_at := Some (now + ms)\<rparr>"
  have "renew_statement now (mr_id m) w a (mr_instance_generation m) (mr_state m) ms db = Inr ([?n], set_row ?n db)"
    unfolding renew_statement_def
    by (rule update_one_quiet [OF wf])
      (use True work range in \<open>auto simp: lease_held_row in_time_add quiet_def\<close>)
  then show ?thesis
    using args True
    by (intro exI [of _ ?n])
      (auto simp: renew_materialization_reconciliation_lease_def validate_lease_owner_def ensure_def lease_renew_def)
next
  case False
  have "renew_statement now (mr_id m) w a (mr_instance_generation m) (mr_state m) ms db = Inr ([], db)"
    unfolding renew_statement_def
    by (rule update_none) (use False row_unique [OF wf(1) _ wf(2)] in \<open>auto simp: lease_held_row\<close>)
  then show ?thesis
    using args False set_row_same [OF wf]
    by (intro exI [of _ m])
      (auto simp: renew_materialization_reconciliation_lease_def validate_lease_owner_def ensure_def lease_renew_def)
qed

lemma release_refines:
  assumes wf: "store_wf db" "m \<in> set (db_materializations db)" and work: "in_backlog m" "\<not> has_effect db (mr_id m)"
    and args: "\<not> is_blank w" "lease_attempt attempt = Inr a" "generation_to_i64 g = Inr (mr_instance_generation m)"
  shows "\<exists>m'. release_materialization_reconciliation_lease now (mr_id m) w attempt g db
       = Inr (lease_held now w a (lease_of m), set_row m' db)
     \<and> mr_id m' = mr_id m \<and> lease_of m' = lease_release now w a (lease_of m)"
proof (cases "lease_held now w a (lease_of m)")
  case True
  let ?n = "m\<lparr>mr_reconcile_owner := None, mr_lease_expires_at := None, mr_next_attempt_at := now\<rparr>"
  have "release_statement now (mr_id m) w a (mr_instance_generation m) db = Inr ([?n], set_row ?n db)"
    unfolding release_statement_def
    by (rule update_one_quiet [OF wf]) (use True work in \<open>auto simp: lease_held_row quiet_def\<close>)
  then show ?thesis
    using args True
    by (intro exI [of _ ?n])
      (auto simp: release_materialization_reconciliation_lease_def validate_lease_owner_def ensure_def lease_release_def)
next
  case False
  have "release_statement now (mr_id m) w a (mr_instance_generation m) db = Inr ([], db)"
    unfolding release_statement_def
    by (rule update_none) (use False row_unique [OF wf(1) _ wf(2)] in \<open>auto simp: lease_held_row\<close>)
  then show ?thesis
    using args False set_row_same [OF wf]
    by (intro exI [of _ m])
      (auto simp: release_materialization_reconciliation_lease_def validate_lease_owner_def ensure_def lease_release_def)
qed

text \<open>
  C3. On a materialization with due work the lease operations of the database refine the
  operations of the fenced lock: after a claim, a renewal or a release the row's lease is the
  lock's next state, every other row is unchanged, and renewal and release report whether the
  caller held the lock.
\<close>

theorem lease_operations_refine_lock:
  assumes "store_wf db" "m \<in> set (db_materializations db)" "work_due now db m" "\<not> is_blank w"
    and "lease_ttl_millis ttl = Inr ms" "lease_attempt attempt = Inr a"
    and "generation_to_i64 g = Inr (mr_instance_generation m)"
    and "in_time now ms" "0 \<le> mr_reconcile_attempt m" "mr_reconcile_attempt m < i64_max"
  shows "(\<exists>m' res. claim_materialization_reconciliation now (mr_id m) w ttl db = Inr (res, set_row m' db)
            \<and> mr_id m' = mr_id m \<and> lease_of m' = lease_acquire now w ms (lease_of m))
     \<and> (\<exists>m'. renew_materialization_reconciliation_lease now (mr_id m) w attempt g ttl (mr_state m) db
              = Inr (lease_held now w a (lease_of m), set_row m' db)
            \<and> mr_id m' = mr_id m \<and> lease_of m' = lease_renew now w a ms (lease_of m))
     \<and> (\<exists>m'. release_materialization_reconciliation_lease now (mr_id m) w attempt g db
              = Inr (lease_held now w a (lease_of m), set_row m' db)
            \<and> mr_id m' = mr_id m \<and> lease_of m' = lease_release now w a (lease_of m))"
proof -
  have work: "in_backlog m" "\<not> has_effect db (mr_id m)"
    using assms(3) by (simp_all add: work_due_def)
  from claim_refines [OF assms(1-5,8-10)] renew_refines [OF assms(1,2) work(1) assms(4-8)]
    release_refines [OF assms(1,2) work assms(4,6,7)]
  show ?thesis by blast
qed

lemma lease_operations_refine_lock_witness:
  "\<exists>m' res. claim_materialization_reconciliation 5 ''a:c1:ns'' ''w2'' (from_millis 1000)
       (run no_yaml sample_setup (empty_db 600)) = Inr (res, set_row m' (run no_yaml sample_setup (empty_db 600)))
     \<and> lease_of m' = \<lparr>lv_attempt = 1, lv_owner = Some ''w2'', lv_expires = Some 1005\<rparr>"
proof -
  let ?db = "run no_yaml sample_setup (empty_db 600)"
  have "sample_row \<in> set (db_materializations ?db)" "work_due 5 ?db sample_row"
    by (simp add: sample_setup_rows) code_simp
  moreover have "\<not> is_blank ''w2''" "lease_ttl_millis (from_millis 1000) = Inr 1000" "lease_attempt 1 = Inr 1"
      "generation_to_i64 1 = Inr (mr_instance_generation sample_row)" "in_time 5 1000"
      "0 \<le> mr_reconcile_attempt sample_row" "mr_reconcile_attempt sample_row < i64_max"
    by code_simp+
  ultimately show ?thesis
    using lease_operations_refine_lock [OF wf.reachable, of sample_row no_yaml sample_setup 600 5 "''w2''"
        "from_millis 1000" 1000 1 1 1]
    by (auto simp: lease_acquire_def lease_free_def lease_of_def sample_row_def)
qed

section \<open>Exclusion\<close>

lemma lease_attempt_Inr: "lease_attempt attempt = Inr v \<Longrightarrow> v = uint attempt \<and> 0 < v"
  by (auto simp: lease_attempt_def ok_or_Inr i64_of_u64_Some split: option.splits if_splits)

lemma other_holder:
  assumes "store_wf db" "m \<in> set (db_materializations db)" "lease_held now w a (lease_of m)"
    and "x \<in> set (db_materializations db)" "mr_id x = mr_id m" "mr_reconcile_owner x = Some w'"
  shows "w' = w \<and> mr_reconcile_attempt x = a"
  using row_unique [OF assms(1,4,2,5)] assms(3,6) by (auto simp: lease_held_row)

text \<open>
  C9. While a worker's lease on a materialization is live, nobody else gets in: a claim finds
  nothing to claim, and the renewals and releases of another worker, or of an earlier attempt of
  the same worker, change nothing and report so.
\<close>

theorem held_lease_excludes_others:
  assumes "store_wf db" "m \<in> set (db_materializations db)" "lease_held now w a (lease_of m)"
  shows "(claim_materialization_reconciliation now (mr_id m) w' ttl db = Inr (res, db') \<longrightarrow> res = Inr None \<and> db' = db)
     \<and> ((w', uint attempt) \<noteq> (w, a) \<longrightarrow>
        (renew_materialization_reconciliation_lease now (mr_id m) w' attempt g ttl st db = Inr (ok, db') \<longrightarrow> \<not> ok \<and> db' = db)
      \<and> (release_materialization_reconciliation_lease now (mr_id m) w' attempt g db = Inr (ok, db') \<longrightarrow> \<not> ok \<and> db' = db))"
proof (intro conjI impI)
  have "claim_statement now (mr_id m) w' ms db = Inr ([], db)" for ms
    unfolding claim_statement_def
    by (rule update_none) (use row_unique [OF assms(1) _ assms(2)] lease.held_busy [OF assms(3)] in \<open>auto simp: claimable_due\<close>)
  moreover assume "claim_materialization_reconciliation now (mr_id m) w' ttl db = Inr (res, db')"
  ultimately show "res = Inr None" "db' = db"
    by (auto simp: claim_materialization_reconciliation_def tryE_Inr first_row_def transposeE_def)
next
  assume other: "(w', uint attempt) \<noteq> (w, a)"
  have "renew_statement now (mr_id m) w' (uint attempt) gi st ms db = Inr ([], db)" for gi ms
    unfolding renew_statement_def by (rule update_none) (use other other_holder [OF assms] in auto)
  moreover assume "renew_materialization_reconciliation_lease now (mr_id m) w' attempt g ttl st db = Inr (ok, db')"
  ultimately show "\<not> ok" "db' = db"
    by (auto simp: renew_materialization_reconciliation_lease_def tryE_Inr dest!: lease_attempt_Inr)
next
  assume other: "(w', uint attempt) \<noteq> (w, a)"
  have "release_statement now (mr_id m) w' (uint attempt) gi db = Inr ([], db)" for gi
    unfolding release_statement_def by (rule update_none) (use other other_holder [OF assms] in auto)
  moreover assume "release_materialization_reconciliation_lease now (mr_id m) w' attempt g db = Inr (ok, db')"
  ultimately show "\<not> ok" "db' = db"
    by (auto simp: release_materialization_reconciliation_lease_def tryE_Inr dest!: lease_attempt_Inr)
qed

lemma held_lease_excludes_others_witness:
  "let db = run no_yaml (sample_setup @ sample_claim) (empty_db 600) in
     lease_held 999 ''w1'' 1 (lease_of sample_claimed_row)
     \<and> (\<exists>res. claim_materialization_reconciliation 999 ''a:c1:ns'' ''w2'' (from_millis 1000) db = Inr (res, db))"
proof -
  let ?db = "run no_yaml (sample_setup @ sample_claim) (empty_db 600)"
  have mem: "sample_claimed_row \<in> set (db_materializations ?db)"
    unfolding sample_claimed_rows by simp
  have held: "lease_held 999 ''w1'' 1 (lease_of sample_claimed_row)" by code_simp
  have "\<exists>res db'. claim_materialization_reconciliation 999 ''a:c1:ns'' ''w2'' (from_millis 1000) ?db = Inr (res, db')"
    by (rule exI, rule exI) code_simp
  then show ?thesis
    using held_lease_excludes_others [OF wf.reachable mem held] held
    by (auto simp: Let_def sample_claimed_row_def sample_row_def)
qed

end
