(* ===== verification/Store_Properties.thy ===== *)
theory Store_Properties
  imports Lease_Protocol
begin

text \<open>
  What holds of the store after any sequence of its operations, from the migrated, empty database.
\<close>

section \<open>Exclusive ownership\<close>

text \<open>
  C2. After any sequence of operations no two materializations hold the same Kubernetes object
  or the same exclusivity key: two workloads never share a disk, a claim or an object.
\<close>

theorem exclusive_ownership:
  assumes "m \<in> set (db_materializations (run yaml ops (empty_db t)))"
    and "n \<in> set (db_materializations (run yaml ops (empty_db t)))"
    and "k \<in> set (held_keys m) \<and> k \<in> set (held_keys n) \<or> ob \<in> set (held_objects m) \<and> ob \<in> set (held_objects n)"
  shows "m = n"
proof -
  let ?db = "run yaml ops (empty_db t)"
  have ok: "objects.reserved (db_materializations ?db) (db_object_reservations ?db)"
      "exclusivity.reserved (db_materializations ?db) (db_key_reservations ?db)"
    using reservations.reachable [of yaml ops t] by (simp_all add: reservations_ok_def)
  have ids: "distinct (map mr_id (db_materializations ?db))"
    using wf.reachable [of yaml ops t] by (simp add: store_wf_def)
  from assms(3) show ?thesis
    using exclusivity.exclusive [OF ok(2) ids assms(1,2)] objects.exclusive [OF ok(1) ids assms(1,2)] by blast
qed

lemma exclusive_ownership_witness:
  "let ms = db_materializations (run no_yaml sample_setup (empty_db 600)) in
     ms \<noteq> [] \<and> (''c1'', ''ns'', ''disk'', ''d1'') \<in> set (held_keys (hd ms)) \<and> hd ms = last ms"
proof -
  let ?ms = "db_materializations (run no_yaml sample_setup (empty_db 600))"
  have held: "?ms \<noteq> []" "(''c1'', ''ns'', ''disk'', ''d1'') \<in> set (held_keys (hd ?ms))"
      "(''c1'', ''ns'', ''disk'', ''d1'') \<in> set (held_keys (last ?ms))"
    unfolding sample_setup_rows by code_simp+
  from exclusive_ownership [OF hd_in_set [OF held(1)] last_in_set [OF held(1)]] held show ?thesis
    unfolding Let_def by blast
qed

section \<open>Fences\<close>

text \<open>
  C5. A generation names one state of one incarnation of an instance. Whatever happens between
  two observations, deletion and re-creation under the same ID included, the generation has not
  fallen, and the same generation shows the same row: a request that carries the generation it
  has read cannot act on a later incarnation.
\<close>

theorem generation_names_one_state:
  assumes "i \<in> set (db_instances (run yaml ops (empty_db t)))"
    and "j \<in> set (db_instances (run yaml (ops @ ops') (empty_db t)))" "ir_id j = ir_id i"
  shows "ir_generation i \<le> ir_generation j \<and> (ir_generation j = ir_generation i \<longrightarrow> j = i)"
proof -
  have "stmts (run yaml ops (empty_db t)) (run yaml (ops @ ops') (empty_db t))"
    using run_stmts [OF wf.reachable] by simp
  from generation_fence [OF this wf.reachable watermarks.reachable assms] show ?thesis by auto
qed

lemma generation_names_one_state_witness:
  "sample_instance Waking 1 \<in> set (db_instances (run no_yaml sample_setup (empty_db 600)))
   \<and> sample_instance Running 2 \<in> set (db_instances (run no_yaml sample_running (empty_db 600)))
   \<and> ir_generation (sample_instance Waking 1) \<le> ir_generation (sample_instance Running 2)"
  using generation_names_one_state [of "sample_instance Waking 1" no_yaml sample_setup 600
      "sample_instance Running 2"] sample_setup_rows sample_running_rows
  by (simp add: sample_running_def sample_instance_def)

text \<open>
  C10. The attempt number of a reconciliation lease fences its holders: between any two
  observations of a materialization's row, either its instance has moved to a later generation,
  or the attempt has grown, or the attempt is the same and the lease has the same owner or none.
  Two workers never hold the same attempt.
\<close>

theorem attempt_has_one_owner:
  assumes "m \<in> set (db_materializations (run yaml ops (empty_db t)))"
    and "n \<in> set (db_materializations (run yaml (ops @ ops') (empty_db t)))" "mr_id n = mr_id m"
  shows "mr_instance_generation m < mr_instance_generation n
     \<or> mr_reconcile_attempt m < mr_reconcile_attempt n
     \<or> mr_reconcile_attempt n = mr_reconcile_attempt m
        \<and> mr_reconcile_owner n \<in> {None, mr_reconcile_owner m}"
proof -
  have "stmts (run yaml ops (empty_db t)) (run yaml (ops @ ops') (empty_db t))"
    using run_stmts [OF wf.reachable] by simp
  from lease_fence [OF this wf.reachable watermarks.reachable assms] show ?thesis by (simp add: fenced_def)
qed

lemma attempt_has_one_owner_witness:
  "let m = hd (db_materializations (run no_yaml sample_setup (empty_db 600)));
       n = hd (db_materializations (run no_yaml (sample_setup @ sample_claim) (empty_db 600))) in
     mr_reconcile_owner n = Some ''w1'' \<and> mr_reconcile_attempt m < mr_reconcile_attempt n"
  using attempt_has_one_owner [of sample_row no_yaml sample_setup 600 sample_claimed_row sample_claim]
    sample_setup_rows sample_claimed_rows
  by (simp add: sample_row_def sample_claimed_row_def)

section \<open>Unacknowledged effects\<close>

lemma effect_refuses_lease:
  assumes "has_effect db mid"
  shows "\<exists>err. ensure_reconciliation_lease now mid w a st iid g t db = Inl err"
proof (cases "ensure_reconciliation_lease now mid w a st iid g t db")
  case (Inr u)
  with assms show ?thesis by (auto simp: ensure_reconciliation_lease_def tryE_Inr ensure_Inr)
qed simp

lemma refused: "(\<And>y. x \<noteq> Inr y) \<Longrightarrow> \<exists>err. x = Inl err"
  by (cases x) auto

lemma effect_refuses_commits:
  assumes "has_effect db (lr_materialization_id l)"
  shows "\<exists>err. complete_wake_reconciliation clk l cw db = Inl err"
    and "\<exists>err. finalize_sleep_reconciliation clk l fs db = Inl err"
    and "dm_lease dr = l \<Longrightarrow> \<exists>err. delete_materialization_reconciliation clk dr db = Inl err"
proof -
  have no: "ensure_reconciliation_lease now (lr_materialization_id l) w a st iid g t db \<noteq> Inr u" for now w a st iid g t u
    using effect_refuses_lease [OF assms, of now w a st iid g t] by auto
  show "\<exists>err. complete_wake_reconciliation clk l cw db = Inl err"
    by (rule refused) (auto simp: complete_wake_reconciliation_def tryE_Inr no)
  show "\<exists>err. finalize_sleep_reconciliation clk l fs db = Inl err"
    by (rule refused) (auto simp: finalize_sleep_reconciliation_def tryE_Inr no)
  show "\<exists>err. delete_materialization_reconciliation clk dr db = Inl err" if "dm_lease dr = l"
    by (rule refused) (use that in \<open>auto simp: delete_materialization_reconciliation_def Let_def tryE_Inr no\<close>)
qed

lemma effect_blocks_claim: "has_effect db mid \<Longrightarrow> claim_statement now mid w ms db = Inr ([], db)"
  unfolding claim_statement_def by (rule update_none) (auto simp: claimable_def)

lemma effect_blocks_release: "has_effect db mid \<Longrightarrow> release_statement now mid w a g db = Inr ([], db)"
  unfolding release_statement_def by (rule update_none) auto

lemma filter_by_key:
  "distinct (map f xs) \<Longrightarrow> x \<in> set xs \<Longrightarrow> filter (\<lambda>y. f y = f x) xs = [x]"
  by (induction xs) (auto simp: filter_empty_conv image_iff)

text \<open>
  C8. A Kubernetes mutation that may have been dispatched and has not been acknowledged pins the
  work it belongs to. The materialization still exists at the attempt that started the mutation,
  there is no second outstanding mutation for it, nobody can claim or release its lease, and no
  reconciliation of it commits: neither the wake, nor the sleep, nor the retirement of the row
  and with it of the row's reservations.
\<close>

theorem unacknowledged_effect_pins_work:
  assumes "e \<in> set (db_effects db)" "db = run yaml ops (empty_db t)" "mid = ef_materialization_id e"
  shows "(\<exists>m \<in> set (db_materializations db). mr_id m = mid \<and> mr_reconcile_attempt m = ef_lease_attempt e)
     \<and> filter (\<lambda>e'. ef_materialization_id e' = mid) (db_effects db) = [e]
     \<and> (claim_materialization_reconciliation now mid w ttl db = Inr (res, db') \<longrightarrow> res = Inr None \<and> db' = db)
     \<and> (release_materialization_reconciliation_lease now mid w a g db = Inr (ok, db') \<longrightarrow> \<not> ok \<and> db' = db)
     \<and> (lr_materialization_id l = mid \<longrightarrow>
          (\<exists>err. complete_wake_reconciliation clk l cw db = Inl err)
        \<and> (\<exists>err. finalize_sleep_reconciliation clk l fs db = Inl err)
        \<and> (dm_lease dr = l \<longrightarrow> (\<exists>err. delete_materialization_reconciliation clk dr db = Inl err)))"
proof (intro conjI impI)
  have ok: "effects_ok db" unfolding assms(2) by (rule effects.reachable)
  have has: "has_effect db mid" using assms(1,3) by (auto simp: has_effect_def list_ex_iff)
  show "\<exists>m \<in> set (db_materializations db). mr_id m = mid \<and> mr_reconcile_attempt m = ef_lease_attempt e"
    using ok assms(1,3) by (simp add: effects_ok_def)
  show "filter (\<lambda>e'. ef_materialization_id e' = mid) (db_effects db) = [e]"
    unfolding assms(3) by (rule filter_by_key) (use ok assms(1) in \<open>simp_all add: effects_ok_def\<close>)
  show "res = Inr None" "db' = db" if "claim_materialization_reconciliation now mid w ttl db = Inr (res, db')"
    using that effect_blocks_claim [OF has]
    by (auto simp: claim_materialization_reconciliation_def tryE_Inr first_row_def transposeE_def)
  show "\<not> ok" "db' = db" if "release_materialization_reconciliation_lease now mid w a g db = Inr (ok, db')"
    using that effect_blocks_release [OF has] by (auto simp: release_materialization_reconciliation_lease_def tryE_Inr)
  show "\<exists>err. complete_wake_reconciliation clk l cw db = Inl err"
      "\<exists>err. finalize_sleep_reconciliation clk l fs db = Inl err" if "lr_materialization_id l = mid"
    using effect_refuses_commits(1,2) has that by blast+
  show "\<exists>err. delete_materialization_reconciliation clk dr db = Inl err"
    if "lr_materialization_id l = mid" "dm_lease dr = l"
    using effect_refuses_commits(3) has that by blast
qed

lemma unacknowledged_effect_pins_work_witness:
  "let db = run no_yaml (sample_setup @ sample_claim @ [BeginEffect 1 sample_effect]) (empty_db 600) in
     map ef_materialization_id (db_effects db) = [''a:c1:ns'']
     \<and> (\<exists>err. complete_wake_reconciliation (\<lambda>n. 10) sample_lease sample_complete db = Inl err)"
proof -
  let ?db = "run no_yaml (sample_setup @ sample_claim @ [BeginEffect 1 sample_effect]) (empty_db 600)"
  have e: "db_effects ?db = [effect_of_request 1 1 1 sample_effect]" by code_simp
  then show ?thesis
    using unacknowledged_effect_pins_work [of _ ?db, OF _ HOL.refl HOL.refl, of "effect_of_request 1 1 1 sample_effect"]
    by (auto simp: Let_def effect_of_request_def sample_effect_def sample_lease_def)
qed

end
