(* ===== verification/Route_Dispatch.thy ===== *)
theory Route_Dispatch
  imports Store_Properties
begin

text \<open>
  The delivery of route changes: \<^verbatim>\<open>dispatch_route_changes\<close> of \<^verbatim>\<open>control-plane/src/runtime.rs\<close>
  polls the outbox and publishes what it reads through the broker of
  \<^verbatim>\<open>control-plane/src/api/route_events.rs\<close>. Writers and the dispatcher interleave freely.
\<close>

section \<open>Publishing\<close>

datatype route_binding_change =
    RouteNotice string bool "route_identity option" "protocol_route option"
  | InstanceNotice string
  | ResetNotice

text \<open>
  The payload's fields are those the trigger wrote: a route's columns, or the instance ID.
\<close>

definition publish_durable :: "route_change \<Rightarrow> store_error + route_binding_change" where
  "publish_durable p =
     (case p of
        InstanceChange iid \<Rightarrow>
          tryE (map_err (\<lambda>e. Internal (Text (invalid_instance_id_text e))) (InstanceId_new iid)) (\<lambda>i.
          Inr (InstanceNotice i))
      | RouteChange removed r \<Rightarrow>
          tryE (map_err (\<lambda>e. Internal (Text (empty_string_text e))) (RouteBindingId_new (rr_id r))) (\<lambda>bid.
          if removed then Inr (RouteNotice bid True None None)
          else let parts = route_identity_parts_of (rr_identity r) in
            tryE (map_err (\<lambda>e. Internal (Text e))
                    (if ip_host_kind parts = ''exact'' then RouteHost_exact (ip_host parts)
                     else RouteHost_wildcard_suffix (ip_host parts))) (\<lambda>host.
            if ip_identity_kind parts = ''http'' then
              tryE (map_err (\<lambda>e. Internal (Text e)) (transposeE PathPrefix_new (ip_path_prefix parts))) (\<lambda>path.
              Inr (RouteNotice bid False (Some (HttpIdentity host path)) (Some HttpProtocol)))
            else Inr (RouteNotice bid False (Some (SniIdentity host)) (Some TlsSni)))))"

text \<open>The loop over a batch: it ends at the first payload that cannot be published.\<close>

fun publish_all :: "route_change list \<Rightarrow> (store_error + unit) \<times> route_binding_change list" where
  "publish_all [] = (Inr (), [])"
| "publish_all (p # ps) =
     (case publish_durable p of
        Inl e \<Rightarrow> (Inl e, [])
      | Inr n \<Rightarrow> (let (r, ns) = publish_all ps in (r, n # ns)))"

section \<open>The dispatcher\<close>

record dispatcher =
  dp_cursor :: "u64 option"
  dp_failures :: nat

definition MAX_DISPATCH_FAILURES :: nat where
  "MAX_DISPATCH_FAILURES = 5"

definition count_failure :: "store_error \<Rightarrow> dispatcher \<Rightarrow> store_error + dispatcher" where
  "count_failure e d =
     (if dp_failures d + 1 \<ge> MAX_DISPATCH_FAILURES then Inl e else Inr (d\<lparr>dp_failures := dp_failures d + 1\<rparr>))"

text \<open>One tick, given what the two store calls would return; \<^const>\<open>Inl\<close> ends the task.\<close>

definition dispatch_tick ::
    "(store_error + u64) \<Rightarrow> (u64 \<Rightarrow> nat \<Rightarrow> store_error + durable_route_changes) \<Rightarrow> dispatcher
     \<Rightarrow> (store_error + dispatcher) \<times> route_binding_change list" where
  "dispatch_tick load_revision load_changes d =
     (case dp_cursor d of
        None \<Rightarrow>
          (case load_revision of
             Inr r \<Rightarrow> (Inr \<lparr>dp_cursor = Some r, dp_failures = 0\<rparr>, [])
           | Inl e \<Rightarrow> (count_failure e d, []))
      | Some start \<Rightarrow>
          (case load_changes start 1024 of
             Inl e \<Rightarrow> (count_failure e d, [ResetNotice])
           | Inr batch \<Rightarrow>
               (let (r, notices) = publish_all (rc_events batch) in
                (tryE r (\<lambda>_. Inr \<lparr>dp_cursor = Some (rc_cursor batch), dp_failures = 0\<rparr>),
                 (if rc_reset batch then [ResetNotice] else []) @ notices))))"

section \<open>The dispatcher beside the writers\<close>

text \<open>A store operation commits, or the dispatcher ticks while the store answers or is unavailable.\<close>

datatype feed_action = Write store_op | Tick "store_error option"

record feed_system =
  fd_db :: store_db
  fd_dispatcher :: "store_error + dispatcher"
  fd_published :: "route_binding_change list"

primrec feed_step :: "(string \<Rightarrow> json option) \<Rightarrow> feed_action \<Rightarrow> feed_system \<Rightarrow> feed_system" where
  "feed_step yaml (Write x) s = s\<lparr>fd_db := exec yaml x (fd_db s)\<rparr>"
| "feed_step yaml (Tick fault) s =
     (case fd_dispatcher s of
        Inl e \<Rightarrow> s
      | Inr d \<Rightarrow>
          (let (d', ns) = dispatch_tick (case fault of None \<Rightarrow> Inr (revision (fd_db s)) | Some e \<Rightarrow> Inl e)
                 (\<lambda>c limit. case fault of None \<Rightarrow> changes c limit (fd_db s) | Some e \<Rightarrow> Inl e) d
           in s\<lparr>fd_dispatcher := d', fd_published := fd_published s @ ns\<rparr>))"

definition feed_run :: "(string \<Rightarrow> json option) \<Rightarrow> feed_action list \<Rightarrow> feed_system \<Rightarrow> feed_system" where
  "feed_run yaml as s = fold (feed_step yaml) as s"

definition feed_start :: "int \<Rightarrow> feed_system" where
  "feed_start t = \<lparr>fd_db = empty_db t, fd_dispatcher = Inr \<lparr>dp_cursor = None, dp_failures = 0\<rparr>, fd_published = []\<rparr>"

section \<open>What a poll returns\<close>

lemma sort_by_revision:
  assumes "map ob_revision xs = [lo..hi]"
  shows "sort_key ob_revision (filter P xs) = filter P xs"
proof -
  have "sorted (map ob_revision xs)" by (simp add: assms)
  then have "sorted (map ob_revision (filter P xs))" by (rule sorted_filter)
  then show ?thesis by (rule sort_key_id_if_sorted)
qed

lemma oldest_upto: "map ob_revision (db_outbox db) = [lo..hi] \<Longrightarrow>
    oldest_revision db = (if lo \<le> hi then Some lo else None)"
proof (cases "lo \<le> hi")
  case True
  have "fold min [lo + 1..hi] lo = lo"
    by (rule fold_invariant [where P = "\<lambda>x. x = lo" and Q = "\<lambda>x. lo < x"]) auto
  then show "map ob_revision (db_outbox db) = [lo..hi] \<Longrightarrow> ?thesis"
    using True by (simp add: oldest_revision_def upto_rec1)
qed (simp add: oldest_revision_def)

lemma last_upto: "a \<le> b \<Longrightarrow> last [a..b] = (b :: int)"
  by (simp add: upto_rec2)

text \<open>
  A poll within the retained window returns the entries after the cursor, in order, without a
  gap; any other poll is a reset.
\<close>

definition polled :: "u64 \<Rightarrow> nat \<Rightarrow> store_db \<Rightarrow> outbox_row list" where
  "polled c limit db = take (max 1 (min 1024 limit)) (filter (\<lambda>r. uint c < ob_revision r) (db_outbox db))"

definition window_end :: "u64 \<Rightarrow> nat \<Rightarrow> store_db \<Rightarrow> int" where
  "window_end c limit db = min (db_revision db) (uint c + int (max 1 (min 1024 limit)))"

lemma changes_eq:
  assumes "map ob_revision (db_outbox db) = [lo..db_revision db]" "lo \<le> db_revision db + 1" "uint c \<le> i64_max"
    and "reset \<longleftrightarrow> db_revision db < uint c \<or> uint c < db_revision db \<and> uint c < lo - 1"
  shows "changes c limit db = Inr \<lparr>rc_cursor = word_of_int (if reset then db_revision db
        else if polled c limit db = [] then db_revision db else ob_revision (last (polled c limit db))),
      rc_reset = reset, rc_events = (if reset then [] else map ob_payload (polled c limit db))\<rparr>"
proof -
  have "uint c < db_revision db \<and> (case oldest_revision db of None \<Rightarrow> True | Some oldest \<Rightarrow> uint c < oldest - 1)
      \<longleftrightarrow> uint c < db_revision db \<and> uint c < lo - 1"
    using assms(2) by (auto simp: oldest_upto [OF assms(1)])
  with assms(3,4) show ?thesis
    by (simp add: changes_def i64_of_u64_def Let_def sort_by_revision [OF assms(1)] polled_def)
qed

lemma polled_revisions:
  assumes "map ob_revision (db_outbox db) = [lo..db_revision db]" "uint c \<le> db_revision db"
    and "uint c = db_revision db \<or> lo \<le> uint c + 1"
  shows "map ob_revision (polled c limit db) = [uint c + 1..window_end c limit db]"
    and "(if polled c limit db = [] then db_revision db else ob_revision (last (polled c limit db)))
      = window_end c limit db"
proof -
  have "map ob_revision (polled c limit db)
      = [max lo (uint c + 1)..min (db_revision db) (max lo (uint c + 1) + int (max 1 (min 1024 limit)) - 1)]"
    by (simp add: polled_def take_map [symmetric] map_filter_revision assms(1) filter_upto take_upto)
  then show upto: "map ob_revision (polled c limit db) = [uint c + 1..window_end c limit db]"
    using assms(2,3) by (auto simp: max_def window_end_def split: if_splits)
  show "(if polled c limit db = [] then db_revision db else ob_revision (last (polled c limit db)))
      = window_end c limit db"
  proof (cases "polled c limit db = []")
    case True
    with upto assms(2) show ?thesis by (auto simp: window_end_def)
  next
    case False
    then have "ob_revision (last (polled c limit db)) = last [uint c + 1..window_end c limit db]"
      by (simp add: last_map [symmetric] upto)
    also have "\<dots> = window_end c limit db"
      by (rule last_upto, rule ccontr) (use False upto in simp)
    finally show ?thesis using False by simp
  qed
qed

lemma changes_window:
  assumes feed: "feed_ok db" and c: "uint c \<le> i64_max"
  obtains (reset) ch where "changes c limit db = Inr ch" "rc_reset ch" "rc_events ch = []"
      "uint (rc_cursor ch) = db_revision db"
      "db_revision db < uint c \<or> (\<exists>r. uint c < r \<and> r \<le> db_revision db \<and> r \<notin> ob_revision ` set (db_outbox db))"
  | (events) ch where "changes c limit db = Inr ch" "\<not> rc_reset ch" "rc_events ch = map ob_payload (polled c limit db)"
      "map ob_revision (polled c limit db) = [uint c + 1..window_end c limit db]"
      "uint (rc_cursor ch) = window_end c limit db" "uint c \<le> db_revision db"
proof -
  obtain lo where lo: "1 \<le> lo" "lo \<le> db_revision db + 1" "map ob_revision (db_outbox db) = [lo..db_revision db]"
      and rev: "0 \<le> db_revision db" "db_revision db \<le> i64_max"
    using feed by (auto simp: feed_ok_def)
  define late where "late \<longleftrightarrow> db_revision db < uint c \<or> uint c < db_revision db \<and> uint c < lo - 1"
  note ch = changes_eq [OF lo(3,2) c late_def, of limit]
  show thesis
  proof (cases late)
    case True
    have "ob_revision ` set (db_outbox db) = {lo..db_revision db}"
      using arg_cong [OF lo(3), of set] by simp
    then have "db_revision db < uint c \<or> (\<exists>r. uint c < r \<and> r \<le> db_revision db \<and> r \<notin> ob_revision ` set (db_outbox db))"
      using True by (auto simp: late_def intro!: exI [of _ "uint c + 1"])
    then show thesis
      using True rev by (intro reset [OF ch]) (auto simp: uint_of_i64)
  next
    case False
    then have n: "uint c \<le> db_revision db" "uint c = db_revision db \<or> lo \<le> uint c + 1" by (auto simp: late_def)
    have bound: "0 \<le> window_end c limit db" "window_end c limit db \<le> i64_max"
      using rev by (auto simp: window_end_def)
    show thesis
      by (rule events [OF ch])
        (use False n polled_revisions [OF lo(3) n, of limit] uint_of_i64 [OF bound] in auto)
  qed
qed

section \<open>Entries of the outbox are never rewritten\<close>

definition outbox_extends :: "store_db \<Rightarrow> store_db \<Rightarrow> bool" where
  "outbox_extends db db' \<longleftrightarrow> db_revision db \<le> db_revision db'
     \<and> (\<forall>r \<in> set (db_outbox db'). ob_revision r \<le> db_revision db \<longrightarrow> r \<in> set (db_outbox db))"

lemma outbox_extends_refl:
  "db_outbox db' = db_outbox db \<Longrightarrow> db_revision db' = db_revision db \<Longrightarrow> outbox_extends db db'"
  by (simp add: outbox_extends_def)

lemma outbox_extends_trans: "outbox_extends a b \<Longrightarrow> outbox_extends b c \<Longrightarrow> outbox_extends a c"
  by (auto simp: outbox_extends_def)

lemma record_extends:
  assumes "record_route_changes now ps mid = Inr db'" "db_revision mid = db_revision db" "db_outbox mid = db_outbox db"
  shows "outbox_extends db db'"
proof (cases "ps = []")
  case False
  have "ob_revision r > db_revision db" if "r \<in> (\<lambda>(i, p). \<lparr>ob_revision = db_revision db + 1 + int i, ob_payload = p,
      ob_created_at = now\<rparr>) ` set (enumerate 0 ps)" for r
    using that by auto
  then show ?thesis
    using assms False by (auto simp: record_route_changes_def tryE_Inr outbox_extends_def dest!: pg_add_Inr)
qed (use assms in \<open>simp add: record_route_changes_def outbox_extends_def\<close>)

lemma outbox_extends_stmt: "stmt db db' \<Longrightarrow> outbox_extends db db'"
proof (induction rule: stmt.induct)
  case (update_materialization now P f db ret db')
  from update_materialization(1) show ?case
  proof (rule update_materializations_parts)
    fix rows mid ps
    assume sync: "sync_rows (filter (P \<circ> fst) (zip (db_materializations db) rows))
        (db\<lparr>db_materializations := rows\<rparr>) = Inr mid" and rec: "record_route_changes now ps mid = Inr db'"
    show "outbox_extends db db'"
      by (rule record_extends [OF rec]) (use sync_rows_feed [OF sync] in simp_all)
  qed
next
  case (insert_materialization now new db db')
  then show ?case
    by (auto simp: insert_materialization_def tryE_Inr split: if_splits dest!: sync_one_feed intro: record_extends)
next
  case (update_instance now P f db ret' db')
  then show ?case by (auto simp: update_instances_def Let_def tryE_Inr intro: record_extends)
next
  case (insert_instance now new' db row db')
  then show ?case by (auto simp: insert_instance_row_def tryE_Inr split: if_splits intro: record_extends)
next
  case (delete_instance now P' db n db')
  then show ?case by (auto simp: delete_instances_def Let_def tryE_Inr split: if_splits intro: record_extends)
next
  case (insert_route_binding now rr db db' b)
  then show ?case by (auto simp: insert_route_def split: if_splits intro: record_extends)
next
  case (delete_route_binding now P'' db n db')
  then show ?case by (auto simp: delete_routes_def Let_def tryE_Inr intro: record_extends)
next
  case (prune db now limit)
  then show ?case by (auto simp: prune_outbox_def Let_def outbox_extends_def)
qed (simp_all add: outbox_extends_refl)

lemma outbox_extends_stmts: "stmts db db' \<Longrightarrow> outbox_extends db db'"
  by (induction rule: rtranclp_induct)
    (auto simp: outbox_extends_refl intro: outbox_extends_trans outbox_extends_stmt)

section \<open>Every stored payload can be published\<close>

definition readable_route :: "route_row \<Rightarrow> bool" where
  "readable_route r = is_ok (route_binding_from_row r)"

definition payload_ok :: "route_change \<Rightarrow> bool" where
  "payload_ok p = (case p of InstanceChange iid \<Rightarrow> is_dns_label iid | RouteChange removed r \<Rightarrow> readable_route r)"

definition payloads_ok :: "store_db \<Rightarrow> bool" where
  "payloads_ok db \<longleftrightarrow> (\<forall>e \<in> set (db_outbox db). payload_ok (ob_payload e))
     \<and> (\<forall>r \<in> set (db_routes db). readable_route r)"

lemma payload_ok_publishes: "payload_ok p \<Longrightarrow> \<exists>n. publish_durable p = Inr n"
  by (cases p)
    (auto simp: payload_ok_def readable_route_def is_ok_def publish_durable_def Let_def InstanceId_new_Inr
      route_binding_from_row_def tryE_Inr map_err_Inr string_newtype_new_Inr route_identity_from_parts_def
      route_host_from_db_def transposeE_def split: sum.splits option.splits if_splits)

lemma record_payloads:
  assumes "record_route_changes now ps mid = Inr db'" "db_outbox mid = db_outbox db" "payloads_ok db"
    and "\<And>p. p \<in> set ps \<Longrightarrow> payload_ok p" "\<And>r. r \<in> set (db_routes mid) \<Longrightarrow> readable_route r"
  shows "payloads_ok db'"
proof -
  have "payload_ok (ob_payload e)" if "e \<in> set (db_outbox db')" for e
    using that assms(1-4)
    by (auto simp: record_route_changes_def payloads_ok_def tryE_Inr in_set_enumerate_eq split: if_splits)
  moreover have "db_routes db' = db_routes mid"
    using record_route_changes_frame [OF assms(1)] by auto
  ultimately show ?thesis
    using assms(5) by (simp add: payloads_ok_def)
qed

lemma wf_labels:
  assumes "store_wf db"
  shows "i \<in> set (db_instances db) \<Longrightarrow> is_dns_label (ir_id i)"
    and "m \<in> set (db_materializations db) \<Longrightarrow> is_dns_label (mr_instance_id m)"
  using assms wf_row [OF assms] by (auto simp: store_wf_def)

lemma zip_changes:
  assumes "c \<in> set (map (InstanceChange \<circ> f \<circ> snd) (filter Q (filter Q' (zip xs ys))))"
  obtains y where "y \<in> set ys" "c = InstanceChange (f y)"
  using assms by (auto dest: set_zip_rightD)

lemma payloads_ok_update_materializations:
  assumes "update_materializations now P f db = Inr (ret, db')" "payloads_ok db" "store_wf db'"
  shows "payloads_ok db'"
  using assms(1)
proof (rule update_materializations_parts)
  fix rows mid ps
  assume sync: "sync_rows (filter (P \<circ> fst) (zip (db_materializations db) rows)) (db\<lparr>db_materializations := rows\<rparr>) = Inr mid"
    and rec: "record_route_changes now ps mid = Inr db'"
    and ps: "ps = remdups (map (InstanceChange \<circ> mr_instance_id \<circ> snd) (filter (\<lambda>(old, new). route_visible_change old new)
       (filter (P \<circ> fst) (zip (db_materializations db) rows))))"
  have mid: "db_materializations mid = rows" "db_outbox mid = db_outbox db" "db_routes mid = db_routes db"
    using sync_rows_frame [OF sync] by auto
  moreover have "db_materializations db' = db_materializations mid"
    using record_route_changes_frame [OF rec] by auto
  ultimately have "payload_ok p" if "p \<in> set ps" for p
    using that wf_labels(2) [OF assms(3)] unfolding ps set_remdups by (elim zip_changes) (simp add: payload_ok_def)
  with rec mid assms(2) show "payloads_ok db'"
    by (intro record_payloads [OF rec mid(2) assms(2)]) (auto simp: payloads_ok_def)
qed

lemma payloads_ok_update_instances:
  assumes "update_instances now P f db = Inr (ret, db')" "payloads_ok db" "store_wf db'"
  shows "payloads_ok db'"
proof -
  obtain rows ps mid where rec: "record_route_changes now ps mid = Inr db'"
      and mid: "db_instances mid = rows" "db_outbox mid = db_outbox db" "db_routes mid = db_routes db"
      and ps: "set ps = set (map (InstanceChange \<circ> ir_id \<circ> snd) (filter (\<lambda>(old, new). (ir_state new, ir_generation new)
         \<noteq> (ir_state old, ir_generation old)) (filter (P \<circ> fst) (zip (db_instances db) rows))))"
    using assms(1) unfolding update_instances_def Let_def tryE_Inr by (auto intro!: that)
  have "db_instances db' = rows"
    using record_route_changes_frame [OF rec] mid by auto
  then have "payload_ok p" if "p \<in> set ps" for p
    using that wf_labels(1) [OF assms(3)] unfolding ps by (elim zip_changes) (simp add: payload_ok_def)
  with mid assms(2) show ?thesis
    by (intro record_payloads [OF rec mid(2) assms(2)]) (auto simp: payloads_ok_def)
qed

lemma payloads_ok_insert_materialization:
  assumes "insert_materialization now new db = Inr db'" "payloads_ok db" "store_wf db"
  shows "payloads_ok db'"
proof -
  obtain mid where rec: "record_route_changes now [InstanceChange (mr_instance_id new)] mid = Inr db'"
      and sync: "sync_materialization_reservations None new (db\<lparr>db_materializations := db_materializations db @ [new]\<rparr>) = Inr mid"
      and i: "list_ex (\<lambda>i. ir_id i = mr_instance_id new) (db_instances db)"
    using assms(1) unfolding insert_materialization_def tryE_Inr by (auto simp del: list_ex_iff simp: tryE_Inr split: if_split_asm)
  have "is_dns_label (mr_instance_id new)"
    using i wf_labels(1) [OF assms(3)] unfolding list_ex_iff by metis
  moreover have "db_outbox mid = db_outbox db" "db_routes mid = db_routes db"
    using sync_materialization_reservations_frame [OF sync] by auto
  ultimately show ?thesis
    using assms(2) by (intro record_payloads [OF rec _ assms(2)]) (auto simp: payload_ok_def payloads_ok_def)
qed

lemma payloads_ok_insert_instance:
  assumes "insert_instance_row now new db = Inr (row, db')" "payloads_ok db" "is_dns_label (ir_id new)"
  shows "payloads_ok db'"
proof -
  obtain mid where rec: "record_route_changes now [InstanceChange (ir_id row)] mid = Inr db'"
      and mid: "db_outbox mid = db_outbox db" "db_routes mid = db_routes db"
    using assms(1) by (auto simp: insert_instance_row_def tryE_Inr split: if_splits)
  have "ir_id row = ir_id new"
    using assms(1) by (rule insert_instance_row_frame)
  then show ?thesis
    using assms(2,3) mid by (intro record_payloads [OF rec mid(1) assms(2)]) (auto simp: payload_ok_def payloads_ok_def)
qed

lemma payloads_ok_delete_instances:
  assumes "delete_instances now P db = Inr (n, db')" "payloads_ok db" "store_wf db"
  shows "payloads_ok db'"
proof -
  obtain ps mid where rec: "record_route_changes now ps mid = Inr db'" and mid: "db_outbox mid = db_outbox db"
      "set (db_routes mid) \<subseteq> set (db_routes db)"
      and ps: "set ps \<subseteq> RouteChange True ` set (db_routes db) \<union> InstanceChange ` ir_id ` set (db_instances db)"
    using assms(1) by (auto simp: delete_instances_def Let_def tryE_Inr split: if_splits intro!: that)
  show ?thesis
    by (rule record_payloads [OF rec mid(1) assms(2)])
      (use mid ps wf_labels [OF assms(3)] assms(2) in \<open>auto simp: payload_ok_def payloads_ok_def\<close>)
qed

lemma payloads_ok_stmt:
  assumes st: "stmt db db'" and wf: "store_wf db" and ok: "payloads_ok db"
  shows "payloads_ok db'"
proof -
  have routes: "\<And>r. r \<in> set (db_routes db) \<Longrightarrow> readable_route r" using ok by (simp add: payloads_ok_def)
  from st show ?thesis
  proof (cases rule: stmt.cases)
    case (update_materialization now P f ret)
    then show ?thesis using payloads_ok_update_materializations ok store_wf_stmt [OF st wf] by blast
  next
    case (update_instance now P f ret')
    then show ?thesis using payloads_ok_update_instances ok store_wf_stmt [OF st wf] by blast
  next
    case (insert_materialization now new)
    then show ?thesis using payloads_ok_insert_materialization ok wf by blast
  next
    case (insert_instance now new' row)
    then show ?thesis using payloads_ok_insert_instance ok by blast
  next
    case (delete_instance now P' n)
    then show ?thesis using payloads_ok_delete_instances ok wf by blast
  next
    case (insert_route_binding now rr b)
    then have "readable_route rr" by (simp add: readable_route_def is_ok_def)
    moreover have rec: "record_route_changes now [RouteChange False rr] (db\<lparr>db_routes := db_routes db @ [rr]\<rparr>) = Inr db'"
      using insert_route_binding(1) by (simp add: insert_route_def split: if_splits)
    ultimately show ?thesis
      using routes by (intro record_payloads [OF rec _ ok]) (auto simp: payload_ok_def)
  next
    case (delete_route_binding now P'' n)
    then show ?thesis
      using routes by (auto simp: delete_routes_def Let_def tryE_Inr payload_ok_def intro!: record_payloads [OF _ _ ok])
  next
    case (prune now limit)
    then show ?thesis using ok by (auto simp: prune_outbox_def Let_def payloads_ok_def)
  qed (use ok in \<open>simp_all add: payloads_ok_def\<close>)
qed

lemma payloads_ok_empty: "payloads_ok (empty_db t)"
  by (simp add: payloads_ok_def empty_db_def)

interpretation payloads: store_invariant payloads_ok
  by unfold_locales (auto intro: payloads_ok_empty payloads_ok_stmt)

end
