(* ===== verification/Route_Delivery.thy ===== *)
theory Route_Delivery
  imports Route_Dispatch
begin

text \<open>
  The store, its writers and the dispatcher together: no route change is lost, and the
  dispatcher catches up.
\<close>

section \<open>Polling\<close>



section \<open>One step of the system\<close>

definition system_ok :: "feed_system \<Rightarrow> bool" where
  "system_ok s \<longleftrightarrow> store_wf (fd_db s) \<and> feed_ok (fd_db s) \<and> payloads_ok (fd_db s)
     \<and> (\<forall>d c. fd_dispatcher s = Inr d \<longrightarrow> dp_cursor d = Some c \<longrightarrow> uint c \<le> i64_max)"

definition delivered :: "outbox_row \<Rightarrow> route_binding_change list \<Rightarrow> bool" where
  "delivered e ns \<longleftrightarrow> (\<exists>n \<in> set ns. n = ResetNotice \<or> publish_durable (ob_payload e) = Inr n)"

definition pending :: "outbox_row \<Rightarrow> feed_system \<Rightarrow> bool" where
  "pending e s \<longleftrightarrow> ob_revision e \<le> db_revision (fd_db s)
     \<and> (\<forall>x \<in> set (db_outbox (fd_db s)). ob_revision x = ob_revision e \<longrightarrow> x = e)
     \<and> (\<forall>d. fd_dispatcher s = Inr d \<longrightarrow> (\<exists>c. dp_cursor d = Some c \<and> uint c < ob_revision e))"

lemma publish_all_ok:
  assumes "\<forall>p \<in> set ps. payload_ok p"
  shows "fst (publish_all ps) = Inr () \<and> (\<forall>p \<in> set ps. \<exists>n \<in> set (snd (publish_all ps)). publish_durable p = Inr n)"
  using assms
proof (induction ps)
  case (Cons p ps)
  then have "payload_ok p" by simp
  then obtain n where "publish_durable p = Inr n" using payload_ok_publishes by blast
  with Cons show ?case by (auto simp: case_prod_beta)
qed simp

text \<open>A tick without a fault, from a cursor.\<close>

lemma tick_cases:
  assumes ok: "system_ok s" and d: "fd_dispatcher s = Inr d" "dp_cursor d = Some c"
  obtains (reset) ns where "feed_step yaml (Tick None) s = s\<lparr>fd_dispatcher := Inr \<lparr>dp_cursor =
        Some (word_of_int (db_revision (fd_db s))), dp_failures = 0\<rparr>, fd_published := fd_published s @ ns\<rparr>"
      "ResetNotice \<in> set ns"
  | (events) ns where "feed_step yaml (Tick None) s = s\<lparr>fd_dispatcher := Inr \<lparr>dp_cursor =
        Some (word_of_int (window_end c 1024 (fd_db s))), dp_failures = 0\<rparr>, fd_published := fd_published s @ ns\<rparr>"
      "\<forall>x \<in> set (polled c 1024 (fd_db s)). delivered x ns" "uint c \<le> db_revision (fd_db s)"
      "map ob_revision (polled c 1024 (fd_db s)) = [uint c + 1..window_end c 1024 (fd_db s)]"
proof -
  have feed: "feed_ok (fd_db s)" and c: "uint c \<le> i64_max" and pay: "payloads_ok (fd_db s)"
    using ok d by (auto simp: system_ok_def)
  from feed c show thesis
  proof (cases rule: changes_window [where limit = 1024])
    case (reset ch)
    then have "rc_cursor ch = word_of_int (db_revision (fd_db s))"
      by (metis word_of_int_uint)
    with reset d show thesis
      by (intro that(1) [of "[ResetNotice]"]) (simp_all add: dispatch_tick_def)
  next
    case (events ch)
    let ?ps = "polled c 1024 (fd_db s)"
    have "set ?ps \<subseteq> set (db_outbox (fd_db s))"
      unfolding polled_def using set_take_subset by fastforce
    then have all: "\<forall>p \<in> set (map ob_payload ?ps). payload_ok p"
      using pay by (auto simp: payloads_ok_def)
    have cur: "rc_cursor ch = word_of_int (window_end c 1024 (fd_db s))"
      using events by (metis word_of_int_uint)
    show thesis
      by (rule that(2) [of "snd (publish_all (map ob_payload ?ps))"])
        (use events d cur publish_all_ok [OF all] in \<open>auto simp: dispatch_tick_def delivered_def case_prod_beta\<close>)
  qed
qed

lemma fault_tick:
  assumes "fd_dispatcher s = Inr d" "dp_cursor d = Some c"
  shows "feed_step yaml (Tick (Some e)) s =
    s\<lparr>fd_dispatcher := count_failure e d, fd_published := fd_published s @ [ResetNotice]\<rparr>"
  using assms by (simp add: dispatch_tick_def)

lemma count_failure_cursor: "count_failure e d = Inr d' \<Longrightarrow> dp_cursor d' = dp_cursor d"
  by (auto simp: count_failure_def split: if_splits)

lemma revision_fits: "feed_ok db \<Longrightarrow> uint (word_of_int (db_revision db) :: u64) = db_revision db"
  by (auto simp: feed_ok_def uint_of_i64)

lemma window_end_fits:
  "feed_ok db \<Longrightarrow> uint (word_of_int (window_end c limit db) :: u64) = window_end c limit db \<and> window_end c limit db \<le> i64_max"
  by (auto simp: feed_ok_def window_end_def intro!: uint_of_i64)

lemma system_ok_start: "system_ok (feed_start t)"
  by (simp add: system_ok_def feed_start_def store_wf_empty feed_ok_empty payloads_ok_empty)

lemma tick_db: "fd_db (feed_step yaml (Tick fault) s) = fd_db s"
  by (auto simp: case_prod_beta split: sum.splits)

lemma tick_cursor_bound:
  assumes ok: "system_ok s" and step: "fd_dispatcher (feed_step yaml (Tick fault) s) = Inr d'" "dp_cursor d' = Some c'"
  shows "uint c' \<le> i64_max"
proof -
  obtain d where d: "fd_dispatcher s = Inr d" using step(1) by (cases "fd_dispatcher s") auto
  have feed: "feed_ok (fd_db s)" using ok by (simp add: system_ok_def)
  then have rev: "db_revision (fd_db s) \<le> i64_max" by (simp add: feed_ok_def)
  show ?thesis
  proof (cases "dp_cursor d")
    case None
    with d step rev revision_fits [OF feed] show ?thesis
      by (auto simp: dispatch_tick_def revision_def dest!: count_failure_cursor split: option.splits)
  next
    case (Some c)
    have c: "uint c \<le> i64_max" using ok d Some by (auto simp: system_ok_def)
    show ?thesis
    proof (cases fault)
      case None
      from ok d Some show ?thesis
        by (cases rule: tick_cases [where yaml = yaml])
          (use step rev revision_fits [OF feed] window_end_fits [OF feed] in \<open>auto simp: None\<close>)
    next
      case (Some e)
      with c d \<open>dp_cursor d = Some c\<close> step show ?thesis
        using fault_tick [OF d \<open>dp_cursor d = Some c\<close>] by (auto dest: count_failure_cursor)
    qed
  qed
qed

lemma system_ok_step: "system_ok s \<Longrightarrow> system_ok (feed_step yaml a s)"
proof (cases a)
  case (Write x)
  assume ok: "system_ok s"
  then have "stmts (fd_db s) (exec yaml x (fd_db s))" by (simp add: system_ok_def exec_stmts)
  with ok show ?thesis
    using wf.along feed.along payloads.along unfolding Write system_ok_def by auto
next
  case (Tick fault)
  assume ok: "system_ok s"
  with tick_cursor_bound [OF ok] show ?thesis
    unfolding Tick system_ok_def [of "feed_step _ _ _"] tick_db by (simp add: system_ok_def)
qed

lemma published_grows: "\<exists>ns. fd_published (feed_step yaml a s) = fd_published s @ ns"
  by (cases a) (auto simp: case_prod_beta split: sum.splits)

section \<open>A pending change stays pending until it is delivered\<close>

lemma pending_step:
  assumes ok: "system_ok s" and pend: "pending e s"
  shows "pending e (feed_step yaml a s) \<or> delivered e (drop (length (fd_published s)) (fd_published (feed_step yaml a s)))"
proof (cases a)
  case (Write x)
  have "outbox_extends (fd_db s) (exec yaml x (fd_db s))"
    using ok by (simp add: system_ok_def exec_stmts outbox_extends_stmts)
  with pend show ?thesis
    unfolding Write by (auto simp: pending_def outbox_extends_def)
next
  case (Tick fault)
  show ?thesis
  proof (cases "fd_dispatcher s")
    case (Inl err)
    with pend Tick show ?thesis by simp
  next
    case (Inr d)
    then obtain c where c: "dp_cursor d = Some c" "uint c < ob_revision e"
      using pend by (auto simp: pending_def)
    show ?thesis
    proof (cases fault)
      case (Some err)
      then show ?thesis
        unfolding Tick Some fault_tick [OF Inr c(1)] by (simp add: delivered_def)
    next
      case None
      from ok Inr c(1) show ?thesis
      proof (cases rule: tick_cases [where yaml = yaml])
        case (reset ns)
        then show ?thesis unfolding Tick None by (auto simp: delivered_def)
      next
        case (events ns)
        show ?thesis
        proof (cases "ob_revision e \<le> window_end c 1024 (fd_db s)")
          case True
          then have "ob_revision e \<in> set (map ob_revision (polled c 1024 (fd_db s)))"
            using c(2) unfolding events(4) by simp
          then obtain x where x: "x \<in> set (polled c 1024 (fd_db s))" "ob_revision x = ob_revision e" by auto
          then have "x \<in> set (db_outbox (fd_db s))"
            unfolding polled_def using in_set_takeD by fastforce
          then have "x = e" using pend x(2) by (simp add: pending_def)
          with x events(1,2) show ?thesis unfolding Tick None by simp
        next
          case False
          have "feed_ok (fd_db s)" using ok by (simp add: system_ok_def)
          with False pend show ?thesis
            unfolding Tick None events(1) using window_end_fits by (auto simp: pending_def)
        qed
      qed
    qed
  qed
qed

lemma feed_run_simps [simp]:
  "feed_run yaml [] s = s" "feed_run yaml (a # as) s = feed_run yaml as (feed_step yaml a s)"
  by (simp_all add: feed_run_def)

lemma feed_run_ok: "system_ok s \<Longrightarrow> system_ok (feed_run yaml as s)"
  by (induction as arbitrary: s) (auto intro: system_ok_step)

lemma feed_run_published: "\<exists>ns. fd_published (feed_run yaml as s) = fd_published s @ ns"
proof (induction as arbitrary: s)
  case (Cons a as)
  from Cons.IH [of "feed_step yaml a s"] published_grows [of yaml a s] show ?case by auto
qed simp

lemma pending_run:
  assumes "system_ok s" "pending e s"
  shows "pending e (feed_run yaml as s) \<or> delivered e (drop (length (fd_published s)) (fd_published (feed_run yaml as s)))"
  using assms
proof (induction as arbitrary: s)
  case (Cons a as)
  let ?s = "feed_step yaml a s"
  obtain ns ns' where pub: "fd_published ?s = fd_published s @ ns" "fd_published (feed_run yaml as ?s) = fd_published ?s @ ns'"
    using published_grows feed_run_published by blast
  from pending_step [OF Cons.prems, of yaml a] show ?case
  proof
    assume "pending e ?s"
    from Cons.IH [OF system_ok_step [OF Cons.prems(1)] this] pub show ?thesis by (auto simp: delivered_def)
  next
    assume "delivered e (drop (length (fd_published s)) (fd_published ?s))"
    with pub show ?thesis by (auto simp: delivered_def)
  qed
qed simp

section \<open>No change is lost\<close>

text \<open>
  C4. However operations, polls and store failures interleave, a route change recorded in the
  outbox reaches the subscribers: when the dispatcher's cursor has moved past it, its
  notification has been published since, or a reset has, which makes every subscriber drop what
  it has cached.
\<close>

theorem no_change_lost:
  assumes start: "s = feed_run yaml as (feed_start t)" "e \<in> set (db_outbox (fd_db s))"
      "fd_dispatcher s = Inr d" "dp_cursor d = Some c" "uint c < ob_revision e"
    and later: "s' = feed_run yaml bs s" "fd_dispatcher s' = Inr d'" "dp_cursor d' = Some c'"
      "ob_revision e \<le> uint c'"
  shows "\<exists>n \<in> set (drop (length (fd_published s)) (fd_published s')).
    n = ResetNotice \<or> publish_durable (ob_payload e) = Inr n"
proof -
  have ok: "system_ok s" unfolding start(1) by (intro feed_run_ok system_ok_start)
  then obtain lo where revs: "map ob_revision (db_outbox (fd_db s)) = [lo..db_revision (fd_db s)]"
    by (auto simp: system_ok_def feed_ok_def)
  then have "distinct (map ob_revision (db_outbox (fd_db s)))" by simp
  then have "x = e" if "x \<in> set (db_outbox (fd_db s))" "ob_revision x = ob_revision e" for x
    using that start(2) by (auto simp: distinct_map dest: inj_onD)
  moreover have "ob_revision e \<le> db_revision (fd_db s)"
    using start(2) arg_cong [OF revs, of set] by auto
  ultimately have "pending e s" using start(3-5) by (simp add: pending_def)
  from pending_run [OF ok this, of yaml bs] show ?thesis
    unfolding later(1) [symmetric] using later(2-4) by (auto simp: pending_def delivered_def)
qed

definition sample_feed :: "feed_action list" where
  "sample_feed = Tick None # map Write (take 2 sample_setup)"

lemma sample_feed_state:
  "fd_dispatcher (feed_run no_yaml sample_feed (feed_start 600)) = Inr \<lparr>dp_cursor = Some 0, dp_failures = 0\<rparr>"
  "\<lparr>ob_revision = 1, ob_payload = InstanceChange ''a'', ob_created_at = 0\<rparr>
     \<in> set (db_outbox (fd_db (feed_run no_yaml sample_feed (feed_start 600))))"
  "fd_published (feed_run no_yaml sample_feed (feed_start 600)) = []"
  "db_revision (fd_db (feed_run no_yaml sample_feed (feed_start 600))) = 2"
  "fd_dispatcher (feed_run no_yaml [Tick None] (feed_run no_yaml sample_feed (feed_start 600)))
     = Inr \<lparr>dp_cursor = Some 2, dp_failures = 0\<rparr>"
  by code_simp+

lemma no_change_lost_witness:
  "\<exists>n \<in> set (fd_published (feed_run no_yaml (sample_feed @ [Tick None]) (feed_start 600))).
     n = ResetNotice \<or> publish_durable (InstanceChange ''a'') = Inr n"
  using no_change_lost [OF HOL.refl sample_feed_state(2,1) _ _ HOL.refl sample_feed_state(5)] sample_feed_state(3)
  by (simp add: feed_run_def)

text \<open>
  C11. The dispatcher catches up: when the writers pause and the store answers, it stays alive,
  and enough ticks (each advances the cursor by up to 1024) bring its cursor to the revision.
\<close>

theorem dispatcher_catches_up:
  assumes "s = feed_run yaml as (feed_start t)" "fd_dispatcher s = Inr d" "dp_cursor d = Some c"
    and "0 < k" "db_revision (fd_db s) - uint c \<le> 1024 * int k"
  shows "fd_dispatcher (feed_run yaml (replicate k (Tick None)) s)
    = Inr \<lparr>dp_cursor = Some (revision (fd_db s)), dp_failures = 0\<rparr>"
proof -
  have "system_ok s" unfolding assms(1) by (intro feed_run_ok system_ok_start)
  then show ?thesis using assms(2-5)
  proof (induction k arbitrary: s d c)
    case (Suc k)
    let ?s = "feed_step yaml (Tick None) s" and ?rev = "db_revision (fd_db s)"
    have feed: "feed_ok (fd_db s)" using Suc.prems(1) by (simp add: system_ok_def)
    have ok: "system_ok ?s" by (rule system_ok_step [OF Suc.prems(1)])
    obtain c' where d': "fd_dispatcher ?s = Inr \<lparr>dp_cursor = Some c', dp_failures = 0\<rparr>"
        and c': "uint c' = ?rev \<or> uint c' = window_end c 1024 (fd_db s)"
      using Suc.prems(1-3)
      by (cases rule: tick_cases [where yaml = yaml]) (use revision_fits [OF feed] window_end_fits [OF feed] in auto)
    have left: "?rev - uint c' \<le> 1024 * int k"
      using c' Suc.prems(5) by (auto simp: window_end_def)
    show ?case
    proof (cases "k = 0")
      case True
      have "uint c' = ?rev" using c' left True by (auto simp: window_end_def)
      then have "c' = revision (fd_db s)" by (metis revision_def word_of_int_uint)
      with True d' show ?thesis by simp
    next
      case False
      with Suc.IH [OF ok d', of c'] left show ?thesis by (simp add: tick_db del: feed_step.simps)
    qed
  qed simp
qed

lemma dispatcher_catches_up_witness:
  "fd_dispatcher (feed_run no_yaml (replicate 3 (Tick None)) (feed_run no_yaml sample_feed (feed_start 600)))
     = Inr \<lparr>dp_cursor = Some 2, dp_failures = 0\<rparr>"
  using dispatcher_catches_up [OF HOL.refl sample_feed_state(1), of 0 3] sample_feed_state(4)
  by (simp add: revision_def)

end
