(* ===== verification/Lifecycle_Results.thy ===== *)
theory Lifecycle_Results
  imports Route_Delivery
begin

text \<open>
  What the transactions of the lifecycle leave behind: accepted and deferred wakes, completed
  wakes, sleeps and deletions.
\<close>

section \<open>What an upsert writes\<close>

definition projected :: "record_materialization_request \<Rightarrow> materialization_row \<Rightarrow> bool" where
  "projected r m \<longleftrightarrow> on_target (rm_instance_id r) (rm_target r) m \<and> mr_state m = rm_state r
     \<and> mr_instance_generation m = uint (rm_instance_generation r)
     \<and> mr_projection_generation m = uint (rm_projection_generation r)
     \<and> mr_backend_uri m = map_option be_uri (rm_backend r)
     \<and> mr_backend_generation m = uint (rm_backend_generation r)
     \<and> mr_rendered_objects m = rm_rendered_objects r \<and> mr_exclusivity_keys m = rm_exclusivity_keys r
     \<and> mr_reconcile_owner m = None"

lemma projected_core: "row_core m = row_core n \<Longrightarrow> projected r m \<longleftrightarrow> projected r n"
  by (simp add: projected_def row_core_def on_target_def)

text \<open>The rows a statement returns are rows of the new table.\<close>

lemma returned_row:
  assumes "update_materializations now P f db = Inr (ret, db')" "m' \<in> set ret"
  obtains m n where "m \<in> set (db_materializations db)" "P m" "f m = Inr n" "row_core m' = row_core n"
    "m' \<in> set (db_materializations db')"
  using assms(1)
proof (rule update_materializations_frame)
  fix rows os ks r ob
  assume db': "db' = db\<lparr>db_materializations := rows, db_object_reservations := os,
       db_key_reservations := ks, db_revision := r, db_outbox := ob\<rparr>"
    and rows: "list_all2 (written_row P f) (db_materializations db) rows"
    and ret: "ret = map snd (filter (P \<circ> fst) (zip (db_materializations db) rows))"
  obtain m where m: "(m, m') \<in> set (zip (db_materializations db) rows)" "P m"
    using assms(2) by (auto simp: ret)
  then obtain n where "f m = Inr n" "row_core m' = row_core n"
    using list_all2_zip [OF rows m(1)] by (auto simp: written_row_def)
  with m show thesis
    by (intro that [of m n]) (auto simp: db' dest: set_zip_leftD set_zip_rightD)
qed

lemma upsert_projects:
  assumes "upsert_materialization now r db = Inr (rec, db')"
  obtains m where "m \<in> set (db_materializations db')" "projected r m" "materialization_from_row m = Inr rec"
proof -
  obtain mid m where up: "upsert_statement now mid (uint (rm_instance_generation r)) (uint (rm_projection_generation r))
        (uint (rm_backend_generation r)) r db = Inr (Some m, db')" and rec: "materialization_from_row m = Inr rec"
    using assms
    by (auto simp: upsert_materialization_def tryE_Inr generation_to_i64_Inr backend_generation_to_i64_Inr split: option.splits)
  show thesis
  proof (cases "list_ex (on_target (rm_instance_id r) (rm_target r)) (db_materializations db)")
    case True
    then obtain ret where upd: "update_materializations now (\<lambda>m. on_target (rm_instance_id r) (rm_target r) m
          \<and> mr_backend_generation m \<le> uint (rm_backend_generation r))
        (\<lambda>m. Inr (overwritten_row mid (uint (rm_instance_generation r)) (uint (rm_projection_generation r))
          (uint (rm_backend_generation r)) r m)) db = Inr (ret, db')" and "first_row ret = Some m"
      using up by (auto simp: upsert_statement_def tryE_Inr)
    then have "m \<in> set ret" by (auto simp: first_row_def split: list.splits)
    from upd this show thesis
      by (rule returned_row)
        (use rec in \<open>auto intro!: that simp: row_core_def projected_def overwritten_row_def on_target_def\<close>)
  next
    case False
    then obtain deadline where ins: "insert_materialization now m db = Inr db'"
        and m: "m = inserted_row now deadline mid (uint (rm_instance_generation r)) (uint (rm_projection_generation r))
          (uint (rm_backend_generation r)) r"
      using up by (auto simp: upsert_statement_def tryE_Inr Let_def)
    from ins have "m \<in> set (db_materializations db')"
      by (rule insert_materialization_frame) simp
    with rec show thesis
      by (intro that) (auto simp: m projected_def inserted_row_def on_target_def)
  qed
qed

lemma upsert_instances: "upsert_materialization now r db = Inr (rec, db') \<Longrightarrow> db_instances db' = db_instances db"
  by (auto simp: upsert_materialization_def upsert_statement_def tryE_Inr Let_def split: option.splits if_splits
      elim!: update_materializations_frame insert_materialization_frame)

lemma set_instance_state_row:
  assumes "set_instance_state now iid st g db = Inr (row, db')"
  shows "ir_state row = st \<and> ir_generation row = g"
proof -
  obtain ret where upd: "update_instances now (\<lambda>i. ir_id i = iid)
      (\<lambda>i. Inr (i\<lparr>ir_state := st, ir_generation := g\<rparr>)) db = Inr (ret, db')" and "first_row ret = Some row"
    using assms by (auto simp: set_instance_state_def one_row_def tryE_Inr ok_or_Inr)
  then have "row \<in> set ret" by (auto simp: first_row_def split: list.splits)
  with update_instances_rows [OF upd] show ?thesis
    by (auto dest!: list_all2_zip)
qed

section \<open>Accepting a wake\<close>

lemma max_backend_generation_ge:
  "m \<in> set (db_materializations db) \<Longrightarrow> on_target iid t m \<Longrightarrow>
     \<exists>g. max_backend_generation iid t db = Some g \<and> mr_backend_generation m \<le> g"
proof -
  let ?gs = "map mr_backend_generation (filter (on_target iid t) (db_materializations db))"
  assume "m \<in> set (db_materializations db)" "on_target iid t m"
  then have m: "mr_backend_generation m \<in> set ?gs" by auto
  then obtain g gs where gs: "?gs = g # gs" by (cases ?gs) auto
  with m have "mr_backend_generation m \<le> fold max gs g"
    by (auto simp flip: Max.set_eq_fold)
  with gs show ?thesis by (simp add: max_backend_generation_def)
qed

lemma next_backend_generation_above:
  assumes "next_backend_generation iid t bg db = Inr bg'"
  shows "bg \<le> bg'" and "m \<in> set (db_materializations db) \<Longrightarrow> on_target iid t m \<Longrightarrow> mr_backend_generation m < uint bg'"
proof -
  show "bg \<le> bg'"
    using assms by (auto simp: next_backend_generation_def tryE_Inr split: option.splits if_splits)
  assume m: "m \<in> set (db_materializations db)" "on_target iid t m"
  obtain g where g: "max_backend_generation iid t db = Some g" "mr_backend_generation m \<le> g"
    using max_backend_generation_ge [OF m] by blast
  then have "g + 1 \<le> i64_max" "0 \<le> g + 1" "bg' = max bg (word_of_int (g + 1))"
    using assms by (auto simp: next_backend_generation_def tryE_Inr backend_generation_from_i64_Inr split: if_splits)
  moreover from this have "uint (word_of_int (g + 1) :: u64) = g + 1" by (intro uint_of_i64)
  moreover have "uint (word_of_int (g + 1) :: u64) \<le> uint bg'"
    using calculation(3) by (simp add: word_le_def [symmetric])
  ultimately show "mr_backend_generation m < uint bg'" using g(2) by linarith
qed

lemma committed_wake:
  assumes wf: "store_wf db" and c: "find_instance (rm_instance_id p) db = Some row" "instance_from_row row = Inr c"
    and state: "in_state c = Cold \<or> in_state c = Failed"
    and gen: "rm_instance_generation p = Generation_next (in_generation c)"
    and commit: "commit_wake clk p c (rm_instance_generation p) db = Inr (Inr i, db')"
  obtains row' m where "find_instance (rm_instance_id p) db' = Some row'" "instance_from_row row' = Inr i"
    "in_state i = Waking" "in_generation i = rm_instance_generation p"
    "uint (rm_instance_generation p) = ir_generation row + 1" "m \<in> set (db_materializations db')" "projected p m"
proof -
  obtain g row' mid rec where g: "generation_to_i64 (Generation_next (in_generation c)) = Inr g"
      and set: "set_instance_state (clk 0) (rm_instance_id p) Waking g db = Inr (row', mid)"
      and up: "upsert_materialization (clk 1) p mid = Inr (rec, db')" and i: "instance_from_row row' = Inr i"
    using commit gen state by (auto simp: commit_wake_def tryE_Inr simp del: One_nat_def)
  have g': "g = ir_generation row + 1" "ir_generation row < i64_max" "g = uint (rm_instance_generation p)"
    using next_generation [OF wf c] g gen by (simp_all add: generation_to_i64_Inr)
  have "lifecycle_edge (ir_state row) Waking"
    using instance_from_row_Inr [OF c(2)] state wake_edges by auto
  then have "find_instance (rm_instance_id p) mid = Some row'"
    using set_instance_state_stmt [OF set wf c(1) g'(1,2)] by blast
  then have found: "find_instance (rm_instance_id p) db' = Some row'"
    using upsert_instances [OF up] by (simp add: find_instance_def)
  have i': "in_state i = Waking" "in_generation i = word_of_int g"
    using set_instance_state_row [OF set] instance_from_row_Inr [OF i] by simp_all
  moreover have "(word_of_int g :: u64) = rm_instance_generation p" unfolding g'(3) by simp
  ultimately have i'': "in_generation i = rm_instance_generation p" by simp
  obtain m where "m \<in> set (db_materializations db')" "projected p m"
    using up by (rule upsert_projects)
  with found i i'(1) i'' g' show thesis by (intro that) simp_all
qed

text \<open>
  C15. An accepted wake is durable work and its acceptance is idempotent. When a wake is accepted
  for a cold or failed instance, one transaction has moved the instance to Waking at the next
  generation and recorded the complete Pending projection at that generation, unleased, with a
  backend generation no smaller than the requested one and above every one recorded for the
  target before; and repeating the same request, at any later clock, changes nothing and reports
  the same instance.
\<close>

theorem accepted_wake_is_durable:
  assumes acc: "accept_wake clk r db = Inr (Inr i, db')" and wf: "store_wf db" and new: "db' \<noteq> db"
    and old: "find_instance (rm_instance_id (aw_pending r)) db = Some row" "ir_state row \<noteq> Draining"
  shows "in_state i = Waking \<and> uint (in_generation i) = ir_generation row + 1
     \<and> (\<exists>m \<in> set (db_materializations db'). \<exists>bg. projected (aw_pending r\<lparr>rm_backend_generation := bg\<rparr>) m
          \<and> mr_state m = Pending \<and> mr_instance_generation m = ir_generation row + 1
          \<and> rm_backend_generation (aw_pending r) \<le> bg
          \<and> (\<forall>n \<in> set (db_materializations db). on_target (rm_instance_id (aw_pending r)) (rm_target (aw_pending r)) n
               \<longrightarrow> mr_backend_generation n < mr_backend_generation m))
     \<and> accept_wake clk' r db' = Inr (Inr i, db')"
  using acc new
proof (rule accept_wake_cases)
  let ?p = "aw_pending r" and ?iid = "rm_instance_id (aw_pending r)"
  fix i0 c bg
  let ?q = "?p\<lparr>rm_backend_generation := bg\<rparr>"
  assume i0: "find_instance ?iid db = Some i0" and c: "instance_from_row i0 = Inr c"
    and state: "in_state c = Cold \<or> in_state c = Failed \<or> in_state c = Draining"
    and commit: "commit_wake clk ?q c (rm_instance_generation ?p) db = Inr (Inr i, db')"
    and gen: "in_state c \<noteq> Draining \<Longrightarrow> rm_instance_generation ?p = Generation_next (in_generation c)"
    and bg: "next_backend_generation ?iid (rm_target ?p) (rm_backend_generation ?p) db = Inr bg"
    and pend: "rm_state ?p = Pending"
  have live: "in_state c \<noteq> Draining" using old i0 instance_from_row_Inr [OF c] by simp
  obtain row' m where row': "find_instance ?iid db' = Some row'" "instance_from_row row' = Inr i"
      and i: "in_state i = Waking" "in_generation i = rm_instance_generation ?p"
        "uint (rm_instance_generation ?p) = ir_generation i0 + 1"
      and m: "m \<in> set (db_materializations db')" "projected ?q m"
    using committed_wake [OF wf, of ?q i0 c clk i db'] i0 c state live gen commit by auto
  then have m': "mr_state m = Pending" "on_target ?iid (rm_target ?p) m" "mr_backend_generation m = uint bg"
      "mr_instance_generation m = ir_generation row + 1"
    using pend i0 old(1) by (auto simp: projected_def)
  have again: "accept_wake clk' r db' = Inr (Inr i, db')"
    using row' i m(1) m'(1,2) by (auto simp: accept_wake_def Let_def list_ex_iff ok_or_def)
  have above: "\<forall>n \<in> set (db_materializations db). on_target ?iid (rm_target ?p) n \<longrightarrow> mr_backend_generation n < mr_backend_generation m"
    using next_backend_generation_above(2) [OF bg] m'(3) by simp
  have gen_i: "uint (in_generation i) = ir_generation row + 1" using i i0 old(1) by simp
  from i(1) gen_i again m m'(1,4) above next_backend_generation_above(1) [OF bg] show ?thesis by blast
qed

lemma accepted_wake_is_durable_witness:
  "\<exists>i db'. accept_wake (\<lambda>n. 0) sample_wake (run no_yaml (take 2 sample_setup) (empty_db 600)) = Inr (Inr i, db')
     \<and> in_state i = Waking \<and> accept_wake (\<lambda>n. 99) sample_wake db' = Inr (Inr i, db')"
proof -
  let ?db = "run no_yaml (take 2 sample_setup) (empty_db 600)" and ?db' = "run no_yaml sample_setup (empty_db 600)"
  let ?i = "\<lparr>in_id = ''a'', in_workload_class = \<lparr>wr_class_id = ''web'', wr_version = 1\<rparr>, in_values = [],
    in_state = Waking, in_generation = 1\<rparr>"
  have acc: "accept_wake (\<lambda>n. 0) sample_wake ?db = Inr (Inr ?i, ?db')" by code_simp
  have new: "?db' \<noteq> ?db" by code_simp
  have old: "find_instance (rm_instance_id (aw_pending sample_wake)) ?db = Some (sample_instance Cold 0)"
    by code_simp
  from accepted_wake_is_durable [OF acc wf.reachable new old] acc show ?thesis
    by (auto simp: sample_instance_def)
qed

section \<open>A wake during the drain\<close>

lemma upsert_deferred: "upsert_materialization now r db = Inr (rec, db') \<Longrightarrow> db_deferred_wakes db' = db_deferred_wakes db"
  by (auto simp: upsert_materialization_def upsert_statement_def tryE_Inr Let_def split: option.splits if_splits
      elim!: update_materializations_frame insert_materialization_frame)

lemma update_instances_deferred:
  "update_instances now P f db = Inr (ret, db') \<Longrightarrow> db_deferred_wakes db' = db_deferred_wakes db"
  by (auto elim!: update_instances_frame)

lemma mark_state_deferred:
  "mark_active_materialization_state now iid t st g os ks db = Inr (m, db') \<Longrightarrow>
     db_deferred_wakes db' = db_deferred_wakes db"
  by (auto simp: mark_active_materialization_state_def tryE_Inr split: option.splits
      elim!: update_materializations_frame)

definition deferred_projection :: "deferred_wake_row \<Rightarrow> materialization_row \<Rightarrow> bool" where
  "deferred_projection d m \<longleftrightarrow> mr_instance_id m = dw_instance_id d \<and> mr_state m = Pending
     \<and> mr_cluster_id m = dw_cluster_id d \<and> mr_namespace m = dw_namespace d
     \<and> mr_instance_generation m = dw_instance_generation d
     \<and> mr_rendered_objects m = dw_rendered_objects d \<and> mr_exclusivity_keys m = dw_exclusivity_keys d"

lemma activated_wake:
  assumes act: "activate_deferred_wake clk iid db = Inr (woken, db')" and d: "find_deferred iid db = Some d"
  obtains i rows row mid p rec where "woken = Some i" "instance_from_row row = Inr i"
    "activate_statement (clk 0) iid (dw_instance_generation d)
       (db\<lparr>db_deferred_wakes := filter (\<lambda>d. dw_instance_id d \<noteq> iid) (db_deferred_wakes db)\<rparr>) = Inr (rows, mid)"
    "first_row rows = Some row" "upsert_materialization (clk 1) p mid = Inr (rec, db')"
    "rm_instance_id p = iid" "rm_target p = \<lparr>mt_cluster_id = dw_cluster_id d, mt_namespace = dw_namespace d\<rparr>"
    "rm_state p = Pending" "rm_instance_generation p = word_of_int (dw_instance_generation d)"
    "rm_projection_generation p = word_of_int (dw_projection_generation d)"
    "rm_rendered_objects p = dw_rendered_objects d" "rm_exclusivity_keys p = dw_exclusivity_keys d"
    "0 \<le> dw_instance_generation d" "0 \<le> dw_projection_generation d"
  using act d
  by (auto simp: activate_deferred_wake_def Let_def tryE_Inr ok_or_Inr map_err_Inr generation_from_i64_Inr
      InstanceId_new_Inr RecordMaterializationRequest_new_def MaterializationTarget_new_def
      simp del: One_nat_def split: option.splits if_splits)

lemma activated_wake_result:
  assumes act: "activate_deferred_wake clk iid db = Inr (woken, db')" and d: "find_deferred iid db = Some d"
    and range: "dw_instance_generation d \<le> i64_max"
  shows "\<exists>i. woken = Some i \<and> in_state i = Waking \<and> uint (in_generation i) = dw_instance_generation d
     \<and> (\<exists>row \<in> set (db_instances db'). instance_from_row row = Inr i)
     \<and> (\<exists>m \<in> set (db_materializations db'). deferred_projection d m) \<and> find_deferred iid db' = None"
  using act d
proof (rule activated_wake)
  fix i rows row mid p rec
  let ?db = "db\<lparr>db_deferred_wakes := filter (\<lambda>d. dw_instance_id d \<noteq> iid) (db_deferred_wakes db)\<rparr>"
  assume a: "woken = Some i" "instance_from_row row = Inr i"
    "activate_statement (clk 0) iid (dw_instance_generation d) ?db = Inr (rows, mid)"
    "first_row rows = Some row" "upsert_materialization (clk 1) p mid = Inr (rec, db')"
    "rm_instance_id p = iid" "rm_target p = \<lparr>mt_cluster_id = dw_cluster_id d, mt_namespace = dw_namespace d\<rparr>"
    "rm_state p = Pending" "rm_instance_generation p = word_of_int (dw_instance_generation d)"
    "rm_rendered_objects p = dw_rendered_objects d" "rm_exclusivity_keys p = dw_exclusivity_keys d"
    "0 \<le> dw_instance_generation d"
  note rows = update_instances_rows [OF a(3) [unfolded activate_statement_def]]
  have "row \<in> set rows" using a(4) by (auto simp: first_row_def split: list.splits)
  then have row: "ir_state row = Waking" "ir_generation row = dw_instance_generation d" "row \<in> set (db_instances mid)"
    using rows by (auto dest!: list_all2_zip dest: set_zip_rightD)
  have g: "uint (word_of_int (dw_instance_generation d) :: u64) = dw_instance_generation d"
    by (rule uint_of_i64 [OF a(12) range])
  have d': "dw_instance_id d = iid" using d by (auto simp: find_deferred_def find_Some_iff)
  obtain m where "m \<in> set (db_materializations db')" "projected p m"
    using a(5) by (rule upsert_projects)
  with a(6-11) g d' have "\<exists>m \<in> set (db_materializations db'). deferred_projection d m"
    by (auto simp: projected_def deferred_projection_def on_target_def intro!: bexI [of _ m])
  moreover have "find_deferred iid db' = None"
    using upsert_deferred [OF a(5)] update_instances_deferred [OF a(3) [unfolded activate_statement_def]]
    by (auto simp: find_deferred_def find_None_iff)
  moreover have "row \<in> set (db_instances db')" using row(3) upsert_instances [OF a(5)] by simp
  ultimately show ?thesis
    using a(1,2) row g instance_from_row_Inr [OF a(2)] by auto
qed

text \<open>
  C16. A wake that is accepted while the instance drains is not lost when the drain ends: the
  transaction that finishes the sleep starts the wake. If it commits, the instance is Waking at
  the generation the wake was accepted for, its recorded projection is Pending work, and the intent has been consumed; there is no committed
  state in between in which the instance is cold and nobody will wake it.
\<close>

theorem deferred_wake_survives_drain:
  assumes fin: "finalize_sleep_in_transaction clk r db = Inr ((i, m), db')" and wf: "store_wf db"
    and d: "find_deferred (fs_instance_id r) db = Some d"
  shows "in_state i = Waking \<and> uint (in_generation i) = dw_instance_generation d
     \<and> (\<exists>row \<in> set (db_instances db'). instance_from_row row = Inr i)
     \<and> (\<exists>m \<in> set (db_materializations db'). deferred_projection d m)
     \<and> find_deferred (fs_instance_id r) db' = None"
proof -
  let ?iid = "fs_instance_id r"
  obtain g row mid mid' i0 m0 woken where set: "set_instance_state (clk 0) ?iid Cold g db = Inr (row, mid)"
      and mark: "mark_active_materialization_state (clk 1) ?iid (fs_target r) MDeleted
        (Some (Generation_next (fs_expected_draining_generation r))) (Some []) (Some []) mid = Inr (m0, mid')"
      and act: "activate_deferred_wake (\<lambda>n. clk (n + 2)) ?iid mid' = Inr (woken, db')"
      and i: "i = (case woken of Some i' \<Rightarrow> i' | None \<Rightarrow> i0)"
    using fin unfolding finalize_sleep_in_transaction_def Let_def
    by (auto simp: tryE_Inr simp del: One_nat_def add_2_eq_Suc' split: if_splits)
  have "db_deferred_wakes mid' = db_deferred_wakes db"
    using mark_state_deferred [OF mark] set
    by (auto simp: set_instance_state_def tryE_Inr dest!: update_instances_deferred)
  then have d': "find_deferred ?iid mid' = Some d" using d by (simp add: find_deferred_def)
  have "dw_instance_generation d \<le> i64_max"
    using d wf by (auto simp: find_deferred_def find_Some_iff store_wf_def)
  from activated_wake_result [OF act d' this] i show ?thesis by auto
qed

definition sample_deferred :: "store_op list" where
  "sample_deferred = sample_draining @ [AcceptWake (\<lambda>n. 30) \<lparr>aw_expected_generation = 3,
     aw_pending = sample_pending\<lparr>rm_instance_generation := 5, rm_projection_generation := 6\<rparr>\<rparr>]"

definition sample_finalize :: finalize_sleep_request where
  "sample_finalize = \<lparr>fs_instance_id = ''a'', fs_expected_draining_generation = 3, fs_target = sample_target\<rparr>"

lemma deferred_wake_survives_drain_witness:
  "\<exists>i m db'. finalize_sleep_in_transaction (\<lambda>n. 40) sample_finalize (run no_yaml sample_deferred (empty_db 600))
       = Inr ((i, m), db')
     \<and> in_state i = Waking \<and> uint (in_generation i) = 5"
proof -
  let ?db = "run no_yaml sample_deferred (empty_db 600)"
  have "is_ok (finalize_sleep_in_transaction (\<lambda>n. 40) sample_finalize ?db)" by code_simp
  then obtain i m db' where fin: "finalize_sleep_in_transaction (\<lambda>n. 40) sample_finalize ?db = Inr ((i, m), db')"
    by (auto simp: is_ok_iff)
  have "map_option dw_instance_generation (find_deferred (fs_instance_id sample_finalize) ?db) = Some 5" by code_simp
  then obtain d where "find_deferred (fs_instance_id sample_finalize) ?db = Some d" "dw_instance_generation d = 5" by auto
  with fin deferred_wake_survives_drain [OF fin wf.reachable] show ?thesis by auto
qed

section \<open>Fenced commits\<close>

text \<open>
  What the lease check has established: the caller's lease on the row, at the generation and in
  the state it expects, is live and no effect is outstanding.
\<close>

lemma ensured_lease:
  assumes "ensure_reconciliation_lease now mid w a st iid g t db = Inr u"
  obtains m where "m \<in> set (db_materializations db)" "mr_id m = mid" "mr_state m = st" "on_target iid t m"
    "mr_instance_generation m = uint g" "lease_held now w (uint a) (lease_of m)" "\<not> has_effect db mid"
proof -
  obtain m where f: "find (\<lambda>m. mr_id m = mid \<and> mr_state m = st \<and> mr_instance_generation m = uint g \<and> on_target iid t m)
        (db_materializations db) = Some m"
      and rest: "mr_reconcile_owner m = Some w" "lease_live now m" "\<not> has_effect db mid"
      and att: "lease_attempt a = Inr (mr_reconcile_attempt m)"
    using assms by (auto simp: ensure_reconciliation_lease_def tryE_Inr ok_or_Inr ensure_Inr generation_to_i64_Inr split: if_splits)
  from f have m: "m \<in> set (db_materializations db)" "mr_id m = mid" "mr_state m = st" "mr_instance_generation m = uint g"
      "on_target iid t m"
    by (auto simp: find_Some_iff)
  show thesis
    by (rule that [OF m(1-3,5,4)]) (use rest lease_attempt_Inr [OF att] in \<open>simp_all add: lease_held_row\<close>)
qed

lemma completed_wake:
  assumes com: "complete_wake_in_transaction clk r db = Inr ((i, m), db')" and wf: "store_wf db"
  obtains row where "find_instance (cw_instance_id r) db' = Some row" "instance_from_row row = Inr i"
    "ir_state row = Running" "in_generation i = Generation_next (cw_expected_waking_generation r)"
    "ir_generation row = uint (in_generation i)"
    "\<exists>n \<in> set (db_materializations db'). materialization_from_row n = Inr m \<and> on_target (cw_instance_id r) (cw_target r) n
       \<and> mr_state n = Ready \<and> mr_instance_generation n = ir_generation row
       \<and> mr_backend_uri n = Some (be_uri (cw_backend r)) \<and> mr_reconcile_owner n = None"
proof -
  let ?iid = "cw_instance_id r"
  obtain i0 c g row mid where i0: "find_instance ?iid db = Some i0" and c: "instance_from_row i0 = Inr c"
      and exp: "in_generation c = cw_expected_waking_generation r"
      and valid: "valid_transition (in_state c) Running MaterializationReady"
      and g: "generation_to_i64 (Generation_next (in_generation c)) = Inr g"
      and set: "set_instance_state (clk 0) ?iid Running g db = Inr (row, mid)"
      and i: "instance_from_row row = Inr i"
      and ups: "\<exists>p. rm_instance_id p = ?iid \<and> rm_instance_generation p = Generation_next (in_generation c)
        \<and> rm_target p = cw_target r \<and> rm_state p = Ready \<and> rm_backend p = Some (cw_backend r)
        \<and> upsert_materialization (clk 1) p mid = Inr (m, db')"
    using com unfolding complete_wake_in_transaction_def Let_def
    by (auto simp: tryE_Inr ok_or_Inr map_err_Inr validate_transition_Inr RecordMaterializationRequest_new_def
        simp del: One_nat_def split: if_splits) fastforce
  obtain p where p: "rm_instance_id p = ?iid" "rm_instance_generation p = Generation_next (in_generation c)"
        "rm_target p = cw_target r" "rm_state p = Ready" "rm_backend p = Some (cw_backend r)"
      and up: "upsert_materialization (clk 1) p mid = Inr (m, db')"
    using ups by blast
  note one = checked_transition [OF i0 c valid g set wf]
  obtain n where n: "n \<in> set (db_materializations db')" "projected p n" "materialization_from_row n = Inr m"
    using up by (rule upsert_projects)
  have gi: "in_generation i = Generation_next (in_generation c)"
    using instance_from_row_Inr [OF i] one(3,5) by simp
  show thesis
  proof (rule that [of row])
    show "find_instance ?iid db' = Some row"
      using one(2) upsert_instances [OF up] by (simp add: find_instance_def)
    show "ir_state row = Running" using set_instance_state_row [OF set] by simp
    show "ir_generation row = uint (in_generation i)" using one(3,5) gi by simp
    then show "\<exists>n \<in> set (db_materializations db'). materialization_from_row n = Inr m \<and> on_target ?iid (cw_target r) n
       \<and> mr_state n = Ready \<and> mr_instance_generation n = ir_generation row
       \<and> mr_backend_uri n = Some (be_uri (cw_backend r)) \<and> mr_reconcile_owner n = None"
      using n p gi by (intro bexI [of _ n]) (auto simp: projected_def)
  qed (use i gi exp in simp_all)
qed



end
