(* ===== verification/Deletion_Results.thy ===== *)
theory Deletion_Results
  imports Lifecycle_Results
begin

text \<open>
  The paths of an instance through its states, and its deletion.
\<close>

section \<open>The states of an instance\<close>

text \<open>
  The state an instance's ID can show later: reachable along the lifecycle, possibly through
  deletion and the creation of a new, cold incarnation.
\<close>

definition later_state :: "instance_state \<Rightarrow> instance_state \<Rightarrow> bool" where
  "later_state s t \<longleftrightarrow> lifecycle_edge\<^sup>*\<^sup>* s t \<or> lifecycle_edge\<^sup>*\<^sup>* s Deleting \<and> lifecycle_edge\<^sup>*\<^sup>* Cold t"

definition shows_later :: "instance_row \<Rightarrow> store_db \<Rightarrow> bool" where
  "shows_later i db \<longleftrightarrow>
     (\<forall>j \<in> set (db_instances db). ir_id j = ir_id i \<longrightarrow> later_state (ir_state i) (ir_state j))
     \<and> (ir_id i \<in> ir_id ` set (db_instances db) \<or> lifecycle_edge\<^sup>*\<^sup>* (ir_state i) Deleting)"

lemma later_state_edge: "later_state s t \<Longrightarrow> lifecycle_edge t u \<Longrightarrow> later_state s u"
  unfolding later_state_def using rtranclp.rtrancl_into_rtrancl by metis

lemma shows_later_stmt:
  assumes "stmt db db'" "store_wf db" "shows_later i db"
  shows "shows_later i db'"
  using assms(1)
proof (cases rule: stmt_instances)
  case steps
  have "map ir_id (db_instances db') = map ir_id (db_instances db)"
    by (rule list_all2_map_eq [OF steps]) (auto simp: instance_step_def)
  then have "ir_id ` set (db_instances db') = ir_id ` set (db_instances db)"
    by (metis list.set_map)
  moreover have "later_state (ir_state i) (ir_state j)" if "j \<in> set (db_instances db')" "ir_id j = ir_id i" for j
    using list_all2_set2 [OF steps that(1)] that(2) assms(3)
    by (auto simp: shows_later_def instance_step_def intro: later_state_edge)
  ultimately show ?thesis using assms(3) by (simp add: shows_later_def)
next
  case (added new row)
  have "distinct (map ir_id (db_instances db'))"
    using store_wf_stmt [OF assms(1,2)] by (simp add: store_wf_def)
  then have "ir_id row \<notin> ir_id ` set (db_instances db)" using added(1) by auto
  then show ?thesis
    using assms(3) added by (auto simp: shows_later_def later_state_def)
next
  case (removed P)
  have "lifecycle_edge\<^sup>*\<^sup>* (ir_state i) Deleting" if "j \<in> set (db_instances db)" "ir_id j = ir_id i" "P j" for j
    using that removed(2) assms(3) by (fastforce simp: shows_later_def later_state_def)
  then have "lifecycle_edge\<^sup>*\<^sup>* (ir_state i) Deleting \<or> ir_id i \<in> ir_id ` set (db_instances db')"
    using assms(3) unfolding shows_later_def removed(1) by force
  then show ?thesis
    using assms(3) unfolding shows_later_def removed(1) by auto
qed



end
