(* ===== verification/Frontline_Matcher.thy ===== *)
theory Frontline_Matcher
  imports Store_Properties
begin

text \<open>
  \<^verbatim>\<open>crates/frontline/src/matcher.rs\<close>: how the frontline proxy ranks route rules against a
  request. The frontline validates with it every resolution the control plane sends, so it has to
  agree with the control plane's own matching, which is SQL.
\<close>

section \<open>Ranks\<close>

record match_rank =
  rk_host_kind :: nat
  rk_host_specificity :: nat
  rk_path_specificity :: nat

definition frontline_host_rank :: "route_host \<Rightarrow> route_host \<Rightarrow> (nat \<times> nat) option" where
  "frontline_host_rank req rule =
     (case rh_kind rule of
        ExactHost \<Rightarrow> if rh_host req = rh_host rule then Some (2, length (rh_host rule)) else None
      | WildcardSuffix \<Rightarrow>
          (let host = rh_host req; suffix = rh_host rule in
           if host \<noteq> suffix \<and> ends_with host suffix then
             if length host < length suffix + 1 then None
             else let boundary = length host - (length suffix + 1) in
               if boundary < length host \<and> host ! boundary = CHR ''.'' then Some (1, length suffix) else None
           else None))"

definition frontline_path_prefix_matches :: "string \<Rightarrow> string \<Rightarrow> bool" where
  "frontline_path_prefix_matches request_path rule_path =
     (if rule_path = ''/'' \<or> request_path = rule_path then True
      else if ends_with rule_path ''/'' then starts_with request_path rule_path
      else (case strip_prefix rule_path request_path of
              Some suffix \<Rightarrow> starts_with suffix ''/''
            | None \<Rightarrow> False))"

definition path_or_root :: "string option \<Rightarrow> string" where
  "path_or_root p = (case p of Some path \<Rightarrow> path | None \<Rightarrow> ''/'')"

fun rank_match :: "route_identity \<Rightarrow> route_identity \<Rightarrow> match_rank option" where
  "rank_match (HttpIdentity request_host request_path) (HttpIdentity rule_host rule_path) =
     (case frontline_host_rank request_host rule_host of
        None \<Rightarrow> None
      | Some (k, n) \<Rightarrow>
          if \<not> frontline_path_prefix_matches (path_or_root request_path) (path_or_root rule_path) then None
          else Some \<lparr>rk_host_kind = k, rk_host_specificity = n,
                     rk_path_specificity = length (path_or_root rule_path)\<rparr>)"
| "rank_match (SniIdentity request_host) (SniIdentity rule_host) =
     (case frontline_host_rank request_host rule_host of
        None \<Rightarrow> None
      | Some (k, n) \<Rightarrow> Some \<lparr>rk_host_kind = k, rk_host_specificity = n, rk_path_specificity = 0\<rparr>)"
| "rank_match _ _ = None"

text \<open>The derived order of \<^verbatim>\<open>MatchRank\<close> compares the fields in turn.\<close>

definition rank_order :: "match_rank \<Rightarrow> nat \<times> nat \<times> nat" where
  "rank_order r = (rk_host_kind r, rk_host_specificity r, rk_path_specificity r)"

record route_rule =
  ru_matched_identity :: route_identity
  ru_entry :: route_entry

text \<open>\<^verbatim>\<open>Iterator::max_by\<close>: of several maximal elements the last one.\<close>

definition max_by_last :: "('a \<Rightarrow> 'b :: linorder) \<Rightarrow> 'a list \<Rightarrow> 'a option" where
  "max_by_last f xs = (case xs of [] \<Rightarrow> None | x # xs \<Rightarrow> Some (foldl (\<lambda>m y. if f m \<le> f y then y else m) x xs))"

definition match_route :: "route_rule list \<Rightarrow> route_identity \<Rightarrow> route_rule option" where
  "match_route rules req =
     map_option snd (max_by_last (\<lambda>(rank, rule). rank_order rank)
       (List.map_filter (\<lambda>rule. map_option (\<lambda>rank. (rank, rule)) (rank_match req (ru_matched_identity rule))) rules))"

section \<open>Ranks and scores\<close>

lemma frontline_host_rank_iff:
  "frontline_host_rank req rule = Some (k, n) \<longleftrightarrow>
     n = length (rh_host rule)
     \<and> (rh_kind rule = ExactHost \<and> k = 2 \<and> rh_host req = rh_host rule
        \<or> rh_kind rule = WildcardSuffix \<and> k = 1 \<and> rh_host rule \<in> set (dot_suffixes (rh_host req)))"
proof (cases "rh_kind rule")
  case WildcardSuffix
  let ?h = "rh_host req" and ?s = "rh_host rule"
  have "(?h \<noteq> ?s \<and> ends_with ?h ?s \<and> \<not> length ?h < length ?s + 1
          \<and> ?h ! (length ?h - (length ?s + 1)) = CHR ''.'') \<longleftrightarrow> ?s \<in> set (dot_suffixes ?h)"
  proof
    assume l: "?h \<noteq> ?s \<and> ends_with ?h ?s \<and> \<not> length ?h < length ?s + 1
        \<and> ?h ! (length ?h - (length ?s + 1)) = CHR ''.''"
    then obtain b where b: "?h = b @ ?s" "b \<noteq> []" by (auto simp: ends_with_iff)
    then have "last b = CHR ''.''" using l by (auto simp: nth_append last_conv_nth)
    then have "b = butlast b @ ''.''" using append_butlast_last_id [OF b(2)] by metis
    then have "?h = butlast b @ ''.'' @ ?s" using b(1) by (metis append.assoc)
    then show "?s \<in> set (dot_suffixes ?h)" unfolding dot_suffixes_iff by blast
  qed (auto simp: dot_suffixes_iff ends_with_iff nth_append)
  then show ?thesis
    using WildcardSuffix by (auto simp: frontline_host_rank_def Let_def split: if_splits)
qed (auto simp: frontline_host_rank_def)

lemma frontline_path_prefix_matches_eq: "frontline_path_prefix_matches = path_prefix_matches"
  by (intro ext) (simp add: frontline_path_prefix_matches_def path_prefix_matches_def)

definition has_path :: "route_identity \<Rightarrow> bool" where
  "has_path i = (case i of HttpIdentity h p \<Rightarrow> p \<noteq> None | SniIdentity h \<Rightarrow> True)"

text \<open>A rule that scores has a rank; a request that names its path has no other ranks.\<close>

lemma rank_match_iff:
  "rank_match l b = Some r \<longleftrightarrow>
     (\<exists>k n. frontline_host_rank (identity_host l) (identity_host b) = Some (k, n)
       \<and> identity_kind l = identity_kind b
       \<and> path_prefix_matches (path_or_root (identity_path l)) (path_or_root (identity_path b))
       \<and> r = \<lparr>rk_host_kind = k, rk_host_specificity = n,
               rk_path_specificity = (if identity_kind b = ''http'' then length (path_or_root (identity_path b)) else 0)\<rparr>)"
  by (cases l; cases b)
    (auto simp: frontline_path_prefix_matches_eq path_or_root_def path_prefix_matches_def split: option.splits if_splits)

lemma path_prefix_matches_root: "path_prefix_matches p ''/''"
  by (simp add: path_prefix_matches_def)

lemma score_has_rank:
  assumes "route_match_score b l = Some s"
  shows "\<exists>r. rank_match l b = Some r"
  using assms
  by (cases l; cases b)
    (auto simp: bind_eq_Some_conv host_score_iff path_score_iff frontline_host_rank_iff rank_match_iff
      path_or_root_def path_prefix_matches_root simp del: rank_match.simps split: option.splits)

lemma rank_has_score:
  assumes "rank_match l b = Some r" "has_path l"
  shows "\<exists>s. route_match_score b l = Some s"
  using assms
  by (cases l; cases b)
    (auto simp: bind_eq_Some_conv host_score_iff path_score_iff frontline_host_rank_iff rank_match_iff has_path_def
      path_or_root_def simp del: rank_match.simps split: option.splits)

lemma rank_match_sql:
  assumes "has_path l"
  shows "sql_route_matches (route_identity_parts_of b) (route_identity_parts_of l) \<longleftrightarrow> rank_match l b \<noteq> None"
  using sql_route_matches_score [of b l] route_match_score_value [of b l] score_has_rank [of b l]
    rank_has_score [OF _ assms, of b] by fastforce

text \<open>The statement's order refines the order of the ranks.\<close>

lemma sql_order_rank:
  assumes "rank_match l b = Some r" "rank_match l b' = Some r'"
    and "sql_route_order i (route_identity_parts_of b) \<le> sql_route_order i' (route_identity_parts_of b')"
    and "identity_path b \<noteq> Some []" "identity_path b' \<noteq> Some []"
  shows "rank_order r' \<le> rank_order r"
  using assms
  by (auto simp: rank_match_iff frontline_host_rank_iff rank_order_def sql_route_order_def route_identity_parts_of_def
      route_host_kind_to_db_def path_or_root_def less_eq_prod_def less_prod_def Suc_le_eq
      simp del: rank_match.simps split: if_splits option.splits)

end
