(* ===== verification/Route_Agreement.thy ===== *)
theory Route_Agreement
  imports Frontline_Matcher Route_Dispatch
begin

text \<open>
  The control plane resolves a route in SQL; the frontline checks the answer with its own
  matcher. Both implementations agree, on every database the store can reach.
\<close>

section \<open>Routes refer to instances\<close>

definition routes_ok :: "store_db \<Rightarrow> bool" where
  "routes_ok db \<longleftrightarrow> distinct (map rr_id (db_routes db))
     \<and> distinct (map (route_identity_key \<circ> rr_identity) (db_routes db))
     \<and> (\<forall>r \<in> set (db_routes db). rr_instance_id r \<in> ir_id ` set (db_instances db))"

lemma routes_ok_filter:
  assumes "routes_ok db" "db_routes db' = filter Q (db_routes db)"
    and "\<And>r. r \<in> set (db_routes db) \<Longrightarrow> Q r \<Longrightarrow> rr_instance_id r \<in> ir_id ` set (db_instances db) \<Longrightarrow>
      rr_instance_id r \<in> ir_id ` set (db_instances db')"
  shows "routes_ok db'"
  using assms by (auto simp: routes_ok_def intro: distinct_map_filter)

lemma routes_ok_same:
  assumes "routes_ok db" "db_routes db' = db_routes db" "ir_id ` set (db_instances db) \<subseteq> ir_id ` set (db_instances db')"
  shows "routes_ok db'"
  using assms by (auto simp: routes_ok_def)

lemma routes_ok_update_instances:
  assumes "update_instances now P f db = Inr (ret, db')" "routes_ok db"
    and "\<And>i j. i \<in> set (db_instances db) \<Longrightarrow> P i \<Longrightarrow> f i = Inr j \<Longrightarrow> instance_step i j"
  shows "routes_ok db'"
proof -
  have rows: "list_all2 (\<lambda>i j. ir_id i = ir_id j) (db_instances db) (db_instances db')"
    using update_instances_steps [OF assms(1,3)]
    by (rule list.rel_mono_strong) (auto simp: instance_step_def)
  then have "map ir_id (db_instances db) = map ir_id (db_instances db')"
    by (simp add: list_all2_conv_all_nth list_eq_iff_nth_eq)
  moreover have "db_routes db' = db_routes db"
    using assms(1) by (rule update_instances_frame) simp
  ultimately show ?thesis
    using assms(2) by (intro routes_ok_same [OF assms(2)]) (metis list.set_map subset_refl)+
qed

lemma routes_ok_insert:
  assumes "insert_route now r db = Inr db'" "routes_ok db"
  shows "routes_ok db'"
proof -
  have "rr_id r \<notin> rr_id ` set (db_routes db)" "rr_instance_id r \<in> ir_id ` set (db_instances db)"
      "route_identity_key (rr_identity r) \<notin> (route_identity_key \<circ> rr_identity) ` set (db_routes db)"
    using assms(1) by (force simp: insert_route_def list_ex_iff split: if_splits)+
  then show ?thesis
    using insert_route_frame [OF assms(1)] assms(2) by (auto simp: routes_ok_def)
qed

lemma routes_ok_stmt:
  assumes "stmt db db'" "store_wf db" "routes_ok db"
  shows "routes_ok db'"
  using assms(1)
proof (cases rule: stmt.cases)
  case (update_materialization now P f ret)
  from update_materialization(1) show ?thesis
    by (rule update_materializations_frame) (use assms(3) in \<open>auto simp: routes_ok_def\<close>)
next
  case (insert_materialization now new)
  from insert_materialization(1) show ?thesis
    by (rule insert_materialization_frame) (use assms(3) in \<open>auto simp: routes_ok_def\<close>)
next
  case (update_instance now P f ret')
  then show ?thesis using routes_ok_update_instances assms(3) by blast
next
  case (insert_instance now new' row)
  from insert_instance(1) show ?thesis
    by (rule insert_instance_row_frame) (use assms(3) in \<open>auto intro: routes_ok_same\<close>)
next
  case (delete_instance now P' n)
  from delete_instance(1) show ?thesis
    by (rule delete_instances_frame)
      (rule routes_ok_filter [OF assms(3), where Q = "\<lambda>r. rr_instance_id r \<notin> gone_ids P' db"], auto simp: gone_ids_def)
next
  case (insert_route_binding now rr b)
  then show ?thesis using routes_ok_insert assms(3) by blast
next
  case (delete_route_binding now P'' n)
  then show ?thesis
    using routes_ok_filter [OF assms(3)] by (auto dest!: delete_routes_frame)
next
  case (prune now limit)
  then show ?thesis using assms(3) by (simp add: prune_outbox_def Let_def routes_ok_def)
qed (use assms(3) in \<open>simp_all add: routes_ok_def\<close>)

lemma routes_ok_empty: "routes_ok (empty_db t)"
  by (simp add: routes_ok_def empty_db_def)

interpretation routes: store_invariant routes_ok
  by unfold_locales (auto intro: routes_ok_empty routes_ok_stmt)

section \<open>Resolution\<close>

text \<open>
  A request's host as clients send it: normalised, and visible ASCII. The rows that match such a
  request are read back unchanged.
\<close>

definition visible_ascii :: "string \<Rightarrow> bool" where
  "visible_ascii s \<longleftrightarrow> list_all (\<lambda>c. 33 \<le> byte c \<and> byte c < 127) s"

definition plain_host :: "route_identity \<Rightarrow> bool" where
  "plain_host l \<longleftrightarrow> normalize_host (rh_host (identity_host l)) False = Inr (rh_host (identity_host l))
     \<and> visible_ascii (rh_host (identity_host l))"

lemma visible_no_whitespace: "visible_ascii s \<Longrightarrow> \<forall>ch \<in> set (utf8_chars s). \<not> is_whitespace ch"
  unfolding visible_ascii_def by (induction s) (auto simp: utf8_len_def dest: is_whitespace_ascii)

lemma suffix_normalized:
  assumes l: "normalize_host h False = Inr h" "visible_ascii h" and h: "h = p @ s"
    and s: "normalize_host s w = Inr s'"
  shows "s' = s"
proof -
  note form = normalize_host_form [OF l(1)]
  have "length (to_ascii_lowercase p) = length p" by (simp add: to_ascii_lowercase_def)
  then have low: "to_ascii_lowercase s = s" using form(5) by (simp add: h lowercase_append)
  have "no_final_dot s" using form(4) by (auto simp: no_final_dot_def h)
  moreover have "trim s = s" using l(2) h by (intro trim_no_whitespace visible_no_whitespace) (simp add: visible_ascii_def)
  moreover have "strip_prefix ''*.'' s = None"
    using form(2) h by (cases "strip_prefix ''*.'' s") (auto simp: strip_prefix_Some)
  ultimately show ?thesis
    using s low by (auto simp: normalize_host_def Let_def trim_end_dots_id split: if_splits)
qed

lemma matching_row_stable:
  assumes "plain_host l" "readable_route r"
    and hit: "sql_route_matches (route_identity_parts_of (rr_identity r)) (route_identity_parts_of l)"
  shows "route_binding_from_row r = Inr r"
proof -
  let ?h = "rh_host (identity_host (rr_identity r))"
  have "\<exists>p. rh_host (identity_host l) = p @ ?h"
    using hit by (auto simp: sql_route_matches_def route_identity_parts_of_def dot_suffixes_iff)
  then have same: "normalize_host ?h w = Inr s' \<Longrightarrow> s' = ?h" for w s'
    using suffix_normalized assms(1) by (auto simp: plain_host_def)
  obtain b where b: "route_binding_from_row r = Inr b"
    using assms(2) by (auto simp: readable_route_def is_ok_iff)
  from this same have "b = r"
    by (cases r; cases "rr_identity r"; cases "identity_host (rr_identity r)")
      (auto simp: route_binding_from_row_def Let_def tryE_Inr map_err_Inr string_newtype_new_Inr InstanceId_new_Inr
        route_identity_parts_of_def route_identity_from_parts_def route_host_from_db_def route_host_kind_to_db_def
        RouteHost_exact_def RouteHost_wildcard_suffix_def PathPrefix_new_def
        split: option.splits if_splits route_host_kind.splits)
  with b show ?thesis by simp
qed

lemma readable_path: "readable_route r \<Longrightarrow> identity_path (rr_identity r) \<noteq> Some []"
  by (cases "rr_identity r")
    (auto simp: readable_route_def is_ok_iff route_binding_from_row_def Let_def tryE_Inr map_err_Inr
      route_identity_parts_of_def route_identity_from_parts_def PathPrefix_new_def starts_with_def split: option.splits if_splits)

lemma find_by_key: "distinct (map f xs) \<Longrightarrow> x \<in> set xs \<Longrightarrow> find (\<lambda>y. f y = f x) xs = Some x"
  by (induction xs) (auto simp: image_iff)

text \<open>The statement's row, when it has one, and what the resolution is made of.\<close>

lemma resolve_route_Miss:
  assumes "resolve_route l target db = Inr (Miss ttl)" "routes_ok db"
  shows "select_route (map (\<lambda>r. (rr_id r, rr_identity r)) (db_routes db)) l = None"
proof (rule ccontr)
  assume "select_route (map (\<lambda>r. (rr_id r, rr_identity r)) (db_routes db)) l \<noteq> None"
  then obtain i b where sel: "select_route (map (\<lambda>r. (rr_id r, rr_identity r)) (db_routes db)) l = Some (i, b)" by auto
  then obtain r where r: "r \<in> set (db_routes db)" "rr_id r = i"
    using select_route_Some [OF sel] by auto
  then have "find (\<lambda>r. rr_id r = i) (db_routes db) = Some r"
    using find_by_key [of rr_id "db_routes db" r] assms(2) by (simp add: routes_ok_def)
  moreover obtain inst where "find_instance (rr_instance_id r) db = Some inst"
    using r(1) assms(2) by (fastforce simp: routes_ok_def find_instance_def find_None_iff)
  ultimately show False
    using assms(1) sel by (auto simp: resolve_route_def Let_def tryE_Inr)
qed

lemma resolve_route_Resolved:
  assumes "resolve_route l target db = Inr (Resolved b e)" "routes_ok db" "payloads_ok db" "plain_host l"
  obtains r where "r \<in> set (db_routes db)" "rr_identity r = b" "rr_id r = re_route_binding_id e"
    "rr_instance_id r = re_instance_id e"
    "select_route (map (\<lambda>r. (rr_id r, rr_identity r)) (db_routes db)) l = Some (rr_id r, b)"
proof -
  obtain i b' r where sel: "select_route (map (\<lambda>r. (rr_id r, rr_identity r)) (db_routes db)) l = Some (i, b')"
      and r: "find (\<lambda>r. rr_id r = i) (db_routes db) = Some r"
    using assms(1) by (auto simp: resolve_route_def split: option.splits)
  have mem: "r \<in> set (db_routes db)" "rr_id r = i" using r by (auto simp: find_Some_iff)
  obtain r' where "r' \<in> set (db_routes db)" "rr_id r' = i" "rr_identity r' = b'"
    using select_route_Some [OF sel] by auto
  then have b': "rr_identity r = b'"
    using mem assms(2) by (auto simp: routes_ok_def distinct_map inj_on_def)
  have "route_binding_from_row r = Inr r"
    using select_route_Some [OF sel] mem assms(3) b'
    by (intro matching_row_stable [OF assms(4)]) (auto simp: payloads_ok_def)
  then have "rr_identity r = b" "rr_id r = re_route_binding_id e" "rr_instance_id r = re_instance_id e"
    using assms(1) sel r by (auto simp: resolve_route_def Let_def tryE_Inr split: option.splits)
  with that mem b' sel show thesis by blast
qed



end
