(* ===== verification/Route_Cache.thy ===== *)
theory Route_Cache
  imports Route_Agreement "HOL-Library.AList"
begin

text \<open>
  \<^verbatim>\<open>crates/frontline/src/cache.rs\<close>: the frontline's cache of route answers, keyed by the
  identity that was asked for, with FIFO eviction, time-to-live expiry and an index from the
  control plane's subscriptions to the answers they keep fresh.

  A \<^verbatim>\<open>HashMap\<close> is an association list (its iteration order is unspecified; no result depends on
  it beyond the order of a list of ids), a \<^verbatim>\<open>BTreeMap\<close> the sorted list of \<^verbatim>\<open>BTree_Map\<close>. An
  \<^verbatim>\<open>Instant\<close> counts nanoseconds. The sequence number is a \<^verbatim>\<open>u64\<close>.
\<close>

type_synonym instant = nat

type_synonym ('k, 'v) hash_map = "('k \<times> 'v) list"

record subscription_id =
  si_value :: string
  si_session :: "u64 option"

record positive_cache_entry =
  pe_subscription_id :: "subscription_id option"
  pe_matched_identity :: route_identity
  pe_request_identity :: route_identity
  pe_entry :: route_entry
  pe_expires_at :: instant
  pe_sequence :: u64

record negative_cache_entry =
  ne_request_identity :: route_identity
  ne_expires_at :: instant
  ne_sequence :: u64

datatype cache_lookup_result =
    HitPositive positive_cache_entry
  | HitNegative negative_cache_entry
  | Expired
  | Absent

datatype stale_entry =
    StaleInstanceGeneration generation generation
  | StaleBackendGeneration backend_generation backend_generation

record route_cache =
  ch_capacity :: nat
  ch_positives :: "(route_identity, positive_cache_entry) hash_map"
  ch_by_subscription :: "(subscription_id, route_identity) hash_map"
  ch_positive_order :: "(u64, route_identity) btree"
  ch_positive_expiry :: "(instant \<times> u64, route_identity) btree"
  ch_negatives :: "(route_identity, negative_cache_entry) hash_map"
  ch_negative_order :: "(u64, route_identity) btree"
  ch_negative_expiry :: "(instant \<times> u64, route_identity) btree"
  ch_sequence :: u64

section \<open>Entries\<close>

definition PositiveCacheEntry_new ::
    "subscription_id \<Rightarrow> route_identity \<Rightarrow> route_entry \<Rightarrow> duration \<Rightarrow> instant \<Rightarrow> positive_cache_entry" where
  "PositiveCacheEntry_new sid matched entry ttl now =
     \<lparr>pe_subscription_id = Some sid, pe_matched_identity = matched, pe_request_identity = matched,
      pe_entry = entry, pe_expires_at = now + ttl, pe_sequence = 0\<rparr>"

definition NegativeCacheEntry_new :: "route_identity \<Rightarrow> duration \<Rightarrow> instant \<Rightarrow> negative_cache_entry" where
  "NegativeCacheEntry_new req ttl now =
     \<lparr>ne_request_identity = req, ne_expires_at = now + ttl, ne_sequence = 0\<rparr>"

definition stale_route_entry :: "route_entry \<Rightarrow> route_entry \<Rightarrow> stale_entry option" where
  "stale_route_entry current incoming =
     (if re_instance_id current \<noteq> re_instance_id incoming then None
      else if re_instance_generation incoming < re_instance_generation current
      then Some (StaleInstanceGeneration (re_instance_generation current) (re_instance_generation incoming))
      else (case (re_backend_generation current, re_backend_generation incoming) of
              (Some c, Some i) \<Rightarrow> if i < c then Some (StaleBackendGeneration c i) else None
            | _ \<Rightarrow> None))"

section \<open>The cache\<close>

definition RouteCache_new :: "nat \<Rightarrow> route_cache" where
  "RouteCache_new capacity =
     \<lparr>ch_capacity = capacity, ch_positives = [], ch_by_subscription = [], ch_positive_order = [],
      ch_positive_expiry = [], ch_negatives = [], ch_negative_order = [], ch_negative_expiry = [],
      ch_sequence = 0\<rparr>"

definition cache_len :: "route_cache \<Rightarrow> nat" where
  "cache_len c = length (ch_positives c) + length (ch_negatives c)"

definition cache_lookup :: "route_identity \<Rightarrow> instant \<Rightarrow> route_cache \<Rightarrow> cache_lookup_result" where
  "cache_lookup i now c =
     (case map_of (ch_positives c) i of
        Some e \<Rightarrow> if now \<ge> pe_expires_at e then Expired else HitPositive e
      | None \<Rightarrow>
          (case map_of (ch_negatives c) i of
             Some e \<Rightarrow> if now \<ge> ne_expires_at e then Expired else HitNegative e
           | None \<Rightarrow> Absent))"

definition remove_positive :: "route_identity \<Rightarrow> route_cache \<Rightarrow> positive_cache_entry option \<times> route_cache" where
  "remove_positive i c =
     (case map_of (ch_positives c) i of
        None \<Rightarrow> (None, c)
      | Some e \<Rightarrow>
          (Some e,
           c\<lparr>ch_positives := AList.delete i (ch_positives c),
             ch_by_subscription :=
               (case pe_subscription_id e of
                  Some sid \<Rightarrow> AList.delete sid (ch_by_subscription c)
                | None \<Rightarrow> ch_by_subscription c),
             ch_positive_order := bt_remove (ch_positive_order c) (pe_sequence e),
             ch_positive_expiry := bt_remove (ch_positive_expiry c) (pe_expires_at e, pe_sequence e)\<rparr>))"

definition remove_positive_by_subscription ::
    "subscription_id \<Rightarrow> route_cache \<Rightarrow> positive_cache_entry option \<times> route_cache" where
  "remove_positive_by_subscription sid c =
     (case map_of (ch_by_subscription c) sid of
        None \<Rightarrow> (None, c)
      | Some i \<Rightarrow> remove_positive i c)"

definition remove_negative :: "route_identity \<Rightarrow> route_cache \<Rightarrow> negative_cache_entry option \<times> route_cache" where
  "remove_negative i c =
     (case map_of (ch_negatives c) i of
        None \<Rightarrow> (None, c)
      | Some e \<Rightarrow>
          (Some e,
           c\<lparr>ch_negatives := AList.delete i (ch_negatives c),
             ch_negative_order := bt_remove (ch_negative_order c) (ne_sequence e),
             ch_negative_expiry := bt_remove (ch_negative_expiry c) (ne_expires_at e, ne_sequence e)\<rparr>))"

text \<open>\<^verbatim>\<open>removed.and_then(released_id)\<close>, as the list that a \<^verbatim>\<open>Vec\<close> is extended by.\<close>

definition released_ids :: "positive_cache_entry option \<Rightarrow> subscription_id list" where
  "released_ids removed =
     (case Option.bind removed pe_subscription_id of None \<Rightarrow> [] | Some sid \<Rightarrow> [sid])"

text \<open>
  The loops of \<^verbatim>\<open>expire_limited\<close>, one iteration per unit of the limit. The results are the units
  left, the ids to unsubscribe and the cache.
\<close>

fun expire_positives :: "instant \<Rightarrow> nat \<Rightarrow> route_cache \<Rightarrow> nat \<times> subscription_id list \<times> route_cache" where
  "expire_positives now 0 c = (0, [], c)"
| "expire_positives now (Suc n) c =
     (case bt_first_key_value (ch_positive_expiry c) of
        None \<Rightarrow> (Suc n, [], c)
      | Some ((expires, _), i) \<Rightarrow>
          if expires > now then (Suc n, [], c)
          else let (removed, c) = remove_positive i c;
                   (left, ids, c) = expire_positives now n c
               in (left, released_ids removed @ ids, c))"

fun expire_negatives :: "instant \<Rightarrow> nat \<Rightarrow> route_cache \<Rightarrow> route_cache" where
  "expire_negatives now 0 c = c"
| "expire_negatives now (Suc n) c =
     (case bt_first_key_value (ch_negative_expiry c) of
        None \<Rightarrow> c
      | Some ((expires, _), i) \<Rightarrow>
          if expires > now then c else expire_negatives now n (snd (remove_negative i c)))"

definition expire_limited :: "instant \<Rightarrow> nat \<Rightarrow> route_cache \<Rightarrow> subscription_id list \<times> route_cache" where
  "expire_limited now limit c =
     (let (left, ids, c) = expire_positives now limit c in (ids, expire_negatives now left c))"

definition expire :: "instant \<Rightarrow> route_cache \<Rightarrow> subscription_id list \<times> route_cache" where
  "expire now c = expire_limited now USIZE_MAX c"

definition has_expired :: "instant \<Rightarrow> route_cache \<Rightarrow> bool" where
  "has_expired now c \<longleftrightarrow>
     (case bt_first_key_value (ch_positive_expiry c) of Some ((e, _), _) \<Rightarrow> e \<le> now | None \<Rightarrow> False)
     \<or> (case bt_first_key_value (ch_negative_expiry c) of Some ((e, _), _) \<Rightarrow> e \<le> now | None \<Rightarrow> False)"

definition index_positive :: "route_identity \<Rightarrow> positive_cache_entry \<Rightarrow> route_cache \<Rightarrow> route_cache" where
  "index_positive req positive c =
     (let s = ch_sequence c + 1;
          positive = positive\<lparr>pe_sequence := s\<rparr>
      in c\<lparr>ch_sequence := s,
           ch_by_subscription :=
             (case pe_subscription_id positive of
                Some sid \<Rightarrow> AList.update sid req (ch_by_subscription c)
              | None \<Rightarrow> ch_by_subscription c),
           ch_positive_order := bt_insert (ch_positive_order c) s req,
           ch_positive_expiry := bt_insert (ch_positive_expiry c) (pe_expires_at positive, s) req,
           ch_positives := AList.update req positive (ch_positives c)\<rparr>)"

text \<open>
  The eviction loops. \<^const>\<open>None\<close> is the panic of \<^verbatim>\<open>expect\<close> on an empty order, or a loop that
  has not ended after as many rounds as there are entries.
\<close>

fun evict_positives :: "nat \<Rightarrow> route_cache \<Rightarrow> (subscription_id list \<times> route_cache) option" where
  "evict_positives 0 c = (if length (ch_positives c) > ch_capacity c then None else Some ([], c))"
| "evict_positives (Suc fuel) c =
     (if length (ch_positives c) > ch_capacity c then
        (case bt_first_key_value (ch_positive_order c) of
           None \<Rightarrow> None
         | Some (_, i) \<Rightarrow>
             let (removed, c) = remove_positive i c in
             map_option (\<lambda>(ids, c). (released_ids removed @ ids, c)) (evict_positives fuel c))
      else Some ([], c))"

fun evict_negatives :: "nat \<Rightarrow> route_cache \<Rightarrow> route_cache option" where
  "evict_negatives 0 c = (if length (ch_negatives c) > ch_capacity c then None else Some c)"
| "evict_negatives (Suc fuel) c =
     (if length (ch_negatives c) > ch_capacity c then
        (case bt_first_key_value (ch_negative_order c) of
           None \<Rightarrow> None
         | Some (_, i) \<Rightarrow> evict_negatives fuel (snd (remove_negative i c)))
      else Some c)"

text \<open>\<^verbatim>\<open>insert_resolved\<close>, from the release of what the identity held.\<close>

definition install_positive ::
    "route_identity \<Rightarrow> positive_cache_entry \<Rightarrow> subscription_id list \<Rightarrow> route_cache
     \<Rightarrow> (subscription_id list \<times> route_cache) option" where
  "install_positive req positive ids c =
     (let (removed, c) = remove_positive req c;
          ids = ids @ filter (\<lambda>sid. Some sid \<noteq> pe_subscription_id positive) (released_ids removed);
          c = (case pe_subscription_id positive of
                 Some sid \<Rightarrow> snd (remove_positive_by_subscription sid c)
               | None \<Rightarrow> c);
          c = snd (remove_negative req c);
          c = index_positive req (positive\<lparr>pe_request_identity := req\<rparr>) c
      in map_option (\<lambda>(more, c). (ids @ more, c)) (evict_positives (length (ch_positives c)) c))"

definition insert_resolved ::
    "route_identity \<Rightarrow> positive_cache_entry \<Rightarrow> instant \<Rightarrow> route_cache
     \<Rightarrow> (subscription_id list \<times> route_cache) option" where
  "insert_resolved req positive now c =
     (let (ids, c) = expire_limited now 64 c in
      case map_of (ch_positives c) req of
        Some e \<Rightarrow>
          if stale_route_entry (pe_entry e) (pe_entry positive) \<noteq> None
          then Some (ids @ released_ids (Some positive),
                     if pe_subscription_id e = None then snd (remove_positive req c) else c)
          else install_positive req positive ids c
      | None \<Rightarrow> install_positive req positive ids c)"

definition insert_positive ::
    "subscription_id \<Rightarrow> route_identity \<Rightarrow> route_entry \<Rightarrow> duration \<Rightarrow> instant \<Rightarrow> route_cache
     \<Rightarrow> (subscription_id list \<times> route_cache) option" where
  "insert_positive sid i entry ttl now c =
     insert_resolved i (PositiveCacheEntry_new sid i entry ttl now) now c"

definition index_negative :: "route_identity \<Rightarrow> duration \<Rightarrow> instant \<Rightarrow> route_cache \<Rightarrow> route_cache" where
  "index_negative req ttl now c =
     (let s = ch_sequence c + 1;
          entry = (NegativeCacheEntry_new req ttl now)\<lparr>ne_sequence := s\<rparr>
      in c\<lparr>ch_sequence := s,
           ch_negative_order := bt_insert (ch_negative_order c) s req,
           ch_negative_expiry := bt_insert (ch_negative_expiry c) (ne_expires_at entry, s) req,
           ch_negatives := AList.update req entry (ch_negatives c)\<rparr>)"

definition insert_negative ::
    "route_identity \<Rightarrow> duration \<Rightarrow> instant \<Rightarrow> route_cache \<Rightarrow> (subscription_id list \<times> route_cache) option" where
  "insert_negative req ttl now c =
     (let (ids, c) = expire_limited now 64 c;
          (removed, c) = remove_positive req c;
          ids = ids @ released_ids removed;
          c = snd (remove_negative req c);
          c = index_negative req ttl now c
      in map_option (Pair ids) (evict_negatives (length (ch_negatives c)) c))"

text \<open>The end of the stream: every answer loses its subscription; the identities are reported.\<close>

definition rotate_session :: "route_cache \<Rightarrow> route_identity list \<times> route_cache" where
  "rotate_session c =
     (map fst (ch_positives c),
      c\<lparr>ch_by_subscription := [],
        ch_positives := map (\<lambda>(i, e). (i, e\<lparr>pe_subscription_id := None\<rparr>)) (ch_positives c)\<rparr>)"

definition needs_reregistration :: "route_identity \<Rightarrow> instant \<Rightarrow> route_cache \<Rightarrow> bool" where
  "needs_reregistration i now c =
     (case map_of (ch_positives c) i of
        None \<Rightarrow> False
      | Some e \<Rightarrow> pe_subscription_id e = None \<and> \<not> now \<ge> pe_expires_at e)"

definition invalidate_subscription :: "subscription_id \<Rightarrow> route_cache \<Rightarrow> bool \<times> route_cache" where
  "invalidate_subscription sid c =
     (let (removed, c) = remove_positive_by_subscription sid c in (removed \<noteq> None, c))"

definition invalidate_request :: "route_identity \<Rightarrow> route_cache \<Rightarrow> subscription_id option \<times> route_cache" where
  "invalidate_request i c =
     (let (removed, c) = remove_positive i c in (Option.bind removed pe_subscription_id, c))"

definition active_subscription_ids :: "route_cache \<Rightarrow> subscription_id list" where
  "active_subscription_ids c = map fst (ch_by_subscription c)"

definition refresh_positive ::
    "route_identity \<Rightarrow> route_identity \<Rightarrow> route_entry \<Rightarrow> duration \<Rightarrow> instant \<Rightarrow> route_cache \<Rightarrow> route_cache" where
  "refresh_positive i matched entry ttl now c =
     (case map_of (ch_positives c) i of
        None \<Rightarrow> c
      | Some cached \<Rightarrow>
          let updated = cached\<lparr>pe_matched_identity := matched, pe_entry := entry, pe_expires_at := now + ttl\<rparr> in
          c\<lparr>ch_positives := AList.update i updated (ch_positives c),
            ch_positive_expiry :=
              bt_insert (bt_remove (ch_positive_expiry c) (pe_expires_at cached, pe_sequence cached))
                (pe_expires_at updated, pe_sequence cached) i\<rparr>)"

definition replace_subscription ::
    "subscription_id \<Rightarrow> route_identity \<Rightarrow> route_entry \<Rightarrow> duration \<Rightarrow> instant \<Rightarrow> route_cache \<Rightarrow> route_cache" where
  "replace_subscription sid matched entry ttl now c =
     (case map_of (ch_by_subscription c) sid of
        None \<Rightarrow> c
      | Some i \<Rightarrow> refresh_positive i matched entry ttl now c)"

definition positive_by_subscription :: "subscription_id \<Rightarrow> route_cache \<Rightarrow> positive_cache_entry option" where
  "positive_by_subscription sid c = Option.bind (map_of (ch_by_subscription c) sid) (map_of (ch_positives c))"

definition cache_clear :: "route_cache \<Rightarrow> route_cache" where
  "cache_clear c = RouteCache_new (ch_capacity c)"

end
