(* ===== verification/Route_Cache_Invariant.thy ===== *)
theory Route_Cache_Invariant
  imports Route_Cache
begin

text \<open>
  The four indices of the route cache agree with its entries, whatever is done to it.
\<close>

section \<open>One half of the cache\<close>

text \<open>
  Entries with a sequence number and an expiry, the order of insertion and the order of expiry.
  Both halves of the cache are indexed this way.
\<close>

definition indexed ::
    "('e \<Rightarrow> u64) \<Rightarrow> ('e \<Rightarrow> instant) \<Rightarrow> (route_identity, 'e) hash_map \<Rightarrow> (u64, route_identity) btree
     \<Rightarrow> (instant \<times> u64, route_identity) btree \<Rightarrow> bool" where
  "indexed sq ex es order expiry \<longleftrightarrow>
     distinct (map fst es) \<and> bt_ok order \<and> bt_ok expiry
     \<and> (\<forall>s k. bt_get order s = Some k \<longleftrightarrow> (\<exists>e. map_of es k = Some e \<and> sq e = s))
     \<and> (\<forall>t s k. bt_get expiry (t, s) = Some k \<longleftrightarrow> (\<exists>e. map_of es k = Some e \<and> sq e = s \<and> ex e = t))"

lemma indexed_Nil: "indexed sq ex [] [] []"
  by (simp add: indexed_def)

lemma indexed_get:
  assumes "indexed sq ex es order expiry"
  shows "bt_get order s = Some k \<longleftrightarrow> (\<exists>e. map_of es k = Some e \<and> sq e = s)"
    and "bt_get expiry (t, s) = Some k \<longleftrightarrow> (\<exists>e. map_of es k = Some e \<and> sq e = s \<and> ex e = t)"
  using assms unfolding indexed_def by blast+

lemma indexed_inj:
  assumes "indexed sq ex es order expiry" "map_of es k = Some e" "map_of es k' = Some e'" "sq e = sq e'"
  shows "k = k'"
  using assms(2-) indexed_get(1) [OF assms(1), of "sq e"] by (metis option.inject)

lemma indexed_remove:
  assumes ix: "indexed sq ex es order expiry" and e: "map_of es k = Some e"
  shows "indexed sq ex (AList.delete k es) (bt_remove order (sq e)) (bt_remove expiry (ex e, sq e))"
proof -
  have "bt_get (bt_remove order (sq e)) s = Some k' \<longleftrightarrow> (\<exists>e'. map_of (AList.delete k es) k' = Some e' \<and> sq e' = s)" for s k'
    by (simp add: bt_get_remove delete_conv' indexed_get [OF ix]) (metis e option.inject indexed_inj [OF ix e])
  moreover have "bt_get (bt_remove expiry (ex e, sq e)) (t, s) = Some k'
      \<longleftrightarrow> (\<exists>e'. map_of (AList.delete k es) k' = Some e' \<and> sq e' = s \<and> ex e' = t)" for t s k'
    by (simp add: bt_get_remove delete_conv' indexed_get [OF ix]) (metis e option.inject indexed_inj [OF ix e])
  ultimately show ?thesis
    using ix by (simp add: indexed_def bt_ok_remove distinct_delete)
qed

lemma indexed_insert:
  assumes ix: "indexed sq ex es order expiry" and new: "map_of es k = None"
    and fresh: "\<And>k' e'. map_of es k' = Some e' \<Longrightarrow> sq e' \<noteq> sq e"
  shows "indexed sq ex (AList.update k e es) (bt_insert order (sq e) k) (bt_insert expiry (ex e, sq e) k)"
proof -
  have "bt_get (bt_insert order (sq e) k) s = Some k' \<longleftrightarrow> (\<exists>e'. map_of (AList.update k e es) k' = Some e' \<and> sq e' = s)" for s k'
    by (simp add: bt_get_insert update_conv' indexed_get [OF ix]) (metis new fresh option.distinct(1))
  moreover have "bt_get (bt_insert expiry (ex e, sq e) k) (t, s) = Some k'
      \<longleftrightarrow> (\<exists>e'. map_of (AList.update k e es) k' = Some e' \<and> sq e' = s \<and> ex e' = t)" for t s k'
    by (simp add: bt_get_insert update_conv' indexed_get [OF ix]) (metis new fresh option.distinct(1))
  ultimately show ?thesis
    using ix by (simp add: indexed_def bt_ok_insert distinct_update)
qed

lemma indexed_refresh:
  assumes ix: "indexed sq ex es order expiry" and e: "map_of es k = Some e" and sq: "sq e' = sq e"
  shows "indexed sq ex (AList.update k e' es) order (bt_insert (bt_remove expiry (ex e, sq e)) (ex e', sq e) k)"
proof -
  have "bt_get order s = Some k' \<longleftrightarrow> (\<exists>d. map_of (AList.update k e' es) k' = Some d \<and> sq d = s)" for s k'
    by (simp add: update_conv' indexed_get [OF ix]) (metis e sq option.inject)
  moreover have "bt_get (bt_insert (bt_remove expiry (ex e, sq e)) (ex e', sq e) k) (t, s) = Some k'
      \<longleftrightarrow> (\<exists>d. map_of (AList.update k e' es) k' = Some d \<and> sq d = s \<and> ex d = t)" for t s k'
    by (simp add: bt_get_insert bt_get_remove update_conv' indexed_get [OF ix])
      (metis e sq option.inject indexed_inj [OF ix e])
  ultimately show ?thesis
    using ix by (simp add: indexed_def bt_ok_insert bt_ok_remove distinct_update)
qed

text \<open>The oldest entry, and the one that expires first.\<close>

lemma indexed_first:
  assumes ix: "indexed sq ex es order expiry"
  shows "bt_first_key_value order = Some (s, k) \<Longrightarrow> \<exists>e. map_of es k = Some e \<and> sq e = s
      \<and> (\<forall>k' e'. map_of es k' = Some e' \<longrightarrow> sq e \<le> sq e')"
    and "bt_first_key_value order = None \<longleftrightarrow> es = []"
proof -
  note o = indexed_get(1) [OF ix]
  have ok: "bt_ok order" using ix by (simp add: indexed_def)
  show "\<exists>e. map_of es k = Some e \<and> sq e = s \<and> (\<forall>k' e'. map_of es k' = Some e' \<longrightarrow> sq e \<le> sq e')"
    if f: "bt_first_key_value order = Some (s, k)"
    using bt_first_key_value_Some [OF ok f] o by metis
  show "bt_first_key_value order = None \<longleftrightarrow> es = []"
  proof
    assume "bt_first_key_value order = None"
    then have "map_of es k = None" for k
      using o unfolding bt_first_key_value_None by (metis not_None_eq)
    then have "k \<notin> fst ` set es" for k by (simp add: map_of_eq_None_iff)
    then show "es = []" by (metis ex_in_conv image_is_empty set_empty)
  next
    assume "es = []"
    then show "bt_first_key_value order = None"
      using o unfolding bt_first_key_value_None by (metis map_of.simps(1) not_None_eq option.distinct(1))
  qed
qed

lemma indexed_first_expiry:
  assumes ix: "indexed sq ex es order expiry" and f: "bt_first_key_value expiry = Some ((t, s), k)"
  shows "\<exists>e. map_of es k = Some e \<and> ex e = t"
proof -
  have "bt_get expiry (t, s) = Some k"
    using ix by (intro bt_first_key_value_Some(1) [OF _ f]) (simp add: indexed_def)
  then show ?thesis using indexed_get(2) [OF ix] by blast
qed

lemma indexed_unexpired:
  assumes ix: "indexed sq ex es order expiry" and e: "map_of es k = Some e"
    and first: "case bt_first_key_value expiry of None \<Rightarrow> True | Some ((t, s), i) \<Rightarrow> now < t"
  shows "now < ex e"
proof -
  have get: "bt_get expiry (ex e, sq e) = Some k" and ok: "bt_ok expiry"
    using ix e indexed_get(2) [OF ix] by (auto simp: indexed_def)
  then obtain t s i where f: "bt_first_key_value expiry = Some ((t, s), i)" "now < t"
    using first by (cases "bt_first_key_value expiry") (auto simp: bt_first_key_value_None)
  from bt_first_key_value_Some(2) [OF ok f(1) get] f(2) show ?thesis
    by (auto simp: less_eq_prod_def)
qed

section \<open>The whole cache\<close>

abbreviation positive :: "route_cache \<Rightarrow> route_identity \<Rightarrow> positive_cache_entry option" where
  "positive c \<equiv> map_of (ch_positives c)"

abbreviation negative :: "route_cache \<Rightarrow> route_identity \<Rightarrow> negative_cache_entry option" where
  "negative c \<equiv> map_of (ch_negatives c)"

text \<open>The subscriptions the cache holds: those of its answers.\<close>

definition held :: "route_cache \<Rightarrow> subscription_id set" where
  "held c = {sid. \<exists>k e. positive c k = Some e \<and> pe_subscription_id e = Some sid}"

definition subscriptions_ok :: "route_cache \<Rightarrow> bool" where
  "subscriptions_ok c \<longleftrightarrow> distinct (map fst (ch_by_subscription c))
     \<and> (\<forall>sid k. map_of (ch_by_subscription c) sid = Some k
          \<longleftrightarrow> (\<exists>e. positive c k = Some e \<and> pe_subscription_id e = Some sid))"

definition entries_ok :: "route_cache \<Rightarrow> bool" where
  "entries_ok c \<longleftrightarrow>
     (\<forall>k e. positive c k = Some e \<longrightarrow> pe_request_identity e = k \<and> pe_sequence e \<le> ch_sequence c \<and> negative c k = None)
     \<and> (\<forall>k e. negative c k = Some e \<longrightarrow> ne_request_identity e = k \<and> ne_sequence e \<le> ch_sequence c)"

definition cache_core :: "route_cache \<Rightarrow> bool" where
  "cache_core c \<longleftrightarrow>
     indexed pe_sequence pe_expires_at (ch_positives c) (ch_positive_order c) (ch_positive_expiry c)
     \<and> indexed ne_sequence ne_expires_at (ch_negatives c) (ch_negative_order c) (ch_negative_expiry c)
     \<and> subscriptions_ok c \<and> entries_ok c"

definition cache_ok :: "route_cache \<Rightarrow> bool" where
  "cache_ok c \<longleftrightarrow> cache_core c \<and> length (ch_positives c) \<le> ch_capacity c \<and> length (ch_negatives c) \<le> ch_capacity c"

lemma cache_ok_new: "cache_ok (RouteCache_new cap)"
  by (simp add: cache_ok_def cache_core_def RouteCache_new_def indexed_Nil subscriptions_ok_def entries_ok_def)

lemma subscriptions_ok_get:
  assumes "subscriptions_ok c"
  shows "map_of (ch_by_subscription c) sid = Some k \<longleftrightarrow> (\<exists>e. positive c k = Some e \<and> pe_subscription_id e = Some sid)"
  using assms unfolding subscriptions_ok_def by blast

lemma subscription_one_answer:
  assumes "subscriptions_ok c" "positive c k = Some e" "pe_subscription_id e = Some sid"
    "positive c k' = Some e'" "pe_subscription_id e' = Some sid"
  shows "k = k'"
  using assms(2-) subscriptions_ok_get [OF assms(1), of sid] by (metis option.inject)

lemma length_delete: "distinct (map fst xs) \<Longrightarrow> map_of xs k = Some v \<Longrightarrow> Suc (length (AList.delete k xs)) = length xs"
  by (induction xs) (auto split: if_splits)

subsection \<open>Removal\<close>

lemma remove_positive_None: "positive c i = None \<Longrightarrow> remove_positive i c = (None, c)"
  by (simp add: remove_positive_def)

lemma remove_positive_ok:
  assumes core: "cache_core c" and rem: "remove_positive i c = (r, c')"
  shows "cache_core c'" "r = positive c i" "positive c' = (positive c)(i := None)" "ch_negatives c' = ch_negatives c"
    "ch_capacity c' = ch_capacity c" "ch_sequence c' = ch_sequence c"
    "length (ch_positives c') + (if r = None then 0 else 1) = length (ch_positives c)"
proof -
  show r: "r = positive c i" and frame: "ch_negatives c' = ch_negatives c" "ch_capacity c' = ch_capacity c"
      "ch_sequence c' = ch_sequence c" "positive c' = (positive c)(i := None)"
    using rem by (auto simp: remove_positive_def delete_conv' map_upd_triv fun_upd_idem split: option.splits)
  have d: "distinct (map fst (ch_positives c))" using core by (simp add: cache_core_def indexed_def)
  show "length (ch_positives c') + (if r = None then 0 else 1) = length (ch_positives c)"
    using rem length_delete [OF d, of i] by (auto simp: remove_positive_def split: option.splits)
  show "cache_core c'"
  proof (cases "positive c i")
    case None
    then show ?thesis using rem core by (simp add: remove_positive_def)
  next
    case (Some e)
    then have c': "c' = snd (remove_positive i c)" using rem by simp
    have by_sub: "map_of (ch_by_subscription c') sid
        = (if pe_subscription_id e = Some sid then None else map_of (ch_by_subscription c) sid)" for sid
      using Some by (auto simp: c' remove_positive_def delete_conv' split: option.splits)
    have subs: "subscriptions_ok c" using core by (simp add: cache_core_def)
    have "map_of (ch_by_subscription c') sid = Some k \<longleftrightarrow> (\<exists>e. positive c' k = Some e \<and> pe_subscription_id e = Some sid)" for sid k
    proof (cases "pe_subscription_id e = Some sid")
      case True
      then show ?thesis
        unfolding by_sub frame(4) using subscription_one_answer [OF subs Some True, of k] by auto
    next
      case False
      then show ?thesis
        unfolding by_sub frame(4) using Some by (simp add: subscriptions_ok_get [OF subs])
    qed
    moreover have "distinct (map fst (ch_by_subscription c'))"
      using Some subs by (auto simp: c' remove_positive_def subscriptions_ok_def distinct_delete split: option.splits)
    ultimately have "subscriptions_ok c'" by (simp add: subscriptions_ok_def)
    moreover have "indexed pe_sequence pe_expires_at (ch_positives c') (ch_positive_order c') (ch_positive_expiry c')"
      using indexed_remove [OF _ Some] core by (simp add: c' remove_positive_def Some cache_core_def)
    moreover have "ch_negative_order c' = ch_negative_order c" "ch_negative_expiry c' = ch_negative_expiry c"
      using Some by (simp_all add: c' remove_positive_def)
    ultimately show ?thesis
      using core frame by (auto simp: cache_core_def entries_ok_def)
  qed
qed

lemma remove_negative_ok:
  assumes core: "cache_core c" and rem: "remove_negative i c = (r, c')"
  shows "cache_core c'" "negative c' = (negative c)(i := None)" "ch_positives c' = ch_positives c"
    "ch_capacity c' = ch_capacity c" "ch_sequence c' = ch_sequence c"
    "length (ch_negatives c') + (if negative c i = None then 0 else 1) = length (ch_negatives c)"
proof -
  show frame: "ch_positives c' = ch_positives c" "ch_capacity c' = ch_capacity c"
      "ch_sequence c' = ch_sequence c" "negative c' = (negative c)(i := None)"
    using rem by (auto simp: remove_negative_def delete_conv' fun_upd_idem split: option.splits)
  have d: "distinct (map fst (ch_negatives c))" using core by (simp add: cache_core_def indexed_def)
  show "length (ch_negatives c') + (if negative c i = None then 0 else 1) = length (ch_negatives c)"
    using rem length_delete [OF d, of i] by (auto simp: remove_negative_def split: option.splits)
  show "cache_core c'"
  proof (cases "negative c i")
    case None
    then show ?thesis using rem core by (simp add: remove_negative_def)
  next
    case (Some e)
    then have c': "c' = snd (remove_negative i c)" using rem by simp
    have "indexed ne_sequence ne_expires_at (ch_negatives c') (ch_negative_order c') (ch_negative_expiry c')"
      using indexed_remove [OF _ Some] core by (simp add: c' remove_negative_def Some cache_core_def)
    moreover have "ch_positive_order c' = ch_positive_order c" "ch_positive_expiry c' = ch_positive_expiry c"
        "ch_by_subscription c' = ch_by_subscription c"
      using Some by (simp_all add: c' remove_negative_def)
    ultimately show ?thesis
      using core frame by (auto simp: cache_core_def entries_ok_def subscriptions_ok_def)
  qed
qed

subsection \<open>Pruning\<close>

text \<open>
  A cache from which some answers have been dropped: all for a reason \<^term>\<open>Q\<close>, their
  subscriptions listed, every other answer as it was.
\<close>

definition pruned ::
    "(route_identity \<Rightarrow> positive_cache_entry \<Rightarrow> bool) \<Rightarrow> route_cache \<Rightarrow> subscription_id list \<Rightarrow> route_cache \<Rightarrow> bool" where
  "pruned Q c ids c' \<longleftrightarrow>
     cache_core c' \<and> ch_capacity c' = ch_capacity c \<and> ch_sequence c' = ch_sequence c
     \<and> (\<forall>k. positive c' k = positive c k \<or> positive c' k = None \<and> (\<exists>e. positive c k = Some e \<and> Q k e))
     \<and> (\<forall>k. negative c' k = negative c k \<or> negative c' k = None)
     \<and> held c' \<union> set ids = held c \<and> held c' \<inter> set ids = {}
     \<and> length (ch_positives c') \<le> length (ch_positives c) \<and> length (ch_negatives c') \<le> length (ch_negatives c)"

lemma pruned_refl: "cache_core c \<Longrightarrow> pruned Q c [] c"
  by (simp add: pruned_def)

lemma pruned_core: "pruned Q c ids c' \<Longrightarrow> cache_core c'"
  by (simp add: pruned_def)

lemma pruned_trans:
  assumes "pruned Q c ids c'" "pruned Q c' ids' c''"
  shows "pruned Q c (ids @ ids') c''"
proof -
  have "positive c'' k = positive c k \<or> positive c'' k = None \<and> (\<exists>e. positive c k = Some e \<and> Q k e)" for k
    using assms unfolding pruned_def by metis
  moreover have "negative c'' k = negative c k \<or> negative c'' k = None" for k
    using assms unfolding pruned_def by metis
  ultimately show ?thesis
    using assms unfolding pruned_def by auto
qed

lemma pruned_mono:
  assumes "pruned Q c ids c'" "\<And>k e. positive c k = Some e \<Longrightarrow> Q k e \<Longrightarrow> R k e"
  shows "pruned R c ids c'"
  using assms unfolding pruned_def by metis

lemma held_same: "ch_positives c' = ch_positives c \<Longrightarrow> held c' = held c"
  by (simp add: held_def)

lemma held_insert:
  assumes "positive c' = (positive c)(k \<mapsto> e)" "positive c k = None"
  shows "held c' = held c \<union> set_option (pe_subscription_id e)"
proof -
  have "positive c' k = Some e" "\<And>k'. k' \<noteq> k \<Longrightarrow> positive c' k' = positive c k'"
    using assms(1) by simp_all
  then have "(\<exists>k' e'. positive c' k' = Some e' \<and> pe_subscription_id e' = Some sid)
      \<longleftrightarrow> (\<exists>k' e'. positive c k' = Some e' \<and> pe_subscription_id e' = Some sid) \<or> pe_subscription_id e = Some sid" for sid
    using assms(2) by (metis option.distinct(1) option.inject)
  then show ?thesis by (auto simp: held_def)
qed

lemma set_released_ids: "set (released_ids r) = {sid. \<exists>e. r = Some e \<and> pe_subscription_id e = Some sid}"
  by (cases r) (auto simp: released_ids_def split: option.splits)

lemma pruned_remove_positive:
  assumes core: "cache_core c" and rem: "remove_positive i c = (r, c')" and Q: "\<And>e. positive c i = Some e \<Longrightarrow> Q i e"
  shows "pruned Q c (released_ids r) c'"
proof -
  note ok = remove_positive_ok [OF core rem]
  have subs: "subscriptions_ok c" using core by (simp add: cache_core_def)
  have held': "held c' = {sid. \<exists>k e. k \<noteq> i \<and> positive c k = Some e \<and> pe_subscription_id e = Some sid}"
    unfolding held_def ok(3) by (auto split: if_splits)
  have "held c' \<union> set (released_ids r) = held c"
    unfolding held' set_released_ids ok(2) held_def [of c] by fastforce
  moreover have "held c' \<inter> set (released_ids r) = {}"
    unfolding held' set_released_ids ok(2) using subscription_one_answer [OF subs] by blast
  ultimately show ?thesis
    using ok Q by (auto simp: pruned_def)
qed

lemma pruned_remove_negative:
  assumes core: "cache_core c"
  shows "pruned Q c [] (snd (remove_negative i c))"
proof -
  obtain r c' where rem: "remove_negative i c = (r, c')" by (cases "remove_negative i c")
  show ?thesis
    using remove_negative_ok [OF core rem] held_same [of c' c] by (auto simp: pruned_def rem)
qed

lemma pruned_remove_by_subscription:
  assumes core: "cache_core c" and rem: "remove_positive_by_subscription sid c = (r, c')"
  shows "pruned (\<lambda>k e. pe_subscription_id e = Some sid) c (released_ids r) c'"
    and "set (released_ids r) = held c \<inter> {sid}"
proof -
  have subs: "subscriptions_ok c" using core by (simp add: cache_core_def)
  show "pruned (\<lambda>k e. pe_subscription_id e = Some sid) c (released_ids r) c'"
  proof (cases "map_of (ch_by_subscription c) sid")
    case None
    then show ?thesis
      using rem pruned_refl [OF core] by (auto simp: remove_positive_by_subscription_def released_ids_def)
  next
    case (Some i)
    then have rem': "remove_positive i c = (r, c')" using rem by (simp add: remove_positive_by_subscription_def)
    from Some obtain e where "positive c i = Some e" "pe_subscription_id e = Some sid"
      using subscriptions_ok_get [OF subs] by blast
    then show ?thesis by (intro pruned_remove_positive [OF core rem']) simp
  qed
  show "set (released_ids r) = held c \<inter> {sid}"
  proof (cases "map_of (ch_by_subscription c) sid")
    case None
    then show ?thesis
      using rem subscriptions_ok_get [OF subs, of sid]
      by (auto simp: remove_positive_by_subscription_def released_ids_def held_def)
  next
    case (Some i)
    then obtain e where "positive c i = Some e" "pe_subscription_id e = Some sid"
      using subscriptions_ok_get [OF subs] by blast
    moreover have "r = positive c i"
      using rem remove_positive_ok(2) [OF core] Some by (simp add: remove_positive_by_subscription_def)
    ultimately show ?thesis unfolding set_released_ids held_def by auto
  qed
qed

lemma expire_positives_pruned:
  assumes "cache_core c" "expire_positives now n c = (left, ids, c')"
  shows "pruned (\<lambda>k e. pe_expires_at e \<le> now) c ids c' \<and> ch_negatives c' = ch_negatives c \<and> left \<le> n
    \<and> (0 < left \<longrightarrow> (\<forall>k e. positive c' k = Some e \<longrightarrow> now < pe_expires_at e))"
  using assms
proof (induction now n c arbitrary: left ids c' rule: expire_positives.induct)
  case (1 now c)
  then show ?case by (simp add: pruned_refl)
next
  case (2 now n c)
  have ix: "indexed pe_sequence pe_expires_at (ch_positives c) (ch_positive_order c) (ch_positive_expiry c)"
    using "2.prems" by (simp add: cache_core_def)
  show ?case
  proof (cases "\<exists>t s i. bt_first_key_value (ch_positive_expiry c) = Some ((t, s), i) \<and> t \<le> now")
    case True
    then obtain t s i where f: "bt_first_key_value (ch_positive_expiry c) = Some ((t, s), i)" "t \<le> now" by blast
    obtain r c1 where r: "remove_positive i c = (r, c1)" by (cases "remove_positive i c")
    obtain ids1 where e: "expire_positives now n c1 = (left, ids1, c')" and ids: "ids = released_ids r @ ids1"
      using "2.prems"(2) f r by (auto split: prod.splits)
    note p = pruned_remove_positive [OF "2.prems"(1) r]
    have p1: "pruned (\<lambda>k e. pe_expires_at e \<le> now) c (released_ids r) c1"
      using indexed_first_expiry [OF ix f(1)] f(2) by (intro p) auto
    then have "cache_core c1" by (simp add: pruned_def)
    from "2.IH" [OF f(1) HOL.refl HOL.refl _ r [symmetric] HOL.refl this e] f(2) p1 show ?thesis
      using remove_positive_ok(4) [OF "2.prems"(1) r] by (auto simp: ids intro: pruned_trans)
  next
    case False
    then have "case bt_first_key_value (ch_positive_expiry c) of None \<Rightarrow> True | Some ((t, s), i) \<Rightarrow> now < t"
      by (auto split: option.splits)
    moreover have "left = Suc n" "ids = []" "c' = c"
      using False "2.prems"(2) by (auto split: option.splits if_splits)
    ultimately show ?thesis
      using "2.prems"(1) indexed_unexpired [OF ix] by (auto simp: pruned_refl)
  qed
qed

lemma expire_negatives_pruned: "cache_core c \<Longrightarrow> pruned Q c [] (expire_negatives now n c)"
proof (induction now n c rule: expire_negatives.induct)
  case (2 now n c)
  have "pruned Q c ([] @ []) (expire_negatives now n (snd (remove_negative i c)))"
    if "bt_first_key_value (ch_negative_expiry c) = Some ((t, s), i)" "\<not> now < t" for t s i
    using "2.IH" [OF that(1) HOL.refl HOL.refl that(2)] pruned_remove_negative [OF "2.prems", of Q i]
    by (intro pruned_trans) (auto simp: pruned_def)
  then show ?case using "2.prems" by (auto simp: pruned_refl split: option.splits)
qed (simp add: pruned_refl)

lemma expire_limited_pruned:
  assumes "cache_core c" "expire_limited now n c = (ids, c')"
  shows "pruned (\<lambda>k e. pe_expires_at e \<le> now) c ids c'"
proof -
  obtain left c1 where e: "expire_positives now n c = (left, ids, c1)" and c': "c' = expire_negatives now left c1"
    using assms(2) by (auto simp: expire_limited_def split: prod.splits)
  have p: "pruned (\<lambda>k e. pe_expires_at e \<le> now) c ids c1"
    using expire_positives_pruned [OF assms(1) e] by blast
  from pruned_trans [OF p expire_negatives_pruned [OF pruned_core [OF p]]] show ?thesis
    by (simp add: c')
qed

subsection \<open>Eviction\<close>

text \<open>Eviction ends at the capacity, and what it drops is older than what it keeps.\<close>

lemma evict_positives_ok:
  assumes "cache_core c" "length (ch_positives c) \<le> ch_capacity c + fuel"
  shows "\<exists>ids c'. evict_positives fuel c = Some (ids, c') \<and> pruned (\<lambda>k e. True) c ids c'
    \<and> ch_negatives c' = ch_negatives c \<and> length (ch_positives c') = min (length (ch_positives c)) (ch_capacity c)
    \<and> (\<forall>k e k' e'. positive c k = Some e \<and> positive c' k = None \<and> positive c' k' = Some e' \<longrightarrow> pe_sequence e < pe_sequence e')"
  using assms
proof (induction fuel arbitrary: c)
  case 0
  then show ?case by (auto simp: pruned_refl)
next
  case (Suc fuel)
  have ix: "indexed pe_sequence pe_expires_at (ch_positives c) (ch_positive_order c) (ch_positive_expiry c)"
    using Suc.prems by (simp add: cache_core_def)
  show ?case
  proof (cases "length (ch_positives c) \<le> ch_capacity c")
    case True
    then show ?thesis using Suc.prems by (auto simp: pruned_refl)
  next
    case False
    then obtain s i where f: "bt_first_key_value (ch_positive_order c) = Some (s, i)"
      using indexed_first(2) [OF ix] by (cases "bt_first_key_value (ch_positive_order c)") auto
    then obtain e where e: "positive c i = Some e" "\<And>k' e'. positive c k' = Some e' \<Longrightarrow> pe_sequence e \<le> pe_sequence e'"
      using indexed_first(1) [OF ix f] by blast
    obtain r c1 where r: "remove_positive i c = (r, c1)" by (cases "remove_positive i c")
    note ok = remove_positive_ok [OF Suc.prems(1) r]
    obtain ids c' where ev: "evict_positives fuel c1 = Some (ids, c')" and p: "pruned (\<lambda>k e. True) c1 ids c'"
        "ch_negatives c' = ch_negatives c1" "length (ch_positives c') = min (length (ch_positives c1)) (ch_capacity c1)"
        and fifo: "\<And>k e k' e'. positive c1 k = Some e \<Longrightarrow> positive c' k = None \<Longrightarrow> positive c' k' = Some e' \<Longrightarrow> pe_sequence e < pe_sequence e'"
      using Suc.IH [OF ok(1)] ok(2,5,7) e(1) Suc.prems(2) by auto
    have "pe_sequence e1 < pe_sequence e'" if "positive c k = Some e1" "positive c' k = None" "positive c' k' = Some e'" for k e1 k' e'
    proof (cases "k = i")
      case True
      have "positive c k' = Some e'" "k' \<noteq> i"
        using p(1) that(3) ok(3) unfolding pruned_def by (metis fun_upd_apply option.distinct(1))+
      then show ?thesis
        using e(2) [of k' e'] True that(1) e(1) indexed_inj [OF ix e(1), of k' e'] by (auto simp: order.order_iff_strict)
    next
      case False
      then show ?thesis using fifo [of k e1 k' e'] that ok(3) by simp
    qed
    moreover have "pruned (\<lambda>k e. True) c (released_ids r @ ids) c'"
      by (rule pruned_trans [OF pruned_remove_positive [OF Suc.prems(1) r] p(1)]) simp
    moreover have "evict_positives (Suc fuel) c = Some (released_ids r @ ids, c')"
      using False f r ev by simp
    ultimately show ?thesis
      using p(2,3) ok(2,4,5,7) e(1) False by auto
  qed
qed

lemma evict_negatives_ok:
  assumes "cache_core c" "length (ch_negatives c) \<le> ch_capacity c + fuel"
  shows "\<exists>c'. evict_negatives fuel c = Some c' \<and> pruned Q c [] c'
    \<and> ch_positives c' = ch_positives c \<and> length (ch_negatives c') \<le> ch_capacity c"
  using assms
proof (induction fuel arbitrary: c)
  case 0
  then show ?case by (auto simp: pruned_refl)
next
  case (Suc fuel)
  have ix: "indexed ne_sequence ne_expires_at (ch_negatives c) (ch_negative_order c) (ch_negative_expiry c)"
    using Suc.prems by (simp add: cache_core_def)
  show ?case
  proof (cases "length (ch_negatives c) \<le> ch_capacity c")
    case True
    then show ?thesis using Suc.prems by (auto simp: pruned_refl)
  next
    case False
    then obtain s i where f: "bt_first_key_value (ch_negative_order c) = Some (s, i)"
      using indexed_first(2) [OF ix] by (cases "bt_first_key_value (ch_negative_order c)") auto
    obtain r c1 where r: "remove_negative i c = (r, c1)" by (cases "remove_negative i c")
    note ok = remove_negative_ok [OF Suc.prems(1) r]
    have "negative c i \<noteq> None" using indexed_first(1) [OF ix f] by auto
    then have "length (ch_negatives c1) \<le> ch_capacity c1 + fuel" using ok(4,6) Suc.prems(2) by auto
    then obtain c' where ev: "evict_negatives fuel c1 = Some c'" and p: "pruned Q c1 [] c'"
        "ch_positives c' = ch_positives c1" "length (ch_negatives c') \<le> ch_capacity c1"
      using Suc.IH [OF ok(1)] by auto
    have "pruned Q c ([] @ []) c'"
      by (rule pruned_trans [OF _ p(1)]) (use pruned_remove_negative [OF Suc.prems(1), of Q i] r in simp)
    then show ?thesis using False f r ev p ok by auto
  qed
qed

text \<open>The loop gives up the oldest miss first, so it keeps the newest.\<close>

lemma evict_negatives_newest:
  assumes "cache_core c" "negative c req = Some e" "ne_sequence e = ch_sequence c" "0 < ch_capacity c"
    and "evict_negatives fuel c = Some c'"
  shows "negative c' req = Some e"
  using assms
proof (induction fuel arbitrary: c)
  case (Suc fuel)
  show ?case
  proof (cases "length (ch_negatives c) \<le> ch_capacity c")
    case False
    have ix: "indexed ne_sequence ne_expires_at (ch_negatives c) (ch_negative_order c) (ch_negative_expiry c)"
      using Suc.prems(1) by (simp add: cache_core_def)
    obtain s i where f: "bt_first_key_value (ch_negative_order c) = Some (s, i)"
      using Suc.prems(5) False by (auto split: option.splits)
    obtain x y zs where xy: "ch_negatives c = x # y # zs"
      using False Suc.prems(4) by (cases "ch_negatives c"; cases "tl (ch_negatives c)") auto
    then have "\<exists>k. k \<noteq> req \<and> negative c k \<noteq> None"
      using ix by (cases "fst x = req") (auto simp: indexed_def map_of_eq_None_iff image_iff)
    then obtain k e' where k: "k \<noteq> req" "negative c k = Some e'" by blast
    then have "ne_sequence e' \<le> ch_sequence c" using Suc.prems(1) by (simp add: cache_core_def entries_ok_def)
    moreover have "ne_sequence e' \<noteq> ne_sequence e" using indexed_inj [OF ix k(2) Suc.prems(2)] k(1) by blast
    ultimately have "ne_sequence e' < ne_sequence e" using Suc.prems(3) by simp
    then have "i \<noteq> req" using indexed_first(1) [OF ix f] k(2) Suc.prems(2) by (metis leD option.inject)
    obtain r c1 where r: "remove_negative i c = (r, c1)" by (cases "remove_negative i c")
    from remove_negative_ok [OF Suc.prems(1) r] show ?thesis
      using Suc.IH [of c1] Suc.prems False f r \<open>i \<noteq> req\<close> by simp
  qed (use Suc.prems in simp)
qed (use assms in \<open>simp split: if_splits\<close>)

subsection \<open>Insertion\<close>

lemma length_update: "map_of xs k = None \<Longrightarrow> length (AList.update k v xs) = Suc (length xs)"
  by (induction xs) (auto split: if_splits)

lemma next_sequence: "n < n + (1 :: u64) \<Longrightarrow> x \<le> n \<Longrightarrow> x \<le> n + 1"
  by (meson less_imp_le order_trans)

lemma index_positive_ok:
  assumes core: "cache_core c" and new: "positive c req = None" "negative c req = None"
    and fresh: "\<And>sid. pe_subscription_id p = Some sid \<Longrightarrow> sid \<notin> held c"
    and req: "pe_request_identity p = req" and sq: "ch_sequence c < ch_sequence c + 1"
  defines "c' \<equiv> index_positive req p c"
  shows "cache_core c'" "positive c' = (positive c)(req \<mapsto> p\<lparr>pe_sequence := ch_sequence c + 1\<rparr>)"
    "ch_negatives c' = ch_negatives c" "ch_capacity c' = ch_capacity c" "ch_sequence c' = ch_sequence c + 1"
    "length (ch_positives c') = Suc (length (ch_positives c))"
proof -
  let ?p = "p\<lparr>pe_sequence := ch_sequence c + 1\<rparr>"
  show pos: "positive c' = (positive c)(req \<mapsto> ?p)" and frame: "ch_negatives c' = ch_negatives c"
      "ch_capacity c' = ch_capacity c" "ch_sequence c' = ch_sequence c + 1"
      "length (ch_positives c') = Suc (length (ch_positives c))"
    using new(1) by (simp_all add: c'_def index_positive_def Let_def update_conv' length_update)
  have bound: "pe_sequence e < ch_sequence c + 1" if "positive c k = Some e" for k e
    using core that sq by (force simp: cache_core_def entries_ok_def)
  have "indexed pe_sequence pe_expires_at (ch_positives c') (ch_positive_order c') (ch_positive_expiry c')"
    using indexed_insert [of pe_sequence pe_expires_at "ch_positives c" _ _ req ?p] core new(1) bound
    by (force simp: c'_def index_positive_def Let_def cache_core_def)
  moreover have "indexed ne_sequence ne_expires_at (ch_negatives c') (ch_negative_order c') (ch_negative_expiry c')"
    using core by (simp add: c'_def index_positive_def Let_def cache_core_def)
  moreover have "entries_ok c'"
    using core new req next_sequence [OF sq] unfolding entries_ok_def pos frame cache_core_def by auto
  moreover have "subscriptions_ok c'"
  proof -
    have subs: "subscriptions_ok c" using core by (simp add: cache_core_def)
    have by_sub: "map_of (ch_by_subscription c') sid
        = (if pe_subscription_id p = Some sid then Some req else map_of (ch_by_subscription c) sid)" for sid
      by (auto simp: c'_def index_positive_def Let_def update_conv' split: option.splits)
    have "map_of (ch_by_subscription c') sid = Some k \<longleftrightarrow> (\<exists>e. positive c' k = Some e \<and> pe_subscription_id e = Some sid)" for sid k
    proof (cases "pe_subscription_id p = Some sid")
      case True
      then show ?thesis unfolding by_sub pos using fresh [OF True] by (auto simp: held_def)
    next
      case False
      then show ?thesis unfolding by_sub pos using new(1) by (auto simp: subscriptions_ok_get [OF subs])
    qed
    moreover have "distinct (map fst (ch_by_subscription c'))"
      using subs by (auto simp: c'_def index_positive_def Let_def subscriptions_ok_def distinct_update split: option.splits)
    ultimately show ?thesis by (simp add: subscriptions_ok_def)
  qed
  ultimately show "cache_core c'" by (simp add: cache_core_def)
qed

lemma index_negative_ok:
  fixes ttl :: duration and now :: instant
  assumes core: "cache_core c" and new: "positive c req = None" "negative c req = None"
    and sq: "ch_sequence c < ch_sequence c + 1"
  defines "c' \<equiv> index_negative req ttl now c"
  shows "cache_core c'" "ch_positives c' = ch_positives c" "ch_capacity c' = ch_capacity c" "ch_sequence c' = ch_sequence c + 1"
    "negative c' = (negative c)(req \<mapsto> \<lparr>ne_request_identity = req, ne_expires_at = now + ttl, ne_sequence = ch_sequence c + 1\<rparr>)"
    "length (ch_negatives c') = Suc (length (ch_negatives c))"
proof -
  let ?e = "\<lparr>ne_request_identity = req, ne_expires_at = now + ttl, ne_sequence = ch_sequence c + 1\<rparr>"
  show neg: "negative c' = (negative c)(req \<mapsto> ?e)" and frame: "ch_positives c' = ch_positives c"
      "ch_capacity c' = ch_capacity c" "ch_sequence c' = ch_sequence c + 1"
      "length (ch_negatives c') = Suc (length (ch_negatives c))"
    using new(2) by (simp_all add: c'_def index_negative_def Let_def NegativeCacheEntry_new_def update_conv' length_update)
  have bound: "ne_sequence e < ch_sequence c + 1" if "negative c k = Some e" for k e
    using core that sq by (force simp: cache_core_def entries_ok_def)
  have "indexed ne_sequence ne_expires_at (ch_negatives c') (ch_negative_order c') (ch_negative_expiry c')"
    using indexed_insert [of ne_sequence ne_expires_at "ch_negatives c" _ _ req ?e] core new(2) bound
    by (force simp: c'_def index_negative_def Let_def NegativeCacheEntry_new_def cache_core_def)
  moreover have "entries_ok c'"
    using core new next_sequence [OF sq] unfolding entries_ok_def neg frame cache_core_def by auto
  moreover have "ch_positive_order c' = ch_positive_order c" "ch_positive_expiry c' = ch_positive_expiry c"
      "ch_by_subscription c' = ch_by_subscription c"
    by (simp_all add: c'_def index_negative_def Let_def)
  ultimately show "cache_core c'" using core by (simp add: cache_core_def subscriptions_ok_def frame)
qed

text \<open>
  What an insertion does to the answers: the new one is there (unless nothing may be cached), the
  others are as they were or gone, and every subscription is still held or listed for release.
\<close>

definition inserted ::
    "route_identity \<Rightarrow> positive_cache_entry \<Rightarrow> route_cache \<Rightarrow> subscription_id list \<Rightarrow> route_cache \<Rightarrow> bool" where
  "inserted req p c ids c' \<longleftrightarrow>
     cache_core c' \<and> ch_capacity c' = ch_capacity c \<and> ch_sequence c' = ch_sequence c + 1
     \<and> length (ch_positives c') \<le> ch_capacity c \<and> length (ch_negatives c') \<le> length (ch_negatives c)
     \<and> held c' \<union> set ids = held c \<union> set_option (pe_subscription_id p) \<and> held c' \<inter> set ids = {}
     \<and> (\<forall>k. k \<noteq> req \<longrightarrow> positive c' k = positive c k \<or> positive c' k = None)
     \<and> (\<forall>k. negative c' k = negative c k \<or> negative c' k = None) \<and> negative c' req = None
     \<and> positive c' req = (if ch_capacity c = 0 then None
         else Some (p\<lparr>pe_request_identity := req, pe_sequence := ch_sequence c + 1\<rparr>))"

lemma newest_kept:
  assumes core: "cache_core c" and new: "positive c req = Some p" "pe_sequence p = ch_sequence c"
    and len: "length (ch_positives c') = min (length (ch_positives c)) (ch_capacity c)"
    and pr: "pruned Q c ids c'"
    and fifo: "\<forall>k e k' e'. positive c k = Some e \<and> positive c' k = None \<and> positive c' k' = Some e' \<longrightarrow> pe_sequence e < pe_sequence e'"
  shows "positive c' req = (if ch_capacity c = 0 then None else Some p)"
proof (cases "ch_capacity c = 0")
  case True
  then show ?thesis using len by simp
next
  case False
  have "ch_positives c \<noteq> []" using new(1) by auto
  then have "0 < length (ch_positives c')" using False unfolding len by simp
  then have ne: "ch_positives c' \<noteq> []" by simp
  have "positive c' req \<noteq> None"
  proof
    assume gone: "positive c' req = None"
    obtain k e where e: "positive c' k = Some e"
      using ne by (metis list.exhaust map_of_Cons_code(2) surj_pair)
    then have "pe_sequence p < pe_sequence e" using fifo new(1) gone by blast
    moreover have "positive c k = Some e" using pr e unfolding pruned_def by (metis option.distinct(1))
    then have "pe_sequence e \<le> ch_sequence c" using core by (simp add: cache_core_def entries_ok_def)
    ultimately show False using new(2) by simp
  qed
  then show ?thesis using pr new(1) False unfolding pruned_def by metis
qed

text \<open>The cache when room has been made for the new answer.\<close>

lemma cleared_cache:
  assumes core: "cache_core c" and r: "remove_positive req c = (r, c1)"
    and c2: "c2 = (case sid of Some i \<Rightarrow> snd (remove_positive_by_subscription i c1) | None \<Rightarrow> c1)"
    and c3: "c3 = snd (remove_negative req c2)"
  shows "cache_core c3" "positive c3 req = None" "negative c3 req = None" "held c3 = held c1 - set_option sid"
    "ch_sequence c3 = ch_sequence c" "ch_capacity c3 = ch_capacity c"
    "\<forall>k. k \<noteq> req \<longrightarrow> positive c3 k = positive c k \<or> positive c3 k = None"
    "\<forall>k. negative c3 k = negative c k \<or> negative c3 k = None"
    "length (ch_negatives c3) \<le> length (ch_negatives c)"
proof -
  note ok1 = remove_positive_ok [OF core r]
  obtain ids2 where p2: "pruned (\<lambda>k e. True) c1 ids2 c2" and h2: "held c2 = held c1 - set_option sid"
  proof (cases sid)
    case None
    then show thesis using that [of "[]"] pruned_refl [OF ok1(1)] by (simp add: c2)
  next
    case (Some i)
    obtain r2 c2' where r2: "remove_positive_by_subscription i c1 = (r2, c2')" by (cases "remove_positive_by_subscription i c1")
    note p = pruned_remove_by_subscription [OF ok1(1) r2]
    then have "held c2' = held c1 - {i}" unfolding pruned_def by auto
    moreover have "pruned (\<lambda>k e. True) c1 (released_ids r2) c2'" by (rule pruned_mono [OF p(1)]) simp
    ultimately show thesis using that Some r2 by (simp add: c2)
  qed
  obtain r3 where r3: "remove_negative req c2 = (r3, c3)" by (cases "remove_negative req c2") (simp add: c3)
  note ok3 = remove_negative_ok [OF pruned_core [OF p2] r3]
  show "cache_core c3" "positive c3 req = None" "negative c3 req = None" "held c3 = held c1 - set_option sid"
      "ch_sequence c3 = ch_sequence c" "ch_capacity c3 = ch_capacity c" "length (ch_negatives c3) \<le> length (ch_negatives c)"
    using p2 ok1(3-6) ok3(1-6) h2 held_same [of c3 c2] unfolding pruned_def by (auto split: if_splits)
  show "\<forall>k. k \<noteq> req \<longrightarrow> positive c3 k = positive c k \<or> positive c3 k = None"
    using p2 ok1(3) ok3(3) unfolding pruned_def by (metis fun_upd_other)
  show "\<forall>k. negative c3 k = negative c k \<or> negative c3 k = None"
    using p2 ok1(4) ok3(2) unfolding pruned_def by (metis fun_upd_apply)
qed

lemma install_positive_ok:
  assumes core: "cache_core c" and sq: "ch_sequence c < ch_sequence c + 1"
  shows "\<exists>ids' c'. install_positive req p ids c = Some (ids @ ids', c') \<and> inserted req p c ids' c'"
proof -
  let ?new = "set_option (pe_subscription_id p)" and ?p = "p\<lparr>pe_request_identity := req\<rparr>"
  obtain r c1 where r: "remove_positive req c = (r, c1)" by (cases "remove_positive req c")
  have p1: "pruned (\<lambda>k e. True) c (released_ids r) c1" by (rule pruned_remove_positive [OF core r]) simp
  define c2 where "c2 = (case pe_subscription_id p of Some sid \<Rightarrow> snd (remove_positive_by_subscription sid c1) | None \<Rightarrow> c1)"
  define c3 where "c3 = snd (remove_negative req c2)"
  note clear = cleared_cache [OF core r c2_def c3_def]
  have "ch_sequence c3 < ch_sequence c3 + 1" "\<And>sid. pe_subscription_id ?p = Some sid \<Longrightarrow> sid \<notin> held c3"
    using clear(4,5) sq by auto
  note ok4 = index_positive_ok [of c3 req ?p, OF clear(1-3) this(2) _ this(1), simplified]
  let ?c4 = "index_positive req ?p c3"
  obtain ids5 c5 where ev: "evict_positives (length (ch_positives ?c4)) ?c4 = Some (ids5, c5)"
      and p5: "pruned (\<lambda>k e. True) ?c4 ids5 c5" "ch_negatives c5 = ch_negatives ?c4"
        "length (ch_positives c5) = min (length (ch_positives ?c4)) (ch_capacity ?c4)"
      and fifo: "\<forall>k e k' e'. positive ?c4 k = Some e \<and> positive c5 k = None \<and> positive c5 k' = Some e' \<longrightarrow> pe_sequence e < pe_sequence e'"
    using evict_positives_ok [OF ok4(1), of "length (ch_positives ?c4)"] by auto
  have kept: "positive c5 req = (if ch_capacity c = 0 then None else Some (?p\<lparr>pe_sequence := ch_sequence c + 1\<rparr>))"
    using newest_kept [OF ok4(1) _ _ p5(3,1) fifo] ok4(2,4,5) clear(5,6) by simp
  have h4: "held ?c4 = (held c1 - ?new) \<union> ?new"
    using held_insert [OF ok4(2) clear(2)] clear(4) by simp
  let ?ids1 = "filter (\<lambda>sid. Some sid \<noteq> pe_subscription_id p) (released_ids r)"
  have ids1: "set ?ids1 = set (released_ids r) - ?new" by (cases "pe_subscription_id p") auto
  have "held c5 \<union> set (?ids1 @ ids5) = held c \<union> ?new" "held c5 \<inter> set (?ids1 @ ids5) = {}"
    using p1 p5(1) unfolding pruned_def set_append ids1 h4 by blast+
  moreover have "positive c5 k = positive c k \<or> positive c5 k = None" if "k \<noteq> req" for k
    using p5(1) clear(7) that unfolding pruned_def ok4(2) by (metis fun_upd_other)
  ultimately have "inserted req p c (?ids1 @ ids5) c5"
    using kept p5 clear ok4 unfolding inserted_def by (auto simp: pruned_def)
  moreover have "install_positive req p ids c = Some (ids @ ?ids1 @ ids5, c5)"
    using ev by (simp add: install_positive_def r c2_def c3_def Let_def)
  ultimately show ?thesis by blast
qed

end
