(* ===== verification/Route_Cache_Runs.thy ===== *)
theory Route_Cache_Runs
  imports Route_Cache_Invariant
begin

text \<open>
  The operations of the route cache as one step function, and what any sequence of them keeps.
\<close>

section \<open>The operations keep the invariant\<close>

text \<open>
  Subscriptions are accounted for: what was held and what was handed in is held afterwards or
  listed for release, and nothing released is still held when the handed-in one is new.
\<close>

definition accounted :: "route_cache \<Rightarrow> subscription_id set \<Rightarrow> subscription_id list \<Rightarrow> route_cache \<Rightarrow> bool" where
  "accounted c new ids c' \<longleftrightarrow> held c' \<union> set ids = held c \<union> new \<and> (held c \<inter> new = {} \<longrightarrow> held c' \<inter> set ids = {})"

lemma held_active: "cache_core c \<Longrightarrow> set (active_subscription_ids c) = held c"
proof -
  assume "cache_core c"
  then have "subscriptions_ok c" by (simp add: cache_core_def)
  then have "sid \<in> fst ` set (ch_by_subscription c) \<longleftrightarrow> sid \<in> held c" for sid
    using subscriptions_ok_get [of c sid] map_of_eq_None_iff [of "ch_by_subscription c" sid]
    by (auto simp: held_def)
  then show ?thesis by (auto simp: active_subscription_ids_def)
qed

lemma cache_ok_pruned: "pruned Q c ids c' \<Longrightarrow> cache_ok c \<Longrightarrow> cache_ok c' \<and> accounted c {} ids c'"
  by (auto simp: pruned_def cache_ok_def accounted_def)

lemma insert_resolved_cases:
  assumes ok: "cache_ok c" and sq: "ch_sequence c < ch_sequence c + 1"
    and ex: "expire_limited now 64 c = (ids0, c0)"
  obtains (stale) e where "positive c0 req = Some e" "stale_route_entry (pe_entry e) (pe_entry p) \<noteq> None"
      "insert_resolved req p now c = Some (ids0 @ released_ids (Some p),
         if pe_subscription_id e = None then snd (remove_positive req c0) else c0)"
    | (fresh) ids' c' where "insert_resolved req p now c = Some (ids0 @ ids', c')" "inserted req p c0 ids' c'"
      "\<And>e. positive c0 req = Some e \<Longrightarrow> stale_route_entry (pe_entry e) (pe_entry p) = None"
proof -
  have p0: "pruned (\<lambda>k e. pe_expires_at e \<le> now) c ids0 c0"
    using ok ex by (intro expire_limited_pruned) (simp_all add: cache_ok_def)
  have "ch_sequence c0 < ch_sequence c0 + 1" using p0 sq by (simp add: pruned_def)
  from install_positive_ok [OF pruned_core [OF p0] this, of req p ids0]
  obtain ids' c' where i: "install_positive req p ids0 c0 = Some (ids0 @ ids', c')" "inserted req p c0 ids' c'" by blast
  show thesis
  proof (cases "\<exists>e. positive c0 req = Some e \<and> stale_route_entry (pe_entry e) (pe_entry p) \<noteq> None")
    case True
    then obtain e where "positive c0 req = Some e" "stale_route_entry (pe_entry e) (pe_entry p) \<noteq> None" by blast
    then show ?thesis by (rule stale) (use ex \<open>positive c0 req = Some e\<close> \<open>stale_route_entry _ _ \<noteq> None\<close> in \<open>simp add: insert_resolved_def\<close>)
  next
    case False
    then have "insert_resolved req p now c = install_positive req p ids0 c0"
      using ex by (auto simp: insert_resolved_def split: option.splits)
    with i False show ?thesis by (intro fresh) auto
  qed
qed

lemma insert_resolved_ok:
  assumes ok: "cache_ok c" and sq: "ch_sequence c < ch_sequence c + 1"
  shows "\<exists>ids c'. insert_resolved req p now c = Some (ids, c') \<and> cache_ok c'
    \<and> accounted c (set_option (pe_subscription_id p)) ids c'
    \<and> (ch_sequence c' = ch_sequence c \<or> ch_sequence c' = ch_sequence c + 1)"
proof -
  obtain ids0 c0 where ex: "expire_limited now 64 c = (ids0, c0)" by (cases "expire_limited now 64 c")
  have p0: "pruned (\<lambda>k e. pe_expires_at e \<le> now) c ids0 c0"
    using ok ex by (intro expire_limited_pruned) (simp_all add: cache_ok_def)
  have ok0: "cache_ok c0" using cache_ok_pruned [OF p0 ok] by simp
  from ok sq ex show ?thesis
  proof (cases rule: insert_resolved_cases [where req = req and p = p])
    case (stale e)
    let ?c' = "if pe_subscription_id e = None then snd (remove_positive req c0) else c0"
    have "pruned (\<lambda>k e. True) c0 [] ?c'"
    proof (cases "pe_subscription_id e = None")
      case True
      obtain r c1 where r: "remove_positive req c0 = (r, c1)" by (cases "remove_positive req c0")
      then have "released_ids r = []"
        using remove_positive_ok(2) [OF pruned_core [OF p0] r] stale(1) True by (simp add: released_ids_def)
      then show ?thesis
        using pruned_remove_positive [OF pruned_core [OF p0] r, of "\<lambda>k e. True"] True r by simp
    qed (auto simp: pruned_refl [OF pruned_core [OF p0]])
    note p1 = this and cache_ok_pruned [OF this ok0]
    moreover have "accounted c (set_option (pe_subscription_id p)) (ids0 @ released_ids (Some p)) ?c'"
      using p0 p1 unfolding accounted_def pruned_def set_append set_released_ids by auto
    ultimately show ?thesis using stale(3) p0 by (simp add: pruned_def)
  next
    case (fresh ids' c')
    have "cache_ok c'" using fresh(2) ok0 p0 by (simp add: inserted_def cache_ok_def pruned_def)
    moreover have "accounted c (set_option (pe_subscription_id p)) (ids0 @ ids') c'"
      using fresh(2) p0 unfolding accounted_def inserted_def pruned_def set_append by blast
    ultimately show ?thesis using fresh(1,2) p0 by (auto simp: inserted_def pruned_def)
  qed
qed

lemma length_update_present: "map_of xs k = Some w \<Longrightarrow> length (AList.update k v xs) = length xs"
  by (induction xs) (auto split: if_splits)

lemma insert_negative_ok:
  assumes ok: "cache_ok c" and sq: "ch_sequence c < ch_sequence c + 1"
  shows "\<exists>ids c'. insert_negative req ttl now c = Some (ids, c') \<and> cache_ok c' \<and> accounted c {} ids c'
    \<and> ch_sequence c' = ch_sequence c + 1
    \<and> (\<forall>k. positive c' k = positive c k \<or> positive c' k = None) \<and> positive c' req = None
    \<and> (0 < ch_capacity c \<longrightarrow> negative c' req = Some \<lparr>ne_request_identity = req, ne_expires_at = now + ttl,
         ne_sequence = ch_sequence c + 1\<rparr>)"
proof -
  obtain ids0 c0 where ex: "expire_limited now 64 c = (ids0, c0)" by (cases "expire_limited now 64 c")
  have p0: "pruned (\<lambda>k e. True) c ids0 c0"
    using expire_limited_pruned [OF _ ex] ok by (auto simp: cache_ok_def elim: pruned_mono)
  obtain r c1 where r: "remove_positive req c0 = (r, c1)" by (cases "remove_positive req c0")
  define c3 where "c3 = snd (remove_negative req c1)"
  have p1: "pruned (\<lambda>k e. True) c0 (released_ids r) c1"
    by (rule pruned_remove_positive [OF pruned_core [OF p0] r]) simp
  have p2: "pruned (\<lambda>k e. True) c1 [] c3"
    unfolding c3_def by (rule pruned_remove_negative [OF pruned_core [OF p1]])
  from pruned_trans [OF pruned_trans [OF p0 p1] p2] have p3: "pruned (\<lambda>k e. True) c (ids0 @ released_ids r) c3" by simp
  have ok3: "cache_ok c3" and acc: "accounted c {} (ids0 @ released_ids r) c3"
    using cache_ok_pruned [OF p3 ok] by simp_all
  note clear = cleared_cache [of c0 req r c1 c1 None c3, OF pruned_core [OF p0] r _ c3_def, simplified]
  have "ch_sequence c3 < ch_sequence c3 + 1" using p3 sq by (simp add: pruned_def)
  note ok4 = index_negative_ok [OF clear(1-3) this, of ttl now]
  let ?c4 = "index_negative req ttl now c3"
  have "length (ch_negatives ?c4) \<le> ch_capacity ?c4 + length (ch_negatives ?c4)" by simp
  then obtain c5 where ev: "evict_negatives (length (ch_negatives ?c4)) ?c4 = Some c5"
      and p5: "pruned (\<lambda>k e. True) ?c4 [] c5" "ch_positives c5 = ch_positives ?c4" "length (ch_negatives c5) \<le> ch_capacity ?c4"
    using evict_negatives_ok [OF ok4(1)] by blast
  have "held c5 = held c3" using held_same p5(2) ok4(2) by metis
  then have "accounted c {} (ids0 @ released_ids r) c5" using acc by (simp add: accounted_def)
  moreover have "cache_ok c5" "ch_sequence c5 = ch_sequence c + 1"
    using p3 p5 ok4 ok3 by (auto simp: cache_ok_def pruned_def)
  moreover have "positive c5 = positive c3" using p5(2) ok4(2) by simp
  then have "\<forall>k. positive c5 k = positive c k \<or> positive c5 k = None" "positive c5 req = None"
    using p3 clear(2) unfolding pruned_def by metis+
  moreover have "negative c5 req = Some \<lparr>ne_request_identity = req, ne_expires_at = now + ttl, ne_sequence = ch_sequence c + 1\<rparr>"
    if "0 < ch_capacity c"
    by (rule evict_negatives_newest [OF ok4(1) _ _ _ ev]) (use ok4 p3 that in \<open>simp_all add: pruned_def\<close>)
  moreover have "insert_negative req ttl now c = Some (ids0 @ released_ids r, c5)"
    using ev by (simp add: insert_negative_def ex r c3_def Let_def)
  ultimately show ?thesis
    by (intro exI [of _ "ids0 @ released_ids r"] exI [of _ c5]) simp
qed

lemma refresh_positive_ok:
  assumes ok: "cache_ok c" and c'_def: "c' = refresh_positive i matched entry ttl now c"
  shows "cache_ok c'" "held c' = held c" "ch_sequence c' = ch_sequence c" "ch_negatives c' = ch_negatives c"
    "positive c' k = (if k = i then map_option (\<lambda>e. e\<lparr>pe_matched_identity := matched, pe_entry := entry,
       pe_expires_at := now + ttl\<rparr>) (positive c i) else positive c k)"
proof -
  show pos: "positive c' k = (if k = i then map_option (\<lambda>e. e\<lparr>pe_matched_identity := matched, pe_entry := entry,
       pe_expires_at := now + ttl\<rparr>) (positive c i) else positive c k)" for k
    by (cases "positive c i") (auto simp: c'_def refresh_positive_def Let_def update_conv')
  show frame: "ch_sequence c' = ch_sequence c" "ch_negatives c' = ch_negatives c"
    by (auto simp: c'_def refresh_positive_def Let_def split: option.splits)
  have sub: "(\<exists>e. positive c' k = Some e \<and> pe_subscription_id e = Some sid)
      \<longleftrightarrow> (\<exists>e. positive c k = Some e \<and> pe_subscription_id e = Some sid)" for k sid
    by (auto simp: pos)
  then show "held c' = held c" by (simp add: held_def)
  have rest: "ch_by_subscription c' = ch_by_subscription c" "ch_capacity c' = ch_capacity c"
      "ch_negative_order c' = ch_negative_order c" "ch_negative_expiry c' = ch_negative_expiry c"
    by (auto simp: c'_def refresh_positive_def Let_def split: option.splits)
  have "indexed pe_sequence pe_expires_at (ch_positives c') (ch_positive_order c') (ch_positive_expiry c')
    \<and> length (ch_positives c') = length (ch_positives c)"
  proof (cases "positive c i")
    case (Some e)
    let ?e = "e\<lparr>pe_matched_identity := matched, pe_entry := entry, pe_expires_at := now + ttl\<rparr>"
    show ?thesis
      using indexed_refresh [of pe_sequence pe_expires_at _ _ _ i e ?e] Some ok
      by (simp add: c'_def refresh_positive_def Let_def cache_ok_def cache_core_def length_update_present)
  qed (use ok in \<open>simp_all add: c'_def refresh_positive_def cache_ok_def cache_core_def\<close>)
  moreover have "entries_ok c'"
    using ok unfolding entries_ok_def frame by (auto simp: pos cache_ok_def cache_core_def entries_ok_def)
  ultimately show "cache_ok c'"
    using ok unfolding cache_ok_def cache_core_def subscriptions_ok_def frame rest sub by simp
qed

lemma rotate_session_ok:
  assumes ok: "cache_ok c" and rot: "rotate_session c = (ids, c')"
  shows "cache_ok c'" "held c' = {}" "ch_sequence c' = ch_sequence c"
    "positive c' k = map_option (\<lambda>e. e\<lparr>pe_subscription_id := None\<rparr>) (positive c k)" "ch_negatives c' = ch_negatives c"
proof -
  show frame: "ch_sequence c' = ch_sequence c" "ch_negatives c' = ch_negatives c"
    using rot by (auto simp: rotate_session_def)
  have c': "ch_positives c' = map (\<lambda>(i, e). (i, e\<lparr>pe_subscription_id := None\<rparr>)) (ch_positives c)" "ch_by_subscription c' = []"
    using rot by (auto simp: rotate_session_def)
  show pos: "positive c' k = map_option (\<lambda>e. e\<lparr>pe_subscription_id := None\<rparr>) (positive c k)" for k
    unfolding c' by (simp add: map_of_map)
  show held: "held c' = {}" by (auto simp: held_def pos)
  have ix: "indexed pe_sequence pe_expires_at (ch_positives c) (ch_positive_order c) (ch_positive_expiry c)"
    using ok by (simp add: cache_ok_def cache_core_def)
  have "map fst (ch_positives c') = map fst (ch_positives c)" unfolding c' by (induction "ch_positives c") auto
  then have "indexed pe_sequence pe_expires_at (ch_positives c') (ch_positive_order c) (ch_positive_expiry c)"
    using ix unfolding indexed_def pos by auto
  moreover have "subscriptions_ok c'" using held by (auto simp: subscriptions_ok_def c'(2) held_def)
  moreover have "entries_ok c'"
    using ok unfolding entries_ok_def frame by (auto simp: pos cache_ok_def cache_core_def entries_ok_def)
  ultimately show "cache_ok c'"
    using ok rot by (auto simp: cache_ok_def cache_core_def rotate_session_def)
qed

section \<open>Sequences of operations\<close>

datatype cache_op =
    InsertResolved route_identity positive_cache_entry instant
  | InsertNegative route_identity duration instant
  | ExpireLimited instant nat
  | InvalidateSubscription subscription_id
  | InvalidateRequest route_identity
  | ReplaceSubscription subscription_id route_identity route_entry duration instant
  | RefreshPositive route_identity route_identity route_entry duration instant
  | RotateSession
  | ClearCache

primrec exec_cache :: "cache_op \<Rightarrow> route_cache \<Rightarrow> route_cache option" where
  "exec_cache (InsertResolved i p now) c = map_option snd (insert_resolved i p now c)"
| "exec_cache (InsertNegative i ttl now) c = map_option snd (insert_negative i ttl now c)"
| "exec_cache (ExpireLimited now n) c = Some (snd (expire_limited now n c))"
| "exec_cache (InvalidateSubscription sid) c = Some (snd (invalidate_subscription sid c))"
| "exec_cache (InvalidateRequest i) c = Some (snd (invalidate_request i c))"
| "exec_cache (ReplaceSubscription sid m e ttl now) c = Some (replace_subscription sid m e ttl now c)"
| "exec_cache (RefreshPositive i m e ttl now) c = Some (refresh_positive i m e ttl now c)"
| "exec_cache RotateSession c = Some (snd (rotate_session c))"
| "exec_cache ClearCache c = Some (cache_clear c)"

fun run_cache :: "cache_op list \<Rightarrow> route_cache \<Rightarrow> route_cache option" where
  "run_cache [] c = Some c"
| "run_cache (x # xs) c = Option.bind (exec_cache x c) (run_cache xs)"

lemma sequence_room: "unat (n :: u64) + 1 < 2 ^ 64 \<Longrightarrow> n < n + 1 \<and> unat (n + 1) = unat n + 1"
  by (simp add: word_less_nat_alt unat_word_ariths)

lemma exec_cache_ok:
  assumes ok: "cache_ok c" and room: "unat (ch_sequence c) + 1 < 2 ^ 64"
  shows "\<exists>c'. exec_cache x c = Some c' \<and> cache_ok c' \<and> unat (ch_sequence c') \<le> unat (ch_sequence c) + 1"
proof -
  have sq: "ch_sequence c < ch_sequence c + 1" and next_sq: "unat (ch_sequence c + 1) = unat (ch_sequence c) + 1"
    using sequence_room [OF room] by simp_all
  have core: "cache_core c" using ok by (simp add: cache_ok_def)
  have prune: "cache_ok c' \<and> unat (ch_sequence c') \<le> unat (ch_sequence c) + 1" if "pruned Q c ids c'" for Q ids c'
    using cache_ok_pruned [OF that ok] that by (simp add: pruned_def)
  show ?thesis
  proof (cases x)
    case (InsertResolved i p now)
    then show ?thesis using insert_resolved_ok [OF ok sq, of i p now] next_sq by auto
  next
    case (InsertNegative i ttl now)
    then show ?thesis using insert_negative_ok [OF ok sq, of i ttl now] next_sq by auto
  next
    case (ExpireLimited now n)
    then show ?thesis using prune expire_limited_pruned [OF core, of now n] by (cases "expire_limited now n c") auto
  next
    case (InvalidateSubscription sid)
    obtain r c' where r: "remove_positive_by_subscription sid c = (r, c')" by (cases "remove_positive_by_subscription sid c")
    from prune [OF pruned_remove_by_subscription(1) [OF core r]] show ?thesis
      using InvalidateSubscription r by (simp add: invalidate_subscription_def)
  next
    case (InvalidateRequest i)
    obtain r c' where r: "remove_positive i c = (r, c')" by (cases "remove_positive i c")
    have "pruned (\<lambda>k e. True) c (released_ids r) c'" by (rule pruned_remove_positive [OF core r]) simp
    from prune [OF this] show ?thesis using InvalidateRequest r by (simp add: invalidate_request_def)
  next
    case (ReplaceSubscription sid m e ttl now)
    then show ?thesis
      using refresh_positive_ok [OF ok HOL.refl] ok by (auto simp: replace_subscription_def split: option.splits)
  next
    case (RefreshPositive i m e ttl now)
    then show ?thesis using refresh_positive_ok [OF ok HOL.refl, of i m e ttl now] by simp
  next
    case RotateSession
    then show ?thesis using rotate_session_ok [OF ok] by (cases "rotate_session c") auto
  next
    case ClearCache
    then show ?thesis by (simp add: cache_clear_def cache_ok_new) (simp add: RouteCache_new_def)
  qed
qed

lemma run_cache_ok:
  "cache_ok c \<Longrightarrow> unat (ch_sequence c) + length ops < 2 ^ 64 \<Longrightarrow>
     \<exists>c'. run_cache ops c = Some c' \<and> cache_ok c' \<and> unat (ch_sequence c') \<le> unat (ch_sequence c) + length ops"
proof (induction ops arbitrary: c)
  case (Cons x ops)
  then obtain c1 where c1: "exec_cache x c = Some c1" "cache_ok c1" "unat (ch_sequence c1) \<le> unat (ch_sequence c) + 1"
    using exec_cache_ok [of c x] by auto
  with Cons.IH [OF c1(2)] Cons.prems(2) show ?case by force
qed simp

lemma reachable_cache:
  assumes "run_cache ops (RouteCache_new cap) = Some c" "length ops < 2 ^ 64 - 1"
  shows "cache_ok c" "ch_sequence c < ch_sequence c + 1"
proof -
  obtain c' where "run_cache ops (RouteCache_new cap) = Some c'" "cache_ok c'" "unat (ch_sequence c') \<le> length ops"
    using run_cache_ok [OF cache_ok_new, of cap ops] assms(2) by (auto simp: RouteCache_new_def)
  with assms show "cache_ok c" "ch_sequence c < ch_sequence c + 1"
    using sequence_room [of "ch_sequence c"] by auto
qed


definition sample_route_entry :: "generation \<Rightarrow> route_entry" where
  "sample_route_entry g =
     \<lparr>re_route_binding_id = ''r1'', re_instance_id = ''a'', re_instance_state = Running, re_instance_generation = g,
      re_backend = Some \<lparr>be_uri = ''http://10.0.0.1'', be_address = None\<rparr>, re_backend_generation = Some 1\<rparr>"

definition sample_identity :: "string \<Rightarrow> route_identity" where
  "sample_identity path = HttpIdentity \<lparr>rh_kind = ExactHost, rh_host = ''a.b''\<rparr> (Some path)"

definition sample_subscription :: "string \<Rightarrow> subscription_id" where
  "sample_subscription v = \<lparr>si_value = v, si_session = Some 1\<rparr>"

definition sample_answer :: "string \<Rightarrow> generation \<Rightarrow> instant \<Rightarrow> positive_cache_entry" where
  "sample_answer v g now = PositiveCacheEntry_new (sample_subscription v) (sample_identity ''/'') (sample_route_entry g) 10 now"

definition sample_cache_ops :: "cache_op list" where
  "sample_cache_ops = [InsertResolved (sample_identity ''/x'') (sample_answer ''s1'' 1 0) 0, InsertNegative (sample_identity ''/y'') 5 1]"


text \<open>
  C20. No subscription leaks and none is given up too early. When an answer with a new
  subscription is inserted, when a miss is recorded and when answers expire, the subscriptions the
  cache held before (and the new one) are exactly those it still holds and those it lists for
  release, and no subscription is on both lists.
\<close>

theorem subscriptions_accounted:
  assumes "run_cache ops (RouteCache_new cap) = Some c" "length ops < 2 ^ 64 - 1"
    and "pe_subscription_id p = Some sid" "sid \<notin> set (active_subscription_ids c)"
    and "insert_resolved req p now c = Some (ids1, c1)" "insert_negative req ttl now c = Some (ids2, c2)"
    and "expire_limited now n c = (ids3, c3)"
  shows "set (active_subscription_ids c1) \<union> set ids1 = insert sid (set (active_subscription_ids c))
     \<and> set (active_subscription_ids c1) \<inter> set ids1 = {}
     \<and> set (active_subscription_ids c2) \<union> set ids2 = set (active_subscription_ids c)
     \<and> set (active_subscription_ids c2) \<inter> set ids2 = {}
     \<and> set (active_subscription_ids c3) \<union> set ids3 = set (active_subscription_ids c)
     \<and> set (active_subscription_ids c3) \<inter> set ids3 = {}"
proof -
  note ok = reachable_cache [OF assms(1,2)]
  have "cache_ok c1" "accounted c {sid} ids1 c1" "cache_ok c2" "accounted c {} ids2 c2"
    using insert_resolved_ok [OF ok, of req p now] insert_negative_ok [OF ok, of req ttl now] assms(3,5,6) by auto
  moreover have "pruned (\<lambda>k e. pe_expires_at e \<le> now) c ids3 c3"
    using expire_limited_pruned assms(7) ok(1) by (simp add: cache_ok_def)
  then have "cache_ok c3" "accounted c {} ids3 c3" using cache_ok_pruned ok(1) by blast+
  ultimately show ?thesis
    using assms(4) ok(1) by (simp add: held_active cache_ok_def accounted_def)
qed

lemma subscriptions_accounted_witness:
  "\<exists>c ids c'. run_cache sample_cache_ops (RouteCache_new 1) = Some c
     \<and> insert_resolved (sample_identity ''/z'') (sample_answer ''s2'' 1 2) 2 c = Some (ids, c')
     \<and> set (active_subscription_ids c') \<union> set ids = {sample_subscription ''s1'', sample_subscription ''s2''}"
proof -
  let ?p = "sample_answer ''s2'' 1 2" and ?i = "sample_identity ''/z''"
  obtain c where c: "run_cache sample_cache_ops (RouteCache_new 1) = Some c"
    using run_cache_ok [OF cache_ok_new, of 1 sample_cache_ops] by (auto simp: sample_cache_ops_def RouteCache_new_def)
  have "map_option active_subscription_ids (run_cache sample_cache_ops (RouteCache_new 1)) = Some [sample_subscription ''s1'']"
    by code_simp
  then have ids: "active_subscription_ids c = [sample_subscription ''s1'']" using c by simp
  have "length sample_cache_ops < 2 ^ 64 - 1" by (simp add: sample_cache_ops_def)
  note ok = reachable_cache [OF c this]
  obtain ids1 c1 ids2 c2 where "insert_resolved ?i ?p 2 c = Some (ids1, c1)" "insert_negative ?i 0 2 c = Some (ids2, c2)"
    using insert_resolved_ok [OF ok] insert_negative_ok [OF ok] by meson
  moreover obtain ids3 c3 where "expire_limited 2 0 c = (ids3, c3)" by (cases "expire_limited 2 0 c")
  ultimately show ?thesis
    using subscriptions_accounted [OF c _ _ _ , of ?p "sample_subscription ''s2''" ?i 2 ids1 c1 0 ids2 c2 0 ids3 c3] c ids
    by (auto simp: sample_cache_ops_def sample_answer_def PositiveCacheEntry_new_def sample_subscription_def)
qed

section \<open>What a lookup returns\<close>

lemma lookup_frame:
  assumes "cache_core c" "positive c' k = positive c k \<or> positive c' k = None"
    and "negative c' k = negative c k \<or> negative c' k = None"
  shows "cache_lookup k t c' = cache_lookup k t c \<or> cache_lookup k t c' = Absent"
proof (cases "positive c k")
  case None
  then show ?thesis using assms(2,3) by (auto simp: cache_lookup_def)
next
  case (Some e)
  then have "negative c k = None" using assms(1) by (simp add: cache_core_def entries_ok_def)
  then show ?thesis using Some assms(2,3) by (auto simp: cache_lookup_def)
qed

text \<open>
  C21. What is inserted is what is found. On a cache of positive capacity, an answer that is not
  older than a cached one for the same identity is found from then on until its time to live has
  passed, and for every other identity a lookup returns what it returned before or nothing: answers
  never reach a request they were not resolved for.
\<close>

theorem inserted_answer_is_found:
  assumes "run_cache ops (RouteCache_new cap) = Some c" "length ops < 2 ^ 64 - 1" "0 < ch_capacity c"
    and "\<forall>e. map_of (ch_positives c) req = Some e \<longrightarrow> stale_route_entry (pe_entry e) (pe_entry p) = None"
    and "insert_resolved req p now c = Some (ids, c')"
  shows "cache_lookup req t c' = (if pe_expires_at p \<le> t then Expired
           else HitPositive (p\<lparr>pe_request_identity := req, pe_sequence := ch_sequence c + 1\<rparr>))
     \<and> (k \<noteq> req \<longrightarrow> cache_lookup k t c' = cache_lookup k t c \<or> cache_lookup k t c' = Absent)"
proof -
  note ok = reachable_cache [OF assms(1,2)]
  obtain ids0 c0 where ex: "expire_limited now 64 c = (ids0, c0)" by (cases "expire_limited now 64 c")
  have p0: "pruned (\<lambda>k e. pe_expires_at e \<le> now) c ids0 c0"
    using ok(1) ex by (intro expire_limited_pruned) (simp_all add: cache_ok_def)
  from ok ex show ?thesis
  proof (cases rule: insert_resolved_cases [where req = req and p = p])
    case (stale e)
    then have "positive c req = Some e" using p0 unfolding pruned_def by (metis option.distinct(1))
    then have False using stale(2) assms(4) by simp
    then show ?thesis ..
  next
    case (fresh ids' c'')
    have c': "c'' = c'" using fresh(1) assms(5) by simp
    have "positive c' req = Some (p\<lparr>pe_request_identity := req, pe_sequence := ch_sequence c + 1\<rparr>)"
      using fresh(2) p0 assms(3) by (auto simp: c' inserted_def pruned_def)
    moreover have "cache_lookup k t c' = cache_lookup k t c \<or> cache_lookup k t c' = Absent" if "k \<noteq> req"
      using fresh(2) p0 that ok(1) unfolding c' inserted_def pruned_def cache_ok_def
      by (intro lookup_frame) (simp, metis+)
    ultimately show ?thesis by (simp add: cache_lookup_def)
  qed
qed

lemma inserted_answer_is_found_witness:
  "\<exists>c ids c'. run_cache sample_cache_ops (RouteCache_new 1) = Some c
     \<and> insert_resolved (sample_identity ''/x'') (sample_answer ''s2'' 2 2) 2 c = Some (ids, c')
     \<and> cache_lookup (sample_identity ''/x'') 11 c'
         = HitPositive (sample_answer ''s2'' 2 2\<lparr>pe_request_identity := sample_identity ''/x'', pe_sequence := 3\<rparr>)"
proof -
  let ?p = "sample_answer ''s2'' 2 2" and ?i = "sample_identity ''/x''"
  let ?old = "\<lambda>c. case map_of (ch_positives c) ?i of None \<Rightarrow> True | Some e \<Rightarrow> stale_route_entry (pe_entry e) (pe_entry ?p) = None"
  obtain c where c: "run_cache sample_cache_ops (RouteCache_new 1) = Some c"
    using run_cache_ok [OF cache_ok_new, of 1 sample_cache_ops] by (auto simp: sample_cache_ops_def RouteCache_new_def)
  have "map_option (\<lambda>c. (?old c, ch_capacity c, ch_sequence c)) (run_cache sample_cache_ops (RouteCache_new 1)) = Some (True, 1, 2)"
    by code_simp
  then have st: "?old c" "ch_capacity c = 1" "ch_sequence c = 2" using c by simp_all
  have len: "length sample_cache_ops < 2 ^ 64 - 1" by (simp add: sample_cache_ops_def)
  obtain ids c' where ins: "insert_resolved ?i ?p 2 c = Some (ids, c')"
    using insert_resolved_ok [OF reachable_cache [OF c len]] by meson
  from inserted_answer_is_found [OF c len _ _ ins] st c ins show ?thesis
    by (auto simp: sample_answer_def PositiveCacheEntry_new_def split: option.splits)
qed

end
