(* ===== verification/Frontline_Subscription.thy ===== *)
theory Frontline_Subscription
  imports Route_Cache_Runs
begin

text \<open>
  \<^verbatim>\<open>crates/frontline/src/subscription.rs\<close> and \<^verbatim>\<open>crates/frontline/src/resolver.rs\<close>: the messages
  the control plane sends on a route subscription, what they do to the cache, and the resolution of
  a request through the cache. The client that carries the messages is not part of the model: its
  answers are arguments.
\<close>

section \<open>Messages\<close>

datatype invalidation_reason = RouteRemoved | RouteChanged | InstanceChanged | BackendChanged | StreamClosed

datatype subscribe_output =
    RouteResolved string subscription_id route_identity route_entry duration
  | RouteMiss string route_identity duration
  | RouteUpdated subscription_id route_identity route_entry duration
  | RouteInvalidated subscription_id invalidation_reason

datatype apply_update_outcome =
    Replaced "subscription_id list"
  | MissingSubscription
  | UpdateStaleInstance generation generation
  | UpdateStaleBackend backend_generation backend_generation

datatype apply_outcome =
    AppliedResolved "subscription_id list"
  | AppliedMiss "subscription_id list"
  | AppliedUpdated apply_update_outcome
  | AppliedInvalidated bool

definition SubscriptionId_new :: "string \<Rightarrow> string + subscription_id" where
  "SubscriptionId_new v =
     (if trim v = [] then Inl ''subscription_id'' else Inr \<lparr>si_value = v, si_session = None\<rparr>)"

definition with_session :: "subscription_id \<Rightarrow> u64 \<Rightarrow> subscription_id" where
  "with_session sid s = sid\<lparr>si_session := Some s\<rparr>"

definition RouteRequestId_new :: "string \<Rightarrow> string + string" where
  "RouteRequestId_new v = (if trim v = [] then Inl ''request_id'' else Inr v)"

section \<open>The subscription state\<close>

text \<open>
  The state is the cache. \<^const>\<open>None\<close> is a panic or a loop of the cache that does not end.
\<close>

definition stale_update_outcome :: "stale_entry \<Rightarrow> apply_update_outcome" where
  "stale_update_outcome s =
     (case s of
        StaleInstanceGeneration c i \<Rightarrow> UpdateStaleInstance c i
      | StaleBackendGeneration c i \<Rightarrow> UpdateStaleBackend c i)"

definition apply_update ::
    "subscription_id \<Rightarrow> route_identity \<Rightarrow> route_entry \<Rightarrow> duration \<Rightarrow> instant \<Rightarrow> route_cache
     \<Rightarrow> apply_update_outcome \<times> route_cache" where
  "apply_update sid matched entry ttl now c =
     (case positive_by_subscription sid c of
        None \<Rightarrow> (MissingSubscription, c)
      | Some current \<Rightarrow>
          (case stale_route_entry (pe_entry current) entry of
             Some stale \<Rightarrow> (stale_update_outcome stale, c)
           | None \<Rightarrow> (Replaced [], replace_subscription sid matched entry ttl now c)))"

primrec apply_control_plane_message ::
    "subscribe_output \<Rightarrow> instant \<Rightarrow> route_cache \<Rightarrow> (apply_outcome \<times> route_cache) option" where
  "apply_control_plane_message (RouteResolved rid sid matched entry ttl) now c =
     map_option (map_prod AppliedResolved id) (insert_positive sid matched entry ttl now c)"
| "apply_control_plane_message (RouteMiss rid req ttl) now c =
     map_option (map_prod AppliedMiss id) (insert_negative req ttl now c)"
| "apply_control_plane_message (RouteUpdated sid matched entry ttl) now c =
     Some (map_prod AppliedUpdated id (apply_update sid matched entry ttl now c))"
| "apply_control_plane_message (RouteInvalidated sid reason) now c =
     Some (map_prod AppliedInvalidated id (invalidate_subscription sid c))"

definition apply_resolved_response ::
    "route_identity \<Rightarrow> subscribe_output \<Rightarrow> instant \<Rightarrow> route_cache \<Rightarrow> (apply_outcome \<times> route_cache) option" where
  "apply_resolved_response req message now c =
     (case message of
        RouteResolved rid sid matched entry ttl \<Rightarrow>
          map_option (map_prod AppliedResolved id)
            (insert_resolved req (PositiveCacheEntry_new sid matched entry ttl now) now c)
      | _ \<Rightarrow> apply_control_plane_message message now c)"

fun invalidate_all :: "subscription_id list \<Rightarrow> route_cache \<Rightarrow> route_cache" where
  "invalidate_all [] c = c"
| "invalidate_all (sid # sids) c = invalidate_all sids (snd (invalidate_subscription sid c))"

definition invalidate_active_subscriptions :: "route_cache \<Rightarrow> route_cache" where
  "invalidate_active_subscriptions c = invalidate_all (active_subscription_ids c) c"

definition apply_ready_wake ::
    "positive_cache_entry \<Rightarrow> route_entry \<Rightarrow> instant \<Rightarrow> route_cache \<Rightarrow> apply_update_outcome \<times> route_cache" where
  "apply_ready_wake cached ready now c =
     (let i = pe_request_identity cached in
      case map_of (ch_positives c) i of
        None \<Rightarrow> (MissingSubscription, c)
      | Some current \<Rightarrow>
          (case stale_route_entry (pe_entry current) ready of
             Some stale \<Rightarrow> (stale_update_outcome stale, c)
           | None \<Rightarrow>
               (Replaced [],
                refresh_positive i (pe_matched_identity cached) ready (pe_expires_at cached - now) now c)))"

section \<open>Resolving a request\<close>

datatype resolver_protocol_error =
    MismatchedRequestId string string
  | MismatchedMissIdentity route_identity route_identity
  | MismatchedResolvedIdentity route_identity route_identity
  | UnexpectedRouteUpdated
  | UnexpectedRouteInvalidated
  | ResponseDidNotInstallUsableCacheEntry

datatype 'e resolver_error = SubscribeError 'e | ProtocolError resolver_protocol_error

datatype frontline_resolution =
    FrontlineResolved positive_cache_entry
  | FrontlineMiss negative_cache_entry

primrec validate_subscribe_response :: "string \<Rightarrow> route_identity \<Rightarrow> subscribe_output \<Rightarrow> resolver_protocol_error + unit" where
  "validate_subscribe_response rid i (RouteResolved actual sid matched entry ttl) =
     (if actual \<noteq> rid then Inl (MismatchedRequestId rid actual)
      else if rank_match i matched = None then Inl (MismatchedResolvedIdentity i matched)
      else Inr ())"
| "validate_subscribe_response rid i (RouteMiss actual req ttl) =
     (if actual \<noteq> rid then Inl (MismatchedRequestId rid actual)
      else if req \<noteq> i then Inl (MismatchedMissIdentity i req)
      else Inr ())"
| "validate_subscribe_response rid i (RouteUpdated sid matched entry ttl) = Inl UnexpectedRouteUpdated"
| "validate_subscribe_response rid i (RouteInvalidated sid reason) = Inl UnexpectedRouteInvalidated"

text \<open>
  The resolver's state: the cache and the number of its last request. \<^verbatim>\<open>unsubscribe_outcome\<close> hands the
  released subscriptions to the client and ignores the client's errors; here they are part of the
  result.
\<close>

record route_resolver =
  fr_cache :: route_cache
  fr_next_request_id :: u64

definition route_resolver_new :: "nat \<Rightarrow> route_resolver" where
  "route_resolver_new capacity = \<lparr>fr_cache = RouteCache_new capacity, fr_next_request_id = 0\<rparr>"

definition next_request_id :: "route_resolver \<Rightarrow> string \<times> route_resolver" where
  "next_request_id r =
     (let n = (if fr_next_request_id r = - 1 then - 1 else fr_next_request_id r + 1) in
      (''req:'' @ dec_nat (unat n), r\<lparr>fr_next_request_id := n\<rparr>))"

definition unsubscribe_outcome :: "apply_outcome \<Rightarrow> subscription_id list" where
  "unsubscribe_outcome outcome =
     (case outcome of
        AppliedResolved ids \<Rightarrow> ids
      | AppliedMiss ids \<Rightarrow> ids
      | AppliedUpdated (Replaced ids) \<Rightarrow> ids
      | _ \<Rightarrow> [])"

text \<open>The events a stream delivered since the last call.\<close>

datatype subscription_event = EventUpdate subscribe_output | StreamEnded | EventStreamClosed

fun drain_subscription_events ::
    "subscription_event list \<Rightarrow> instant \<Rightarrow> route_cache \<Rightarrow> (subscription_id list \<times> route_cache) option" where
  "drain_subscription_events [] now c = Some ([], c)"
| "drain_subscription_events (EventUpdate m # es) now c =
     Option.bind (apply_control_plane_message m now c) (\<lambda>(outcome, c).
     map_option (map_prod (append (unsubscribe_outcome outcome)) id) (drain_subscription_events es now c))"
| "drain_subscription_events (_ # es) now c =
     drain_subscription_events es now (invalidate_active_subscriptions c)"

definition usable_answer :: "route_identity \<Rightarrow> instant \<Rightarrow> route_cache \<Rightarrow> frontline_resolution option" where
  "usable_answer i now c =
     (case cache_lookup i now c of
        HitPositive e \<Rightarrow> Some (FrontlineResolved e)
      | HitNegative e \<Rightarrow> Some (FrontlineMiss e)
      | Expired \<Rightarrow> None
      | Absent \<Rightarrow> None)"

text \<open>
  \<^verbatim>\<open>resolve\<close>, given the events the client has and its answer to a subscription request: the result, the
  subscriptions it gives up, and the resolver it leaves. It is \<^const>\<open>None\<close> only when the cache panics
  or loops.
\<close>

definition subscribe_and_apply ::
    "(string \<Rightarrow> route_identity \<Rightarrow> 'e + subscribe_output) \<Rightarrow> route_identity \<Rightarrow> instant \<Rightarrow> route_resolver
     \<Rightarrow> (('e resolver_error + frontline_resolution) \<times> subscription_id list \<times> route_resolver) option" where
  "subscribe_and_apply subscribe i now r =
     (let (rid, r) = next_request_id r in
      case subscribe rid i of
        Inl e \<Rightarrow> Some (Inl (SubscribeError e), [], r)
      | Inr message \<Rightarrow>
          (case validate_subscribe_response rid i message of
             Inl e \<Rightarrow> Some (Inl (ProtocolError e), [], r)
           | Inr _ \<Rightarrow>
               map_option (\<lambda>(outcome, c).
                 (case usable_answer i now c of
                    Some answer \<Rightarrow> Inr answer
                  | None \<Rightarrow> Inl (ProtocolError ResponseDidNotInstallUsableCacheEntry),
                  unsubscribe_outcome outcome, r\<lparr>fr_cache := c\<rparr>))
                 (apply_resolved_response i message now (fr_cache r))))"

definition resolve ::
    "'e + subscription_event list \<Rightarrow> (string \<Rightarrow> route_identity \<Rightarrow> 'e + subscribe_output)
     \<Rightarrow> route_identity \<Rightarrow> instant \<Rightarrow> route_resolver
     \<Rightarrow> (('e resolver_error + frontline_resolution) \<times> subscription_id list \<times> route_resolver) option" where
  "resolve events subscribe i now r =
     (case events of
        Inl e \<Rightarrow> Some (Inl (SubscribeError e), [], r)
      | Inr es \<Rightarrow>
          Option.bind (drain_subscription_events es now (fr_cache r)) (\<lambda>(ids, c).
          case usable_answer i now c of
            Some answer \<Rightarrow> Some (Inr answer, ids, r\<lparr>fr_cache := c\<rparr>)
          | None \<Rightarrow>
              map_option (map_prod id (map_prod (append ids) id))
                (subscribe_and_apply subscribe i now (r\<lparr>fr_cache := c\<rparr>))))"

definition maintain_resolver ::
    "'e + subscription_event list \<Rightarrow> instant \<Rightarrow> route_resolver
     \<Rightarrow> (('e resolver_error + unit) \<times> subscription_id list \<times> route_resolver) option" where
  "maintain_resolver events now r =
     (case events of
        Inl e \<Rightarrow> Some (Inl (SubscribeError e), [], r)
      | Inr es \<Rightarrow>
          map_option (\<lambda>(ids, c). let (expired, c) = expire now c in
            (Inr (), ids @ expired, r\<lparr>fr_cache := c\<rparr>))
            (drain_subscription_events es now (fr_cache r)))"

end
