(* ===== verification/Proxy_Protocol.thy ===== *)
theory Proxy_Protocol
  imports Frontline_Subscription
begin

text \<open>
  The messages of the proxy API between the frontline and the control plane
  (\<^verbatim>\<open>crates/sleepypods-api/proto\<close>): how \<^verbatim>\<open>control-plane/src/api/proxy.rs\<close> reads requests and
  writes responses, and how \<^verbatim>\<open>frontline/src/control_plane.rs\<close> writes requests and reads
  responses. A message is its decoded fields, where an absent field is \<^const>\<open>None\<close>; the byte
  encoding belongs to the protobuf library. As in the tables, the text of a backend address is the
  socket address it spells.
\<close>

section \<open>Messages\<close>

record pb_route_host =
  ph_kind :: int
  ph_host :: string

datatype pb_route_identity =
    PbHttp "pb_route_host option" "string option"
  | PbSni "pb_route_host option"

record pb_route_entry =
  pr_route_binding_id :: string
  pr_instance_id :: string
  pr_instance_state :: int
  pr_instance_generation :: u64
  pr_backend_uri :: "string option"
  pr_backend_generation :: "u64 option"
  pr_backend_address :: "socket_addr option"

datatype pb_subscribe_input =
    PbSubscribeRoute string "pb_route_identity option option"
  | PbUnsubscribe string

datatype pb_subscribe_output =
    PbRouteResolved string string "pb_route_identity option option" "pb_route_entry option" "u64 option"
  | PbRouteMiss string "pb_route_identity option option" "u64 option"
  | PbRouteUpdated string "pb_route_identity option option" "pb_route_entry option" "u64 option"
  | PbRouteInvalidated string int

text \<open>The numbers of the enumerations.\<close>

definition route_host_kind_to_proto :: "route_host_kind \<Rightarrow> int" where
  "route_host_kind_to_proto k = (case k of ExactHost \<Rightarrow> 1 | WildcardSuffix \<Rightarrow> 2)"

definition instance_state_to_proto :: "instance_state \<Rightarrow> int" where
  "instance_state_to_proto s =
     (case s of Cold \<Rightarrow> 1 | Waking \<Rightarrow> 2 | Running \<Rightarrow> 3 | Draining \<Rightarrow> 4 | Failed \<Rightarrow> 5 | Deleting \<Rightarrow> 6 | Deleted \<Rightarrow> 7)"

definition invalidation_reason_number :: "invalidation_reason \<Rightarrow> int" where
  "invalidation_reason_number r =
     (case r of RouteRemoved \<Rightarrow> 1 | RouteChanged \<Rightarrow> 2 | InstanceChanged \<Rightarrow> 3 | BackendChanged \<Rightarrow> 4 | StreamClosed \<Rightarrow> 5)"

text \<open>Texts of errors stay symbolic where the source quotes a value in them.\<close>

datatype wire_text = Reason string | PathReason string | StoreReason store_error

section \<open>The control plane's side\<close>

datatype status_code =
    StInvalidArgument | StNotFound | StAlreadyExists | StFailedPrecondition | StAborted | StUnavailable
  | StInternal | StResourceExhausted | StDeadlineExceeded

record grpc_status =
  st_code :: status_code
  st_text :: wire_text

definition invalid_argument :: "string \<Rightarrow> grpc_status" where
  "invalid_argument t = \<lparr>st_code = StInvalidArgument, st_text = Reason t\<rparr>"

definition store_error_to_status :: "store_error \<Rightarrow> grpc_status" where
  "store_error_to_status e =
     \<lparr>st_code =
        (case e of
           SleepDeferred _ \<Rightarrow> StFailedPrecondition
         | InvalidArgument _ \<Rightarrow> StInvalidArgument
         | NotFound _ \<Rightarrow> StNotFound
         | AlreadyExists _ \<Rightarrow> StAlreadyExists
         | GenerationConflict _ _ \<Rightarrow> StFailedPrecondition
         | ExclusivityConflict _ _ _ _ _ \<Rightarrow> StFailedPrecondition
         | LeaseConflict _ \<Rightarrow> StAborted
         | IdempotencyResourceDeleted _ \<Rightarrow> StFailedPrecondition
         | IdempotencyConflict \<Rightarrow> StAlreadyExists
         | Unavailable _ \<Rightarrow> StUnavailable
         | Internal _ \<Rightarrow> StInternal),
      st_text = StoreReason e\<rparr>"

definition cp_route_host_from_proto :: "pb_route_host \<Rightarrow> grpc_status + route_host" where
  "cp_route_host_from_proto h =
     (if ph_kind h = 1 then map_err invalid_argument (RouteHost_exact (ph_host h))
      else if ph_kind h = 2 then map_err invalid_argument (RouteHost_wildcard_suffix (ph_host h))
      else if ph_kind h = 0 then Inl (invalid_argument ''route host kind is required'')
      else Inl (invalid_argument ''route host kind is invalid''))"

definition cp_path_from_proto :: "string option \<Rightarrow> grpc_status + string option" where
  "cp_path_from_proto p =
     map_err (\<lambda>v. \<lparr>st_code = StInvalidArgument, st_text = PathReason v\<rparr>) (transposeE PathPrefix_new p)"

definition cp_route_identity_from_proto :: "pb_route_identity option \<Rightarrow> grpc_status + route_identity" where
  "cp_route_identity_from_proto i =
     (case i of
        None \<Rightarrow> Inl (invalid_argument ''route identity kind is required'')
      | Some (PbHttp host path) \<Rightarrow>
          tryE (ok_or (invalid_argument ''HTTP route host is required'') host) (\<lambda>h.
          tryE (cp_route_host_from_proto h) (\<lambda>h.
          tryE (cp_path_from_proto path) (\<lambda>p.
          Inr (HttpIdentity h p))))
      | Some (PbSni host) \<Rightarrow>
          tryE (ok_or (invalid_argument ''SNI route host is required'') host) (\<lambda>h.
          tryE (cp_route_host_from_proto h) (\<lambda>h.
          Inr (SniIdentity h))))"

definition validate_identity_size :: "pb_route_identity option \<Rightarrow> grpc_status + unit" where
  "validate_identity_size i =
     (case i of
        None \<Rightarrow> Inl (invalid_argument ''route identity required'')
      | Some k \<Rightarrow>
          (let (host, path) = (case k of PbHttp h p \<Rightarrow> (h, p) | PbSni h \<Rightarrow> (h, None)) in
           if (case host of None \<Rightarrow> False | Some h \<Rightarrow> length (ph_host h) > 253)
              \<or> (case path of None \<Rightarrow> False | Some p \<Rightarrow> length p > 4096)
           then Inl (invalid_argument ''route identity exceeds supported length'')
           else Inr ()))"

text \<open>The two sides write identities alike.\<close>

definition route_host_to_proto :: "route_host \<Rightarrow> pb_route_host" where
  "route_host_to_proto h = \<lparr>ph_kind = route_host_kind_to_proto (rh_kind h), ph_host = rh_host h\<rparr>"

definition route_identity_to_proto :: "route_identity \<Rightarrow> pb_route_identity option" where
  "route_identity_to_proto i =
     Some (case i of
        HttpIdentity h p \<Rightarrow> PbHttp (Some (route_host_to_proto h)) p
      | SniIdentity h \<Rightarrow> PbSni (Some (route_host_to_proto h)))"

definition route_entry_to_proto :: "route_entry \<Rightarrow> pb_route_entry" where
  "route_entry_to_proto e =
     \<lparr>pr_route_binding_id = re_route_binding_id e, pr_instance_id = re_instance_id e,
      pr_instance_state = instance_state_to_proto (re_instance_state e),
      pr_instance_generation = re_instance_generation e,
      pr_backend_uri = map_option be_uri (re_backend e),
      pr_backend_generation = re_backend_generation e,
      pr_backend_address = Option.bind (re_backend e) be_address\<rparr>"

definition cache_policy_to_proto :: "duration \<Rightarrow> u64" where
  "cache_policy_to_proto ttl =
     (if as_millis ttl < 2 ^ 64 then word_of_nat (as_millis ttl) else - 1)"

section \<open>The frontline's side\<close>

datatype adapter_error =
    MissingField string
  | InvalidField string wire_text
  | InvalidEnum string int
  | InvalidCacheTtl string u64

text \<open>\<^verbatim>\<open>ProxySubscribeInput\<close>\<close>

datatype proxy_subscribe_input = SubscribeRoute string route_identity | Unsubscribe subscription_id

primrec proxy_subscribe_input_to_proto :: "proxy_subscribe_input \<Rightarrow> pb_subscribe_input option" where
  "proxy_subscribe_input_to_proto (SubscribeRoute rid i) =
     Some (PbSubscribeRoute rid (Some (route_identity_to_proto i)))"
| "proxy_subscribe_input_to_proto (Unsubscribe sid) = Some (PbUnsubscribe (si_value sid))"

definition empty_field :: "string \<Rightarrow> adapter_error" where
  "empty_field f = InvalidField f (Reason (f @ '' must not be empty''))"

definition fl_instance_id :: "string \<Rightarrow> adapter_error + string" where
  "fl_instance_id v =
     map_err (\<lambda>e. InvalidField ''InstanceId'' (Reason (invalid_instance_id_text e))) (InstanceId_new v)"

definition fl_route_binding_id :: "string \<Rightarrow> adapter_error + string" where
  "fl_route_binding_id v = map_err (\<lambda>e. empty_field (es_field e)) (RouteBindingId_new v)"

definition fl_backend_endpoint :: "string \<Rightarrow> socket_addr option \<Rightarrow> adapter_error + backend_endpoint" where
  "fl_backend_endpoint uri address =
     (case address of
        Some a \<Rightarrow>
          tryE (map_err (\<lambda>e. InvalidField ''backend.address'' (Reason (''backend.address '' @ e))) (BackendAddress_new a)) (\<lambda>a.
          map_err (\<lambda>e. empty_field (es_field e)) (BackendEndpoint_with_address uri a))
      | None \<Rightarrow> map_err (\<lambda>e. empty_field (es_field e)) (BackendEndpoint_new uri))"

definition fl_route_host_from_proto :: "pb_route_host \<Rightarrow> adapter_error + route_host" where
  "fl_route_host_from_proto h =
     (if ph_kind h = 1 then map_err (\<lambda>e. InvalidField ''route_host.host'' (Reason e)) (RouteHost_exact (ph_host h))
      else if ph_kind h = 2
      then map_err (\<lambda>e. InvalidField ''route_host.host'' (Reason e)) (RouteHost_wildcard_suffix (ph_host h))
      else Inl (InvalidEnum ''route_host.kind'' (ph_kind h)))"

definition fl_route_identity_from_proto :: "pb_route_identity option \<Rightarrow> adapter_error + route_identity" where
  "fl_route_identity_from_proto i =
     (case i of
        None \<Rightarrow> Inl (MissingField ''identity.kind'')
      | Some (PbHttp host path) \<Rightarrow>
          tryE (ok_or (MissingField ''http.host'') host) (\<lambda>h.
          tryE (fl_route_host_from_proto h) (\<lambda>h.
          tryE (map_err (\<lambda>v. InvalidField ''http.path_prefix'' (PathReason v)) (transposeE PathPrefix_new path)) (\<lambda>p.
          Inr (HttpIdentity h p))))
      | Some (PbSni host) \<Rightarrow>
          tryE (ok_or (MissingField ''sni.host'') host) (\<lambda>h.
          tryE (fl_route_host_from_proto h) (\<lambda>h.
          Inr (SniIdentity h))))"

definition instance_state_from_proto :: "int \<Rightarrow> adapter_error + instance_state" where
  "instance_state_from_proto v =
     (if v = 1 then Inr Cold else if v = 2 then Inr Waking else if v = 3 then Inr Running
      else if v = 4 then Inr Draining else if v = 5 then Inr Failed else if v = 6 then Inr Deleting
      else if v = 7 then Inr Deleted else Inl (InvalidEnum ''instance_state'' v))"

definition route_entry_from_proto :: "pb_route_entry \<Rightarrow> adapter_error + route_entry" where
  "route_entry_from_proto r =
     tryE (fl_route_binding_id (pr_route_binding_id r)) (\<lambda>bid.
     tryE (fl_instance_id (pr_instance_id r)) (\<lambda>iid.
     tryE (instance_state_from_proto (pr_instance_state r)) (\<lambda>s.
     tryE (transposeE (\<lambda>uri. fl_backend_endpoint uri (pr_backend_address r)) (pr_backend_uri r)) (\<lambda>b.
     Inr \<lparr>re_route_binding_id = bid, re_instance_id = iid, re_instance_state = s,
          re_instance_generation = pr_instance_generation r, re_backend = b,
          re_backend_generation = pr_backend_generation r\<rparr>))))"

text \<open>
  \<^verbatim>\<open>Instant::checked_add\<close> fails when the seconds since the clock's origin leave the 64-bit range of
  the system's time value.
\<close>

definition instant_checked_add :: "instant \<Rightarrow> duration \<Rightarrow> instant option" where
  "instant_checked_add now d = (if int ((now + d) div 1000000000) \<le> i64_max then Some (now + d) else None)"

definition cache_policy_from_proto :: "instant \<Rightarrow> u64 \<Rightarrow> string \<Rightarrow> adapter_error + duration" where
  "cache_policy_from_proto now ttl_millis fld =
     (if ttl_millis = - 1 then Inl (InvalidCacheTtl fld ttl_millis)
      else let ttl = from_millis (unat ttl_millis) in
        if instant_checked_add now ttl = None then Inl (InvalidCacheTtl fld ttl_millis) else Inr ttl)"

definition invalidation_reason_from_proto :: "int \<Rightarrow> adapter_error + invalidation_reason" where
  "invalidation_reason_from_proto v =
     (if v = 1 then Inr RouteRemoved else if v = 2 then Inr RouteChanged else if v = 3 then Inr InstanceChanged
      else if v = 4 then Inr BackendChanged else if v = 5 then Inr StreamClosed
      else Inl (InvalidEnum ''route_invalidation.reason'' v))"

definition fl_request_id :: "string \<Rightarrow> adapter_error + string" where
  "fl_request_id v = map_err empty_field (RouteRequestId_new v)"

definition fl_subscription_id :: "string \<Rightarrow> adapter_error + subscription_id" where
  "fl_subscription_id v = map_err empty_field (SubscriptionId_new v)"

text \<open>The fields a resolution and an update share.\<close>

definition fl_route_fields ::
    "instant \<Rightarrow> pb_route_identity option option \<Rightarrow> pb_route_entry option \<Rightarrow> u64 option
     \<Rightarrow> adapter_error + route_identity \<times> route_entry \<times> duration" where
  "fl_route_fields now matched route policy =
     tryE (tryE (ok_or (MissingField ''matched_identity'') matched) fl_route_identity_from_proto) (\<lambda>i.
     tryE (tryE (ok_or (MissingField ''route'') route) route_entry_from_proto) (\<lambda>e.
     tryE (tryE (ok_or (MissingField ''cache_policy'') policy) (\<lambda>p. cache_policy_from_proto now p ''cache_policy'')) (\<lambda>ttl.
     Inr (i, e, ttl))))"

definition proxy_subscribe_response_from_proto ::
    "instant \<Rightarrow> pb_subscribe_output option \<Rightarrow> adapter_error + subscribe_output" where
  "proxy_subscribe_response_from_proto now output =
     (case output of
        None \<Rightarrow> Inl (MissingField ''output'')
      | Some (PbRouteResolved rid sid matched route policy) \<Rightarrow>
          tryE (fl_request_id rid) (\<lambda>rid.
          tryE (fl_subscription_id sid) (\<lambda>sid.
          tryE (fl_route_fields now matched route policy) (\<lambda>(i, e, ttl).
          Inr (RouteResolved rid sid i e ttl))))
      | Some (PbRouteMiss rid req policy) \<Rightarrow>
          tryE (fl_request_id rid) (\<lambda>rid.
          tryE (tryE (ok_or (MissingField ''request_identity'') req) fl_route_identity_from_proto) (\<lambda>i.
          tryE (tryE (ok_or (MissingField ''negative_cache_policy'') policy)
                  (\<lambda>p. cache_policy_from_proto now p ''negative_cache_policy'')) (\<lambda>ttl.
          Inr (RouteMiss rid i ttl))))
      | Some (PbRouteUpdated sid matched route policy) \<Rightarrow>
          tryE (fl_subscription_id sid) (\<lambda>sid.
          tryE (fl_route_fields now matched route policy) (\<lambda>(i, e, ttl).
          Inr (RouteUpdated sid i e ttl)))
      | Some (PbRouteInvalidated sid reason) \<Rightarrow>
          tryE (fl_subscription_id sid) (\<lambda>sid.
          tryE (invalidation_reason_from_proto reason) (\<lambda>r.
          Inr (RouteInvalidated sid r))))"

text \<open>The reader of a stream tags the subscriptions of a message with the stream's session.\<close>

primrec tag_session :: "u64 \<Rightarrow> subscribe_output \<Rightarrow> subscribe_output" where
  "tag_session s (RouteResolved rid sid i e ttl) = RouteResolved rid (with_session sid s) i e ttl"
| "tag_session s (RouteMiss rid i ttl) = RouteMiss rid i ttl"
| "tag_session s (RouteUpdated sid i e ttl) = RouteUpdated (with_session sid s) i e ttl"
| "tag_session s (RouteInvalidated sid r) = RouteInvalidated (with_session sid s) r"

end
