(* ===== verification/Proxy_Subscriptions.thy ===== *)
theory Proxy_Subscriptions
  imports Proxy_Protocol Route_Delivery
begin

text \<open>
  The control plane's end of a route subscription stream
  (\<^verbatim>\<open>control-plane/src/api/proxy.rs\<close>): it answers requests from the store, remembers what each
  answer depends on, and invalidates the answers a route change may have made stale. The timers of
  the stream (its lifetime, the lookup and response timeouts) and its cancellation only end it
  earlier and are left out.
\<close>

section \<open>What an answer depends on\<close>

record active_route_subscription =
  as_route_binding_id :: string
  as_instance_id :: string
  as_request_identity :: route_identity
  as_matched_identity :: route_identity
  as_protocol :: protocol_route

definition protocol_for_route_identity :: "route_identity \<Rightarrow> protocol_route" where
  "protocol_for_route_identity i = (case i of HttpIdentity _ _ \<Rightarrow> HttpProtocol | SniIdentity _ \<Rightarrow> TlsSni)"

text \<open>The derived order of \<^verbatim>\<open>RouteMatchScore\<close>.\<close>

definition score_less :: "match_score \<Rightarrow> match_score \<Rightarrow> bool" where
  "score_less a b \<longleftrightarrow> ms_host a < ms_host b \<or> ms_host a = ms_host b \<and> ms_path a < ms_path b"

definition subscription_invalidated_by_event :: "active_route_subscription \<Rightarrow> route_binding_change \<Rightarrow> bool" where
  "subscription_invalidated_by_event sub event =
     (case event of
        ResetNotice \<Rightarrow> True
      | InstanceNotice iid \<Rightarrow> as_instance_id sub = iid
      | RouteNotice bid removed identity protocol \<Rightarrow>
          if as_route_binding_id sub = bid then True
          else if removed then False
          else (case (identity, protocol) of
                  (Some i, Some p) \<Rightarrow>
                    if as_protocol sub \<noteq> p then False
                    else (case route_match_score i (as_request_identity sub) of
                            None \<Rightarrow> False
                          | Some new_score \<Rightarrow>
                              (case route_match_score (as_matched_identity sub) (as_request_identity sub) of
                                 None \<Rightarrow> True
                               | Some cached_score \<Rightarrow> score_less cached_score new_score))
                | _ \<Rightarrow> False))"

definition route_change_reason :: "route_binding_change \<Rightarrow> invalidation_reason" where
  "route_change_reason event = (case event of RouteNotice _ True _ _ \<Rightarrow> RouteRemoved | _ \<Rightarrow> RouteChanged)"

type_synonym subscriptions = "(string, active_route_subscription) hash_map"

definition invalidations_for_route_event ::
    "route_binding_change \<Rightarrow> subscriptions \<Rightarrow> subscriptions \<times> pb_subscribe_output list" where
  "invalidations_for_route_event event subs =
     (filter (\<lambda>(sid, sub). \<not> subscription_invalidated_by_event sub event) subs,
      map (\<lambda>(sid, sub). PbRouteInvalidated sid (invalidation_reason_number (route_change_reason event)))
        (filter (\<lambda>(sid, sub). subscription_invalidated_by_event sub event) subs))"

section \<open>Requests\<close>

record route_stream =
  rs_subscriptions :: subscriptions
  rs_next_number :: u64

definition route_stream_new :: route_stream where
  "route_stream_new = \<lparr>rs_subscriptions = [], rs_next_number = 0\<rparr>"

definition subscription_name :: "u64 \<Rightarrow> string" where
  "subscription_name n = ''sub:'' @ dec_nat (unat n)"

text \<open>The counter is incremented with the wrapping addition of a release build.\<close>

definition next_subscription_id :: "route_stream \<Rightarrow> string \<times> route_stream" where
  "next_subscription_id st =
     (let n = rs_next_number st + 1 in (subscription_name n, st\<lparr>rs_next_number := n\<rparr>))"

definition non_empty_field :: "string \<Rightarrow> string \<Rightarrow> grpc_status + string" where
  "non_empty_field v fld =
     (if length v > 4096 then Inl (invalid_argument (fld @ '' exceeds 4096 bytes''))
      else if is_blank v then Inl (invalid_argument (fld @ '' must not be empty''))
      else Inr v)"

definition subscription_for :: "route_identity \<Rightarrow> route_identity \<Rightarrow> route_entry \<Rightarrow> active_route_subscription" where
  "subscription_for req matched entry =
     \<lparr>as_route_binding_id = re_route_binding_id entry, as_instance_id = re_instance_id entry,
      as_request_identity = req, as_matched_identity = matched,
      as_protocol = protocol_for_route_identity matched\<rparr>"

definition subscribe_route ::
    "duration \<Rightarrow> materialization_target \<Rightarrow> store_db \<Rightarrow> string \<Rightarrow> pb_route_identity option option
     \<Rightarrow> route_stream \<Rightarrow> grpc_status + (pb_subscribe_output \<times> route_stream)" where
  "subscribe_route ttl target db rid identity st =
     tryE (non_empty_field rid ''request_id'') (\<lambda>rid.
     tryE (ok_or (invalid_argument ''identity required'') identity) (\<lambda>identity.
     tryE (validate_identity_size identity) (\<lambda>_.
     tryE (cp_route_identity_from_proto identity) (\<lambda>req.
     tryE (map_err store_error_to_status (resolve_route req target db)) (\<lambda>res.
     case res of
       Resolved matched entry \<Rightarrow>
         (let (sid, st) = next_subscription_id st in
          Inr (PbRouteResolved rid sid (Some (route_identity_to_proto matched)) (Some (route_entry_to_proto entry))
                 (Some (cache_policy_to_proto ttl)),
               st\<lparr>rs_subscriptions := AList.update sid (subscription_for req matched entry) (rs_subscriptions st)\<rparr>))
     | Miss policy \<Rightarrow>
         Inr (PbRouteMiss rid (Some (route_identity_to_proto req)) (Some (cache_policy_to_proto policy)), st))))))"

definition handle_subscribe_request ::
    "duration \<Rightarrow> materialization_target \<Rightarrow> store_db \<Rightarrow> pb_subscribe_input option
     \<Rightarrow> route_stream \<Rightarrow> grpc_status + (pb_subscribe_output option \<times> route_stream)" where
  "handle_subscribe_request ttl target db input st =
     (case input of
        None \<Rightarrow> Inl (invalid_argument ''subscribe request input is required'')
      | Some (PbSubscribeRoute rid identity) \<Rightarrow>
          tryE (subscribe_route ttl target db rid identity st) (\<lambda>(response, st). Inr (Some response, st))
      | Some (PbUnsubscribe sid) \<Rightarrow>
          tryE (non_empty_field sid ''subscription_id'') (\<lambda>sid.
          Inr (None, st\<lparr>rs_subscriptions := AList.delete sid (rs_subscriptions st)\<rparr>)))"

section \<open>The stream\<close>

text \<open>
  One turn of the stream's loop: a request, answered from the store as it is then, or a change that
  the broker delivers; \<^verbatim>\<open>StreamLagged\<close> is a receiver that fell behind the broker's buffer. The stream
  ends where the turn leaves no state.
\<close>

datatype stream_input =
    StreamRequest store_db "pb_subscribe_input option"
  | StreamEvent route_binding_change
  | StreamLagged

record stream_limits =
  sl_subscriptions_per_stream :: nat
  sl_positive_route_cache_ttl :: duration
  sl_target :: materialization_target

definition is_adding :: "pb_subscribe_input option \<Rightarrow> bool" where
  "is_adding input = (case input of Some (PbSubscribeRoute _ _) \<Rightarrow> True | _ \<Rightarrow> False)"

primrec stream_step ::
    "stream_limits \<Rightarrow> stream_input \<Rightarrow> route_stream \<Rightarrow> (grpc_status + pb_subscribe_output) list \<times> route_stream option" where
  "stream_step limits (StreamRequest db input) st =
     (if is_adding input \<and> length (rs_subscriptions st) \<ge> sl_subscriptions_per_stream limits
      then ([Inl \<lparr>st_code = StResourceExhausted, st_text = Reason ''subscription entry capacity exhausted''\<rparr>], None)
      else (case handle_subscribe_request (sl_positive_route_cache_ttl limits) (sl_target limits) db input st of
              Inl err \<Rightarrow> ([Inl err], None)
            | Inr (response, st) \<Rightarrow> (case response of None \<Rightarrow> [] | Some r \<Rightarrow> [Inr r], Some st)))"
| "stream_step limits (StreamEvent event) st =
     (if event = ResetNotice then ([], None)
      else let (subs, responses) = invalidations_for_route_event event (rs_subscriptions st) in
        (map Inr responses, Some (st\<lparr>rs_subscriptions := subs\<rparr>)))"
| "stream_step limits StreamLagged st = ([], None)"

fun stream_run ::
    "stream_limits \<Rightarrow> stream_input list \<Rightarrow> route_stream \<Rightarrow> (grpc_status + pb_subscribe_output) list \<times> route_stream option" where
  "stream_run limits [] st = ([], Some st)"
| "stream_run limits (x # xs) st =
     (case stream_step limits x st of
        (out, None) \<Rightarrow> (out, None)
      | (out, Some st) \<Rightarrow> map_prod (append out) id (stream_run limits xs st))"

end
