(* ===== verification/Route_Coherence.thy ===== *)
theory Route_Coherence
  imports Proxy_Subscriptions
begin

text \<open>
  The whole path of a route change, from the statement that makes it to the subscription it
  invalidates: whenever the store would answer a subscribed request differently, the change feed holds
  a change that invalidates the subscription, and the dispatcher and the stream deliver it.
\<close>

section \<open>Recorded changes\<close>

text \<open>A change was recorded between two databases; it may have left the retained window since.\<close>

definition logged :: "route_change \<Rightarrow> store_db \<Rightarrow> store_db \<Rightarrow> bool" where
  "logged p db db' \<longleftrightarrow> (\<exists>e. ob_payload e = p \<and> db_revision db < ob_revision e \<and> ob_revision e \<le> db_revision db'
     \<and> (\<forall>x \<in> set (db_outbox db'). ob_revision x = ob_revision e \<longrightarrow> x = e))"

lemma outbox_revision_le: "feed_ok db \<Longrightarrow> x \<in> set (db_outbox db) \<Longrightarrow> ob_revision x \<le> db_revision db"
proof -
  assume "feed_ok db" "x \<in> set (db_outbox db)"
  then obtain lo where "map ob_revision (db_outbox db) = [lo..db_revision db]" by (auto simp: feed_ok_def)
  then have "set (map ob_revision (db_outbox db)) = {lo..db_revision db}" by simp
  with \<open>x \<in> set (db_outbox db)\<close> show ?thesis by auto
qed

lemma record_logged:
  assumes rec: "record_route_changes now ps mid = Inr db'" and p: "p \<in> set ps" and feed: "feed_ok db"
    and mid: "db_revision mid = db_revision db" "db_outbox mid = db_outbox db"
  shows "logged p db db'"
proof -
  obtain i where i: "i < length ps" "ps ! i = p" using p by (auto simp: in_set_conv_nth)
  let ?e = "\<lparr>ob_revision = db_revision db + 1 + int i, ob_payload = p, ob_created_at = now\<rparr>"
  have "ps \<noteq> []" using p by auto
  then have rev: "db_revision db' = db_revision db + int (length ps)"
    and box: "set (db_outbox db') \<subseteq> set (db_outbox db) \<union> (\<lambda>(i, p). \<lparr>ob_revision = db_revision db + 1 + int i,
        ob_payload = p, ob_created_at = now\<rparr>) ` set (enumerate 0 ps)"
    using rec mid by (auto simp: record_route_changes_def tryE_Inr dest!: pg_add_Inr)
  have "x = ?e" if x: "x \<in> set (db_outbox db')" "ob_revision x = ob_revision ?e" for x
  proof -
    have "x \<notin> set (db_outbox db)" using outbox_revision_le [OF feed] x(2) by force
    then obtain j q where "(j, q) \<in> set (enumerate 0 ps)"
        "x = \<lparr>ob_revision = db_revision db + 1 + int j, ob_payload = q, ob_created_at = now\<rparr>"
      using subsetD [OF box x(1)] by auto
    with x(2) i show ?thesis by (auto simp: in_set_enumerate_eq)
  qed
  then show ?thesis
    unfolding logged_def using i rev by (intro exI [of _ ?e]) auto
qed

lemma logged_later: "logged p db mid \<Longrightarrow> outbox_extends mid db' \<Longrightarrow> logged p db db'"
  by (force simp: logged_def outbox_extends_def)

lemma logged_earlier: "outbox_extends db mid \<Longrightarrow> logged p mid db' \<Longrightarrow> logged p db db'"
  by (force simp: logged_def outbox_extends_def)

section \<open>Which changes invalidate a subscription\<close>

definition tells :: "route_change \<Rightarrow> active_route_subscription \<Rightarrow> bool" where
  "tells p sub \<longleftrightarrow> (\<exists>n. publish_durable p = Inr n \<and> subscription_invalidated_by_event sub n)"

lemma tells_instance: "is_dns_label iid \<Longrightarrow> as_instance_id sub = iid \<Longrightarrow> tells (InstanceChange iid) sub"
  by (auto simp: tells_def publish_durable_def InstanceId_new_Inr subscription_invalidated_by_event_def tryE_Inr map_err_Inr)

lemma tells_removed:
  assumes "readable_route r" "as_route_binding_id sub = rr_id r"
  shows "tells (RouteChange True r) sub"
proof -
  have "RouteBindingId_new (rr_id r) = Inr (rr_id r)"
    using assms(1) by (auto simp: readable_route_def is_ok_iff route_binding_from_row_def Let_def tryE_Inr map_err_Inr
        string_newtype_new_Inr)
  then show ?thesis
    using assms(2) by (simp add: tells_def publish_durable_def subscription_invalidated_by_event_def)
qed

lemma publish_stable:
  assumes "route_binding_from_row r = Inr r"
  shows "publish_durable (RouteChange False r)
    = Inr (RouteNotice (rr_id r) False (Some (rr_identity r)) (Some (protocol_for_route_identity (rr_identity r))))"
  using assms
  by (cases r; cases "rr_identity r"; cases "identity_host (rr_identity r)")
    (auto simp: publish_durable_def route_binding_from_row_def Let_def tryE_Inr map_err_Inr string_newtype_new_Inr
      route_identity_parts_of_def route_identity_from_parts_def route_host_from_db_def route_host_kind_to_db_def
      transposeE_def protocol_for_route_identity_def RouteHost_exact_def RouteHost_wildcard_suffix_def
      split: option.splits if_splits route_host_kind.splits)

lemma tells_better:
  assumes "route_binding_from_row r = Inr r" "protocol_for_route_identity (rr_identity r) = as_protocol sub"
    and "route_match_score (rr_identity r) (as_request_identity sub) = Some s"
    and "route_match_score (as_matched_identity sub) (as_request_identity sub) = Some s'" "score_less s' s"
  shows "tells (RouteChange False r) sub"
  using assms by (simp add: tells_def publish_stable subscription_invalidated_by_event_def)

section \<open>Selection\<close>

abbreviation route_rows :: "store_db \<Rightarrow> (string \<times> route_identity) list" where
  "route_rows db \<equiv> map (\<lambda>r. (rr_id r, rr_identity r)) (db_routes db)"

abbreviation matches :: "route_identity \<Rightarrow> route_identity \<Rightarrow> bool" where
  "matches b l \<equiv> sql_route_matches (route_identity_parts_of b) (route_identity_parts_of l)"

abbreviation before_or_at :: "string \<times> route_identity \<Rightarrow> string \<times> route_identity \<Rightarrow> bool" where
  "before_or_at x y \<equiv> sql_route_order (fst x) (route_identity_parts_of (snd x))
     \<le> sql_route_order (fst y) (route_identity_parts_of (snd y))"

lemma select_route_eqI:
  assumes "distinct (map fst rows)" "x \<in> set rows" "matches (snd x) l"
    and "\<And>y. y \<in> set rows \<Longrightarrow> matches (snd y) l \<Longrightarrow> before_or_at x y"
  shows "select_route rows l = Some x"
proof (cases "select_route rows l")
  case None
  with assms(2,3) show ?thesis by (cases x) (auto simp: select_route_None)
next
  case (Some y)
  obtain i b where y: "y = (i, b)" by (cases y)
  note best = select_route_Some [OF Some [unfolded y]]
  have "before_or_at y x" using best assms(2,3) y by (cases x) auto
  moreover have "before_or_at x y" using assms(4) best y by auto
  ultimately have "fst x = fst y" by (auto simp: sql_route_order_def)
  moreover have "inj_on fst (set rows)" "y \<in> set rows" using assms(1) best y by (auto simp: distinct_map)
  ultimately have "x = y" using assms(2) by (auto dest: inj_onD)
  with Some show ?thesis by simp
qed

lemma prefix_path:
  assumes "path_prefix_matches lp pp" "starts_with pp ''/''"
  shows "pp = ''/'' \<or> take (length pp) lp = pp"
  using assms by (auto simp: path_matches_iff starts_with_iff)

lemma same_prefix:
  assumes "path_prefix_matches lp pp" "starts_with pp ''/''" "path_prefix_matches lp qq" "starts_with qq ''/''"
    and "length pp = length qq"
  shows "pp = qq"
  using prefix_path [OF assms(1,2)] prefix_path [OF assms(3,4)] assms(2,4,5)
  by (auto simp: starts_with_iff length_Suc_conv)

lemma same_suffix: "s \<in> set (dot_suffixes h) \<Longrightarrow> s' \<in> set (dot_suffixes h) \<Longrightarrow> length s = length s' \<Longrightarrow> s = s'"
  unfolding dot_suffixes_iff by (metis append_assoc append_eq_append_conv)

text \<open>Two readable routes with the same score on a request are the same route.\<close>

definition rooted :: "route_identity \<Rightarrow> bool" where
  "rooted b = (case identity_path b of None \<Rightarrow> True | Some pp \<Rightarrow> starts_with pp ''/'')"

lemma readable_rooted: "readable_route r \<Longrightarrow> rooted (rr_identity r)"
  by (cases "rr_identity r")
    (auto simp: rooted_def readable_route_def is_ok_iff route_binding_from_row_def Let_def tryE_Inr map_err_Inr
      route_identity_parts_of_def route_identity_from_parts_def PathPrefix_new_def split: option.splits if_splits)

lemma same_score_same_host:
  assumes "length (rh_host l) < USIZE_MAX" "host_score h l = Some n" "host_score h' l = Some n"
  shows "h = h'"
proof -
  have "length s \<noteq> USIZE_MAX \<and> USIZE_MAX \<noteq> length s" if "s \<in> set (dot_suffixes (rh_host l))" for s
    using that assms(1) by (auto simp: dot_suffixes_iff)
  then show ?thesis
    using assms(2,3) same_suffix [of _ "rh_host l"] by (cases h; cases h') (auto simp: host_score_iff)
qed

lemma same_score_same_path:
  assumes "path_score p l = Some n" "path_score p' l = Some n"
    and "\<And>pp. p = Some pp \<Longrightarrow> starts_with pp ''/''" "\<And>pp. p' = Some pp \<Longrightarrow> starts_with pp ''/''"
  shows "p = p'"
proof (cases p; cases p')
  fix pp pp' assume p: "p = Some pp" "p' = Some pp'"
  then show ?thesis using assms by (auto simp: path_score_iff intro: same_prefix split: option.splits)
qed (use assms in \<open>auto simp: path_score_iff starts_with_def split: option.splits\<close>)

lemma same_score_same_route:
  assumes "length (rh_host (identity_host l)) < USIZE_MAX" "rooted b" "rooted b'"
    and "route_match_score b l = Some s" "route_match_score b' l = Some s"
  shows "b = b'"
proof (cases l)
  case (HttpIdentity lh lp)
  then obtain h p h' p' where b: "b = HttpIdentity h p" "b' = HttpIdentity h' p'"
    using assms(4,5) by (cases b; cases b') auto
  then have "h = h'"
    using assms(1,4,5) HttpIdentity by (auto simp: bind_eq_Some_conv intro: same_score_same_host [of lh])
  moreover have "p = p'"
    using assms(2-5) HttpIdentity b by (auto simp: bind_eq_Some_conv rooted_def intro: same_score_same_path [of p lp])
  ultimately show ?thesis using b by simp
next
  case (SniIdentity lh)
  with assms(1,4,5) show ?thesis
    by (cases b; cases b') (auto intro: same_score_same_host [of lh])
qed

section \<open>What each statement records\<close>

lemma insert_route_logged: "insert_route now r db = Inr db' \<Longrightarrow> feed_ok db \<Longrightarrow> logged (RouteChange False r) db db'"
  by (auto simp: insert_route_def split: if_splits intro: record_logged)

lemma delete_routes_logged:
  "delete_routes now P db = Inr (n, db') \<Longrightarrow> feed_ok db \<Longrightarrow> r \<in> set (db_routes db) \<Longrightarrow> P r \<Longrightarrow>
     logged (RouteChange True r) db db'"
  by (auto simp: delete_routes_def Let_def tryE_Inr intro: record_logged)

lemma delete_instances_logged:
  "delete_instances now P db = Inr (n, db') \<Longrightarrow> feed_ok db \<Longrightarrow> i \<in> set (db_instances db) \<Longrightarrow> P i \<Longrightarrow>
     logged (InstanceChange (ir_id i)) db db'"
  by (auto simp: delete_instances_def Let_def tryE_Inr split: if_splits intro!: record_logged)

lemma insert_materialization_logged:
  "insert_materialization now new db = Inr db' \<Longrightarrow> feed_ok db \<Longrightarrow> logged (InstanceChange (mr_instance_id new)) db db'"
  by (auto simp: insert_materialization_def tryE_Inr split: if_splits dest!: sync_one_feed intro: record_logged)

lemma update_instances_logged:
  assumes upd: "update_instances now P f db = Inr (ret, db')" and feed: "feed_ok db"
    and ij: "(i, j) \<in> set (zip (db_instances db) (db_instances db'))" "P i" "ir_generation j \<noteq> ir_generation i"
  shows "logged (InstanceChange (ir_id j)) db db'"
proof -
  obtain rows where rec: "record_route_changes now (remdups (map (InstanceChange \<circ> ir_id \<circ> snd)
        (filter (\<lambda>(old, new). (ir_state new, ir_generation new) \<noteq> (ir_state old, ir_generation old))
          (filter (P \<circ> fst) (zip (db_instances db) rows)))))
      (db\<lparr>db_instances := rows, db_watermarks := fold (\<lambda>(old, new). raise_watermark (ir_id new) (ir_generation new))
          (filter (P \<circ> fst) (zip (db_instances db) rows)) (db_watermarks db)\<rparr>) = Inr db'"
    using upd unfolding update_instances_def tryE_Inr Let_def by blast
  then have "db_instances db' = rows" using record_route_changes_frame by fastforce
  then show ?thesis
    using ij by (intro record_logged [OF rec]) (force simp: feed image_iff)+
qed

lemma update_materializations_logged:
  assumes upd: "update_materializations now P f db = Inr (ret, db')" and feed: "feed_ok db"
    and mn: "(m, n) \<in> set (zip (db_materializations db) (db_materializations db'))" "P m" "route_visible_change m n"
  shows "logged (InstanceChange (mr_instance_id n)) db db'"
  using upd
proof (rule update_materializations_parts)
  fix rows mid ps
  assume sync: "sync_rows (filter (P \<circ> fst) (zip (db_materializations db) rows)) (db\<lparr>db_materializations := rows\<rparr>) = Inr mid"
    and rec: "record_route_changes now ps mid = Inr db'"
    and ps: "ps = remdups (map (InstanceChange \<circ> mr_instance_id \<circ> snd)
       (filter (\<lambda>(old, new). route_visible_change old new) (filter (P \<circ> fst) (zip (db_materializations db) rows))))"
  have "db_materializations db' = rows"
    using record_route_changes_frame [OF rec] sync_rows_frame [OF sync] by fastforce
  then show ?thesis
    using mn sync_rows_feed [OF sync] by (intro record_logged [OF rec]) (force simp: feed ps image_iff)+
qed

section \<open>What a resolution depends on\<close>

definition selects :: "route_identity \<Rightarrow> store_db \<Rightarrow> route_row \<Rightarrow> bool" where
  "selects l db r \<longleftrightarrow> r \<in> set (db_routes db) \<and> matches (rr_identity r) l
     \<and> (\<forall>x \<in> set (db_routes db). matches (rr_identity x) l
          \<longrightarrow> before_or_at (rr_id r, rr_identity r) (rr_id x, rr_identity x))"

lemma selects_route:
  assumes "selects l db r" "routes_ok db"
  shows "select_route (route_rows db) l = Some (rr_id r, rr_identity r)"
    and "find (\<lambda>x. rr_id x = rr_id r) (db_routes db) = Some r"
proof -
  show "select_route (route_rows db) l = Some (rr_id r, rr_identity r)"
    by (rule select_route_eqI) (use assms in \<open>auto simp: selects_def routes_ok_def comp_def\<close>)
  show "find (\<lambda>x. rr_id x = rr_id r) (db_routes db) = Some r"
    using assms by (intro find_by_key) (auto simp: selects_def routes_ok_def)
qed

definition backend_columns :: "materialization_row \<Rightarrow> string option \<times> socket_addr option \<times> int" where
  "backend_columns m = (mr_backend_uri m, mr_backend_address m, mr_backend_generation m)"

lemma resolve_route_cong:
  assumes "selects l db r" "routes_ok db" "selects l db' r" "routes_ok db'"
    and "find_instance (rr_instance_id r) db' = find_instance (rr_instance_id r) db"
    and "\<And>i. find_instance (rr_instance_id r) db = Some i \<Longrightarrow>
      map_option backend_columns (ready_backend i t db') = map_option backend_columns (ready_backend i t db)"
  shows "resolve_route l t db' = resolve_route l t db"
proof (cases "find_instance (rr_instance_id r) db")
  case None
  with assms(5) show ?thesis
    by (simp add: resolve_route_def selects_route [OF assms(1,2)] selects_route [OF assms(3,4)])
next
  case (Some i)
  note cols = assms(6) [OF Some]
  have "Option.bind (ready_backend i t db') mr_backend_uri = Option.bind (ready_backend i t db) mr_backend_uri"
    "Option.bind (ready_backend i t db') mr_backend_address = Option.bind (ready_backend i t db) mr_backend_address"
    "map_option mr_backend_generation (ready_backend i t db') = map_option mr_backend_generation (ready_backend i t db)"
    using cols by (cases "ready_backend i t db"; cases "ready_backend i t db'"; simp add: backend_columns_def)+
  with Some assms(5) show ?thesis
    by (simp add: resolve_route_def Let_def selects_route [OF assms(1,2)] selects_route [OF assms(3,4)])
qed

lemma resolved_selects:
  assumes "resolve_route l t db = Inr (Resolved b e)" "routes_ok db" "payloads_ok db" "plain_host l"
  obtains r where "selects l db r" "route_binding_from_row r = Inr r"
    "subscription_for l b e = \<lparr>as_route_binding_id = rr_id r, as_instance_id = rr_instance_id r, as_request_identity = l,
       as_matched_identity = rr_identity r, as_protocol = protocol_for_route_identity (rr_identity r)\<rparr>"
proof -
  obtain r where r: "r \<in> set (db_routes db)" "rr_identity r = b" "rr_id r = re_route_binding_id e"
      "rr_instance_id r = re_instance_id e" "select_route (route_rows db) l = Some (rr_id r, b)"
    using assms by (rule resolve_route_Resolved)
  then have sel: "selects l db r"
    using select_route_Some [OF r(5)] by (auto simp: selects_def)
  moreover have "route_binding_from_row r = Inr r"
    using sel assms(3,4) by (intro matching_row_stable) (auto simp: selects_def payloads_ok_def)
  ultimately show thesis using that r by (simp add: subscription_for_def)
qed

section \<open>A statement that changes a resolution records why\<close>

abbreviation told :: "store_db \<Rightarrow> store_db \<Rightarrow> active_route_subscription \<Rightarrow> bool" where
  "told db db' sub \<equiv> (\<exists>p. logged p db db' \<and> tells p sub)"

text \<open>A subscription to the answer of the row \<^verbatim>\<open>r\<close>, in a database whose invariants hold.\<close>

definition depends :: "route_identity \<Rightarrow> route_row \<Rightarrow> active_route_subscription \<Rightarrow> bool" where
  "depends l r sub \<longleftrightarrow> route_binding_from_row r = Inr r \<and> as_route_binding_id sub = rr_id r
     \<and> as_instance_id sub = rr_instance_id r \<and> as_request_identity sub = l
     \<and> as_matched_identity sub = rr_identity r \<and> as_protocol sub = protocol_for_route_identity (rr_identity r)"

definition coherent :: "store_db \<Rightarrow> bool" where
  "coherent db \<longleftrightarrow> store_wf db \<and> feed_ok db \<and> routes_ok db \<and> payloads_ok db"

definition short_plain_host :: "route_identity \<Rightarrow> bool" where
  "short_plain_host l \<longleftrightarrow> plain_host l \<and> length (rh_host (identity_host l)) < USIZE_MAX"

lemma depends_instance: "depends l r sub \<Longrightarrow> is_dns_label (rr_instance_id r)"
  by (auto simp: depends_def route_binding_from_row_def Let_def tryE_Inr map_err_Inr InstanceId_new_Inr)

lemma told_instance:
  "depends l r sub \<Longrightarrow> logged (InstanceChange (rr_instance_id r)) db db' \<Longrightarrow> told db db' sub"
  using depends_instance tells_instance by (fastforce simp: depends_def)

lemma selects_mono:
  "selects l db r \<Longrightarrow> set (db_routes db') \<subseteq> set (db_routes db) \<Longrightarrow> r \<in> set (db_routes db') \<Longrightarrow> selects l db' r"
  by (auto simp: selects_def)

lemma better_route_told:
  assumes l: "short_plain_host l" and r: "selects l db r" "depends l r sub" "rooted (rr_identity r)"
    and new: "route_binding_from_row r' = Inr b" "matches (rr_identity r') l" "rr_identity r' \<noteq> rr_identity r"
    and better: "\<not> before_or_at (rr_id r, rr_identity r) (rr_id r', rr_identity r')"
  shows "tells (RouteChange False r') sub"
proof -
  have readable: "readable_route r'" using new(1) by (simp add: readable_route_def is_ok_iff)
  have stable: "route_binding_from_row r' = Inr r'"
    using l readable new(2) by (intro matching_row_stable) (auto simp: short_plain_host_def)
  obtain s where s: "route_match_score (rr_identity r) l = Some s"
    using r(1) sql_route_matches_score by (auto simp: selects_def)
  obtain s' where s': "route_match_score (rr_identity r') l = Some s'"
    using new(2) sql_route_matches_score by auto
  have len: "length (rh_host (identity_host l)) < USIZE_MAX" using l by (simp add: short_plain_host_def)
  have "s \<noteq> s'"
    using same_score_same_route [OF len r(3) readable_rooted [OF readable] s] s' new(3) by auto
  moreover have "before_or_at (rr_id r', rr_identity r') (rr_id r, rr_identity r)" using better by simp
  then have "(ms_host s, ms_path s, 0) < (ms_host s', ms_path s', 1 :: nat)"
    using sql_order_le_score [OF len s' s] by simp
  ultimately have "score_less s s'"
    by (cases s; cases s') (auto simp: score_less_def less_prod_def)
  moreover have "protocol_for_route_identity (rr_identity r') = protocol_for_route_identity (rr_identity r)"
    using s s' by (cases "rr_identity r"; cases "rr_identity r'"; cases l) (auto simp: protocol_for_route_identity_def)
  ultimately show ?thesis
    using r(2) s s' by (intro tells_better [OF stable]) (auto simp: depends_def)
qed

lemma selects_stmt:
  assumes "stmt db db'" "coherent db" "short_plain_host l" and r: "selects l db r" "depends l r sub"
  shows "selects l db' r \<or> told db db' sub"
proof -
  have feed: "feed_ok db" using assms(2) by (simp add: coherent_def)
  have mem: "r \<in> set (db_routes db)" using r(1) by (simp add: selects_def)
  have keep: "selects l db' r" if "db_routes db' = db_routes db"
    using r(1) that by (simp add: selects_def)
  from assms(1) show ?thesis
  proof (cases rule: stmt.cases)
    case (update_materialization now P f ret)
    then show ?thesis using keep by (auto elim!: update_materializations_frame)
  next
    case (insert_materialization now new)
    then show ?thesis using keep by (auto elim!: insert_materialization_frame)
  next
    case (update_instance now P f ret')
    then show ?thesis using keep by (auto elim!: update_instances_frame)
  next
    case (insert_instance now new' row)
    then show ?thesis using keep by (auto elim!: insert_instance_row_frame)
  next
    case (delete_instance now P' n)
    have "db_routes db' = filter (\<lambda>x. rr_instance_id x \<notin> gone_ids P' db) (db_routes db)"
      using delete_instance(1) by (rule delete_instances_frame) simp
    moreover have "told db db' sub" if "rr_instance_id r \<in> gone_ids P' db"
      using that delete_instances_logged [OF delete_instance(1) feed] told_instance [OF r(2)] by (auto simp: gone_ids_def)
    ultimately show ?thesis using selects_mono [OF r(1)] mem by fastforce
  next
    case (insert_route_binding now r' b)
    have routes: "db_routes db' = db_routes db @ [r']" using insert_route_frame [OF insert_route_binding(1)] by auto
    have "rr_identity r' \<noteq> rr_identity r"
      using insert_route_binding(1) mem by (auto simp: insert_route_def list_ex_iff split: if_splits)
    moreover have "rooted (rr_identity r)"
      using mem assms(2) by (intro readable_rooted) (auto simp: coherent_def payloads_ok_def)
    ultimately have "tells (RouteChange False r') sub"
      if "matches (rr_identity r') l" "\<not> before_or_at (rr_id r, rr_identity r) (rr_id r', rr_identity r')"
      using better_route_told [OF assms(3) r _ insert_route_binding(2)] that by blast
    then show ?thesis
      using r(1) routes insert_route_logged [OF insert_route_binding(1) feed] by (auto simp: selects_def)
  next
    case (delete_route_binding now P'' n)
    have "told db db' sub" if "P'' r"
      using that delete_routes_logged [OF delete_route_binding(1) feed mem] tells_removed [of r sub] mem assms(2) r(2)
      by (auto simp: depends_def coherent_def payloads_ok_def)
    moreover have "db_routes db' = filter (\<lambda>x. \<not> P'' x) (db_routes db)"
      using delete_routes_frame [OF delete_route_binding(1)] by auto
    ultimately show ?thesis using selects_mono [OF r(1)] mem by fastforce
  next
    case (prune now limit)
    then show ?thesis using keep by (simp add: prune_outbox_def Let_def)
  qed (use keep in simp_all)
qed

lemma find_list_all2:
  "list_all2 (\<lambda>x y. (Q x \<longleftrightarrow> Q' y) \<and> (Q x \<longrightarrow> g x = g y)) xs ys \<Longrightarrow>
     map_option g (find Q' ys) = map_option g (find Q xs)"
  by (induction rule: list_all2_induct) auto

lemma find_append_Some: "x \<in> set xs \<Longrightarrow> Q x \<Longrightarrow> find Q (xs @ ys) = find Q xs"
  by (induction xs) auto

lemma find_filter: "(\<And>x. x \<in> set xs \<Longrightarrow> Q x \<Longrightarrow> K x) \<Longrightarrow> find Q (filter K xs) = find Q xs"
  by (induction xs) auto

lemma find_append_other: "\<not> Q y \<Longrightarrow> find Q (xs @ [y]) = find Q xs"
  by (induction xs) auto

lemma find_instance_updated:
  assumes upd: "update_instances now P f db = Inr (ret, db')" and feed: "feed_ok db" and dep: "depends l r sub"
    and step: "\<And>i j. i \<in> set (db_instances db) \<Longrightarrow> P i \<Longrightarrow> f i = Inr j \<Longrightarrow> instance_step i j"
  shows "find_instance (rr_instance_id r) db' = find_instance (rr_instance_id r) db \<or> told db db' sub"
proof -
  let ?iid = "rr_instance_id r"
  have rows: "list_all2 (\<lambda>i j. (if P i then f i else Inr i) = Inr j) (db_instances db) (db_instances db')"
    using upd by (rule update_instances_frame) simp
  show ?thesis
  proof (cases "\<exists>(i, j) \<in> set (zip (db_instances db) (db_instances db')). P i \<and> ir_id i = ?iid")
    case True
    then obtain i j where ij: "(i, j) \<in> set (zip (db_instances db) (db_instances db'))" "P i" "ir_id i = ?iid" by blast
    then have "f i = Inr j" "i \<in> set (db_instances db)"
      using rows by (auto simp: list_all2_iff dest: set_zip_leftD)
    then have "instance_step i j" using step ij(2) by blast
    then have "logged (InstanceChange ?iid) db db'"
      using update_instances_logged [OF upd feed ij(1,2)] ij(3) by (simp add: instance_step_def)
    then show ?thesis using told_instance [OF dep] by blast
  next
    case False
    have "(ir_id i = ?iid \<longleftrightarrow> ir_id j = ?iid) \<and> (ir_id i = ?iid \<longrightarrow> id i = id j)"
      if "(i, j) \<in> set (zip (db_instances db) (db_instances db'))" for i j
    proof (cases "P i")
      case True
      with that rows have "f i = Inr j" "i \<in> set (db_instances db)"
        by (auto simp: list_all2_iff dest: set_zip_leftD)
      then show ?thesis using step [of i j] True False that by (auto simp: instance_step_def)
    next
      case False
      with that rows show ?thesis by (auto simp: list_all2_iff)
    qed
    then have "list_all2 (\<lambda>i j. (ir_id i = ?iid \<longleftrightarrow> ir_id j = ?iid) \<and> (ir_id i = ?iid \<longrightarrow> id i = id j))
        (db_instances db) (db_instances db')"
      using list_all2_lengthD [OF rows] unfolding list_all2_iff by blast
    from find_list_all2 [OF this] show ?thesis by (simp add: find_instance_def option.map_ident)
  qed
qed

lemma find_instance_stmt:
  assumes "stmt db db'" "coherent db" and r: "selects l db r" "depends l r sub"
  shows "find_instance (rr_instance_id r) db' = find_instance (rr_instance_id r) db \<or> told db db' sub"
proof -
  have feed: "feed_ok db" using assms(2) by (simp add: coherent_def)
  have keep: ?thesis if "db_instances db' = db_instances db"
    using that by (simp add: find_instance_def)
  obtain i where i: "i \<in> set (db_instances db)" "ir_id i = rr_instance_id r"
    using r(1) assms(2) by (force simp: coherent_def routes_ok_def selects_def)
  from assms(1) show ?thesis
  proof (cases rule: stmt.cases)
    case (update_materialization now P f ret)
    then show ?thesis using keep by (auto elim!: update_materializations_frame)
  next
    case (insert_materialization now new)
    then show ?thesis using keep by (auto elim!: insert_materialization_frame)
  next
    case (update_instance now P f ret')
    then show ?thesis using find_instance_updated [OF _ feed r(2)] by blast
  next
    case (insert_instance now new' row)
    then have "db_instances db' = db_instances db @ [row]" by (auto elim!: insert_instance_row_frame)
    with i show ?thesis by (simp add: find_instance_def find_append_Some)
  next
    case (delete_instance now P' n)
    have "db_instances db' = filter (\<lambda>i. \<not> P' i) (db_instances db)"
      using delete_instance(1) by (rule delete_instances_frame) simp
    moreover have "told db db' sub" if "j \<in> set (db_instances db)" "P' j" "ir_id j = rr_instance_id r" for j
      using delete_instances_logged [OF delete_instance(1) feed that(1,2)] told_instance [OF r(2)] that(3) by simp
    ultimately show ?thesis unfolding find_instance_def by (metis (mono_tags, lifting) find_filter)
  next
    case (insert_route_binding now r' b)
    then show ?thesis using keep by (auto dest!: insert_route_frame)
  next
    case (delete_route_binding now P'' n)
    then show ?thesis using keep by (auto dest!: delete_routes_frame)
  next
    case (prune now limit)
    then show ?thesis using keep by (simp add: prune_outbox_def Let_def)
  qed (use keep in simp_all)
qed

lemma ready_backend_updated:
  assumes upd: "update_materializations now P f db = Inr (ret, db')" and feed: "feed_ok db" and dep: "depends l r sub"
    and step: "\<And>m n. m \<in> set (db_materializations db) \<Longrightarrow> P m \<Longrightarrow> f m = Inr n \<Longrightarrow> row_step db m n"
    and i: "ir_id i = rr_instance_id r"
  shows "map_option backend_columns (ready_backend i t db') = map_option backend_columns (ready_backend i t db)
    \<or> told db db' sub"
proof -
  let ?zip = "zip (db_materializations db) (db_materializations db')"
  let ?Q = "\<lambda>m. on_target (ir_id i) t m \<and> mr_instance_generation m = ir_generation i \<and> mr_state m = Ready"
  have rows: "list_all2 (written_row P f) (db_materializations db) (db_materializations db')"
    using upd by (rule update_materializations_frame) simp
  have steps: "list_all2 (row_step db) (db_materializations db) (db_materializations db')"
    using upd step by (rule update_materializations_steps)
  show ?thesis
  proof (cases "\<exists>(m, n) \<in> set ?zip. P m \<and> route_visible_change m n \<and> mr_instance_id n = rr_instance_id r")
    case True
    then show ?thesis
      using update_materializations_logged [OF upd feed] told_instance [OF dep] by (metis (mono_tags, lifting) case_prodE)
  next
    case False
    have "(?Q m \<longleftrightarrow> ?Q n) \<and> (?Q m \<longrightarrow> backend_columns m = backend_columns n)" if mn: "(m, n) \<in> set ?zip" for m n
    proof (cases "P m \<and> mr_instance_id n = rr_instance_id r")
      case True
      then have "\<not> route_visible_change m n" using False mn by blast
      moreover have "row_step db m n" using steps mn by (auto simp: list_all2_iff)
      ultimately show ?thesis
        by (auto simp: route_visible_change_def row_step_def on_target_def backend_columns_def)
    next
      case False
      have "written_row P f m n" "row_step db m n" using rows steps mn by (auto simp: list_all2_iff)
      with False i show ?thesis by (auto simp: written_row_def row_step_def on_target_def split: if_splits)
    qed
    then have "list_all2 (\<lambda>m n. (?Q m \<longleftrightarrow> ?Q n) \<and> (?Q m \<longrightarrow> backend_columns m = backend_columns n))
        (db_materializations db) (db_materializations db')"
      using list_all2_lengthD [OF rows] unfolding list_all2_iff by blast
    from find_list_all2 [OF this] show ?thesis by (simp add: ready_backend_def)
  qed
qed

lemma ready_backend_stmt:
  assumes "stmt db db'" "coherent db" and r: "depends l r sub" "ir_id i = rr_instance_id r"
  shows "map_option backend_columns (ready_backend i t db') = map_option backend_columns (ready_backend i t db)
    \<or> told db db' sub"
proof -
  have feed: "feed_ok db" using assms(2) by (simp add: coherent_def)
  have keep: ?thesis if "db_materializations db' = db_materializations db"
    using that by (simp add: ready_backend_def)
  from assms(1) show ?thesis
  proof (cases rule: stmt.cases)
    case (update_materialization now P f ret)
    then show ?thesis using ready_backend_updated [OF _ feed r(1) _ r(2)] by blast
  next
    case (insert_materialization now new)
    have "db_materializations db' = db_materializations db @ [new]"
      using insert_materialization(1) by (rule insert_materialization_frame) simp
    moreover have "told db db' sub" if "mr_instance_id new = rr_instance_id r"
      using insert_materialization_logged [OF insert_materialization(1) feed] told_instance [OF r(1)] that by simp
    ultimately show ?thesis
      using r(2) by (cases "mr_instance_id new = rr_instance_id r") (simp_all add: ready_backend_def find_append_other on_target_def)
  next
    case (update_instance now P f ret')
    then show ?thesis using keep by (auto elim!: update_instances_frame)
  next
    case (insert_instance now new' row)
    then show ?thesis using keep by (auto elim!: insert_instance_row_frame)
  next
    case (delete_instance now P' n)
    have ms: "db_materializations db' = filter (\<lambda>m. mr_instance_id m \<notin> gone_ids P' db) (db_materializations db)"
      using delete_instance(1) by (rule delete_instances_frame) simp
    show ?thesis
    proof (cases "rr_instance_id r \<in> gone_ids P' db")
      case True
      then show ?thesis
        using delete_instances_logged [OF delete_instance(1) feed] told_instance [OF r(1)] by (auto simp: gone_ids_def)
    next
      case False
      with r(2) show ?thesis unfolding ready_backend_def ms by (subst find_filter) (auto simp: on_target_def)
    qed
  next
    case (insert_route_binding now r' b)
    then show ?thesis using keep by (auto dest!: insert_route_frame)
  next
    case (delete_route_binding now P'' n)
    then show ?thesis using keep by (auto dest!: delete_routes_frame)
  next
    case (prune now limit)
    then show ?thesis using keep by (simp add: prune_outbox_def Let_def)
  qed (use keep in simp_all)
qed

text \<open>The three dependencies together.\<close>

lemma coherent_stmts: "stmts db db' \<Longrightarrow> coherent db \<Longrightarrow> coherent db'"
  using wf.along feed.along routes.along payloads.along unfolding coherent_def by blast

lemma resolution_stmt:
  assumes "stmt db db'" "coherent db" "short_plain_host l" and r: "selects l db r" "depends l r sub"
  shows "(selects l db' r \<and> resolve_route l t db' = resolve_route l t db) \<or> told db db' sub"
proof (cases "told db db' sub")
  case False
  have ok: "routes_ok db" "routes_ok db'"
    using assms(2) coherent_stmts [OF r_into_rtranclp [of stmt, OF assms(1)] assms(2)] by (simp_all add: coherent_def)
  have sel: "selects l db' r" using selects_stmt [OF assms] False by blast
  have inst: "find_instance (rr_instance_id r) db' = find_instance (rr_instance_id r) db"
    using find_instance_stmt [OF assms(1,2) r] False by blast
  have "map_option backend_columns (ready_backend i t db') = map_option backend_columns (ready_backend i t db)"
    if "find_instance (rr_instance_id r) db = Some i" for i
    using ready_backend_stmt [OF assms(1,2) r(2)] that False by (fastforce simp: find_instance_def find_Some_iff)
  from resolve_route_cong [OF r(1) ok(1) sel ok(2) inst this] sel show ?thesis by blast
qed simp

lemma resolution_stmts:
  assumes "stmts db db'" "coherent db" "short_plain_host l" and r: "selects l db r" "depends l r sub"
  shows "(selects l db' r \<and> resolve_route l t db' = resolve_route l t db) \<or> told db db' sub"
  using assms(1)
proof (induction rule: rtranclp_induct)
  case (step mid db')
  show ?case
  proof (cases "told db mid sub")
    case True
    then show ?thesis using logged_later outbox_extends_stmt [OF step(2)] by blast
  next
    case False
    with step.IH have "selects l mid r" "resolve_route l t mid = resolve_route l t db" by blast+
    with resolution_stmt [OF step(2) coherent_stmts [OF step(1) assms(2)] assms(3) _ r(2), of t] show ?thesis
      using logged_earlier outbox_extends_stmts [OF step(1)] by metis
  qed
qed (use r in simp)

end
