(* ===== verification/Stream_Coherence.thy ===== *)
theory Stream_Coherence
  imports Route_Coherence
begin

text \<open>
  The writers, the dispatcher and a subscription stream together: an answer whose subscription is still
  registered, on a stream that is still open, is the answer the store would give now.
\<close>

section \<open>The dispatcher's cursor\<close>

definition started :: "feed_system \<Rightarrow> bool" where
  "started s \<longleftrightarrow> (\<forall>d. fd_dispatcher s = Inr d \<longrightarrow> (\<exists>c. dp_cursor d = Some c \<and> uint c \<le> db_revision (fd_db s)))"

definition cursor_behind :: "feed_system \<Rightarrow> bool" where
  "cursor_behind s \<longleftrightarrow> (\<forall>d c. fd_dispatcher s = Inr d \<longrightarrow> dp_cursor d = Some c \<longrightarrow> uint c \<le> db_revision (fd_db s))"

lemma window_end_le: "window_end c limit db \<le> db_revision db"
  by (simp add: window_end_def)

lemma tick_cursor_behind:
  assumes ok: "system_ok s" and behind: "cursor_behind s"
    and step: "fd_dispatcher (feed_step yaml (Tick fault) s) = Inr d'" "dp_cursor d' = Some c'"
  shows "uint c' \<le> db_revision (fd_db s)"
proof -
  obtain d where d: "fd_dispatcher s = Inr d" using step(1) by (cases "fd_dispatcher s") auto
  have feed: "feed_ok (fd_db s)" using ok by (simp add: system_ok_def)
  show ?thesis
  proof (cases "dp_cursor d")
    case None
    with d step revision_fits [OF feed] show ?thesis
      by (auto simp: dispatch_tick_def revision_def dest!: count_failure_cursor split: option.splits)
  next
    case (Some c)
    have c: "uint c \<le> db_revision (fd_db s)" using behind d Some by (auto simp: cursor_behind_def)
    show ?thesis
    proof (cases fault)
      case None
      from ok d Some show ?thesis
        by (cases rule: tick_cases [where yaml = yaml])
          (use step revision_fits [OF feed] window_end_fits [OF feed] window_end_le in \<open>auto simp: None\<close>)
    next
      case (Some e)
      with c d \<open>dp_cursor d = Some c\<close> step show ?thesis
        using fault_tick [OF d \<open>dp_cursor d = Some c\<close>] by (auto dest: count_failure_cursor)
    qed
  qed
qed

lemma cursor_behind_step: "system_ok s \<Longrightarrow> cursor_behind s \<Longrightarrow> cursor_behind (feed_step yaml a s)"
proof (cases a)
  case (Write x)
  assume ok: "system_ok s" "cursor_behind s"
  then have "outbox_extends (fd_db s) (exec yaml x (fd_db s))"
    by (simp add: system_ok_def exec_stmts outbox_extends_stmts)
  with ok(2) show ?thesis unfolding Write by (fastforce simp: cursor_behind_def outbox_extends_def)
next
  case (Tick fault)
  assume "system_ok s" "cursor_behind s"
  from tick_cursor_behind [OF this] show ?thesis unfolding Tick cursor_behind_def tick_db by blast
qed

lemma tick_keeps_cursor:
  assumes ok: "system_ok s" and d: "fd_dispatcher s = Inr d" "dp_cursor d \<noteq> None"
    and step: "fd_dispatcher (feed_step yaml (Tick fault) s) = Inr d'"
  shows "dp_cursor d' \<noteq> None"
proof -
  obtain c where c: "dp_cursor d = Some c" using d(2) by blast
  show ?thesis
  proof (cases fault)
    case None
    from ok d(1) c show ?thesis
      by (cases rule: tick_cases [where yaml = yaml]) (use step in \<open>auto simp: None\<close>)
  next
    case (Some e)
    then show ?thesis using step c fault_tick [OF d(1) c] by (auto dest: count_failure_cursor)
  qed
qed

lemma started_step:
  assumes "system_ok s" "cursor_behind s" "started s"
  shows "started (feed_step yaml a s)"
proof -
  have "dp_cursor d' \<noteq> None" if "fd_dispatcher (feed_step yaml a s) = Inr d'" for d'
  proof (cases a)
    case (Write x)
    with that assms(3) show ?thesis by (auto simp: started_def)
  next
    case (Tick fault)
    with that obtain d where "fd_dispatcher s = Inr d" by (cases "fd_dispatcher s") auto
    with tick_keeps_cursor [OF assms(1) this] assms(3) that Tick show ?thesis by (auto simp: started_def)
  qed
  with cursor_behind_step [OF assms(1,2), of yaml a] show ?thesis by (auto simp: started_def cursor_behind_def)
qed

section \<open>A changed resolution is announced\<close>

definition feed_coherent :: "feed_system \<Rightarrow> bool" where
  "feed_coherent s \<longleftrightarrow> system_ok s \<and> coherent (fd_db s) \<and> cursor_behind s"

lemma feed_coherent_start: "feed_coherent (feed_start t)"
  using system_ok_start [of t] routes_ok_empty [of t]
  by (simp add: feed_coherent_def coherent_def system_ok_def cursor_behind_def feed_start_def)

lemma feed_step_stmts: "store_wf (fd_db s) \<Longrightarrow> stmts (fd_db s) (fd_db (feed_step yaml a s))"
  by (cases a) (auto simp: exec_stmts tick_db simp del: feed_step.simps(2))

lemma feed_coherent_step: "feed_coherent s \<Longrightarrow> feed_coherent (feed_step yaml a s)"
  using system_ok_step cursor_behind_step coherent_stmts [OF feed_step_stmts]
  by (fastforce simp: feed_coherent_def coherent_def)

lemma feed_coherent_run: "feed_coherent s \<Longrightarrow> feed_coherent (feed_run yaml as s)"
  by (induction as arbitrary: s) (auto intro: feed_coherent_step)

lemma told_pending:
  assumes "logged p (fd_db s) (exec yaml x (fd_db s))" "started s"
  shows "\<exists>e. ob_payload e = p \<and> pending e (feed_step yaml (Write x) s)"
  using assms by (fastforce simp: logged_def pending_def started_def)

lemma resolution_run:
  assumes "feed_coherent s" "started s" "short_plain_host l" and r: "selects l (fd_db s) r" and dep: "depends l r sub"
  shows "resolve_route l t (fd_db (feed_run yaml as s)) = resolve_route l t (fd_db s)
    \<or> (\<exists>e. tells (ob_payload e) sub \<and> (pending e (feed_run yaml as s)
         \<or> delivered e (drop (length (fd_published s)) (fd_published (feed_run yaml as s)))))"
  using assms(1,2) r
proof (induction as arbitrary: s)
  case (Cons a as)
  let ?s = "feed_step yaml a s"
  obtain ns ns' where pub: "fd_published ?s = fd_published s @ ns" "fd_published (feed_run yaml as ?s) = fd_published ?s @ ns'"
    using published_grows feed_run_published by blast
  have ok: "feed_coherent ?s" "started ?s"
    using Cons.prems feed_coherent_step started_step by (auto simp: feed_coherent_def)
  have "coherent (fd_db s)" "store_wf (fd_db s)" using Cons.prems(1) by (auto simp: feed_coherent_def coherent_def)
  from resolution_stmts [OF feed_step_stmts [OF this(2)] this(1) assms(3) Cons.prems(3) dep, of yaml a t] show ?case
  proof
    assume same: "selects l (fd_db ?s) r \<and> resolve_route l t (fd_db ?s) = resolve_route l t (fd_db s)"
    with Cons.IH [OF ok] pub show ?thesis by (auto simp: delivered_def)
  next
    assume "told (fd_db s) (fd_db ?s) sub"
    then obtain p where p: "logged p (fd_db s) (fd_db ?s)" "tells p sub" by blast
    then obtain x where "a = Write x" by (cases a) (auto simp: logged_def tick_db simp del: feed_step.simps)
    with told_pending [OF _ Cons.prems(2)] p obtain e where e: "ob_payload e = p" "pending e ?s" by fastforce
    have "system_ok ?s" using ok(1) by (simp add: feed_coherent_def)
    from pending_run [OF this e(2), of yaml as] pub e p(2) show ?thesis by (auto simp: delivered_def)
  qed
qed simp

lemma resolution_announced:
  assumes "feed_coherent s" "started s" "short_plain_host l" "resolve_route l t (fd_db s) = Inr (Resolved b e)"
    and "fd_dispatcher (feed_run yaml as s) = Inr d" "dp_cursor d = Some c" "uint c = db_revision (fd_db (feed_run yaml as s))"
  shows "resolve_route l t (fd_db (feed_run yaml as s)) = resolve_route l t (fd_db s)
    \<or> (\<exists>n \<in> set (drop (length (fd_published s)) (fd_published (feed_run yaml as s))).
         subscription_invalidated_by_event (subscription_for l b e) n)"
proof -
  obtain r where r: "selects l (fd_db s) r" "depends l r (subscription_for l b e)"
    using assms(1,3) by (auto simp: feed_coherent_def coherent_def short_plain_host_def depends_def elim!: resolved_selects [OF assms(4)])
  have "\<not> pending x (feed_run yaml as s)" for x
    using assms(5-7) by (auto simp: pending_def)
  moreover have "subscription_invalidated_by_event (subscription_for l b e) ResetNotice"
    by (simp add: subscription_invalidated_by_event_def)
  ultimately show ?thesis
    using resolution_run [OF assms(1-3) r, of t yaml as] unfolding delivered_def tells_def by fastforce
qed

section \<open>The stream\<close>

text \<open>The changes among the inputs of a stream.\<close>

fun events_of :: "stream_input list \<Rightarrow> route_binding_change list" where
  "events_of [] = []"
| "events_of (StreamEvent n # xs) = n # events_of xs"
| "events_of (_ # xs) = events_of xs"

lemma subscription_name_inj: "subscription_name m = subscription_name n \<Longrightarrow> m = n"
  by (simp add: subscription_name_def word_unat_eq_iff)

abbreviation subscription :: "route_stream \<Rightarrow> string \<Rightarrow> active_route_subscription option" where
  "subscription st \<equiv> map_of (rs_subscriptions st)"

lemma map_of_filter_value:
  "distinct (map fst xs) \<Longrightarrow> map_of (filter (\<lambda>(k, v). K v) xs) k
     = (case map_of xs k of Some v \<Rightarrow> if K v then Some v else None | None \<Rightarrow> None)"
proof (induction xs)
  case (Cons x xs)
  obtain k' v where x: "x = (k', v)" by (cases x)
  with Cons show ?case by (auto simp: map_of_eq_None_iff [symmetric] dest!: sym [of None] split: option.splits)
qed simp

text \<open>One turn: an unchanged stream, a new name, or fewer names.\<close>

lemma subscribe_route_Inr:
  assumes "subscribe_route ttl t db rid identity st = Inr (resp, st')"
  obtains (hit) pb req matched entry where "identity = Some pb" "validate_identity_size pb = Inr ()"
      "cp_route_identity_from_proto pb = Inr req" "resolve_route req t db = Inr (Resolved matched entry)"
      "resp = PbRouteResolved rid (subscription_name (rs_next_number st + 1)) (Some (route_identity_to_proto matched))
        (Some (route_entry_to_proto entry)) (Some (cache_policy_to_proto ttl))"
      "st' = st\<lparr>rs_next_number := rs_next_number st + 1, rs_subscriptions := AList.update
        (subscription_name (rs_next_number st + 1)) (subscription_for req matched entry) (rs_subscriptions st)\<rparr>"
  | (miss) req policy where "resp = PbRouteMiss rid (Some (route_identity_to_proto req)) (Some (cache_policy_to_proto policy))"
      "st' = st"
proof -
  obtain pb req res where parts: "identity = Some pb" "validate_identity_size pb = Inr ()"
      "cp_route_identity_from_proto pb = Inr req" "resolve_route req t db = Inr res"
    and "non_empty_field rid ''request_id'' = Inr rid"
    using assms unfolding subscribe_route_def tryE_Inr map_err_Inr
    by (auto simp: non_empty_field_def ok_or_def split: option.splits if_splits)
  with assms show thesis
    by (cases res) (auto simp: subscribe_route_def next_subscription_id_def Let_def ok_or_def intro: hit miss)
qed

lemma handle_subscribe_request_cases:
  assumes "handle_subscribe_request ttl t db input st = Inr (resp, st')"
  obtains (same) "st' = st"
  | (added) sub where "st' = st\<lparr>rs_next_number := rs_next_number st + 1,
      rs_subscriptions := AList.update (subscription_name (rs_next_number st + 1)) sub (rs_subscriptions st)\<rparr>"
  | (removed) sid where "st' = st\<lparr>rs_subscriptions := AList.delete sid (rs_subscriptions st)\<rparr>"
proof (cases input)
  case (Some i)
  show thesis
  proof (cases i)
    case (PbSubscribeRoute rid identity)
    with assms Some obtain resp' where "subscribe_route ttl t db rid identity st = Inr (resp', st')"
      by (auto simp: handle_subscribe_request_def tryE_Inr)
    then show thesis by (cases rule: subscribe_route_Inr) (use same added in auto)
  next
    case (PbUnsubscribe sid)
    then show thesis using assms Some removed by (auto simp: handle_subscribe_request_def tryE_Inr)
  qed
qed (use assms in \<open>simp add: handle_subscribe_request_def\<close>)

lemma stream_step_cases:
  assumes "stream_step limits x st = (out, Some st')"
  obtains (same) "st' = st" "events_of [x] = []"
  | (added) sub where "st' = st\<lparr>rs_next_number := rs_next_number st + 1,
      rs_subscriptions := AList.update (subscription_name (rs_next_number st + 1)) sub (rs_subscriptions st)\<rparr>"
      "events_of [x] = []"
  | (removed) sid where "st' = st\<lparr>rs_subscriptions := AList.delete sid (rs_subscriptions st)\<rparr>" "events_of [x] = []"
  | (event) n where "x = StreamEvent n" "st' = st\<lparr>rs_subscriptions := filter (\<lambda>(sid, sub).
      \<not> subscription_invalidated_by_event sub n) (rs_subscriptions st)\<rparr>"
proof (cases x)
  case (StreamRequest db input)
  then obtain resp where "handle_subscribe_request (sl_positive_route_cache_ttl limits) (sl_target limits) db input st = Inr (resp, st')"
    using assms by (auto split: if_splits sum.splits)
  then show thesis
    by (cases rule: handle_subscribe_request_cases) (use that StreamRequest in auto)
next
  case (StreamEvent n)
  with assms event show thesis by (auto simp: invalidations_for_route_event_def split: if_splits)
qed (use assms in simp)

lemma stream_step_distinct:
  "stream_step limits x st = (out, Some st') \<Longrightarrow> distinct (map fst (rs_subscriptions st)) \<Longrightarrow>
     distinct (map fst (rs_subscriptions st'))"
  by (erule stream_step_cases) (auto simp: distinct_update distinct_delete intro: distinct_map_filter)

text \<open>The counter never passes a name twice, so a name that is gone stays gone.\<close>

definition allocated :: "u64 \<Rightarrow> route_stream \<Rightarrow> nat \<Rightarrow> bool" where
  "allocated n st k \<longleftrightarrow> unat n \<le> unat (rs_next_number st) \<and> unat (rs_next_number st) + k < 2 ^ 64"

lemma unat_next: "unat (n :: u64) + Suc k < 2 ^ 64 \<Longrightarrow> unat (n + 1) = unat n + 1"
  using unat_add_lem [of n 1] by simp

lemma allocated_step:
  assumes "stream_step limits x st = (out, Some st')" "allocated n st (Suc k)"
  shows "allocated n st' k"
  using assms(1) by (cases rule: stream_step_cases) (use assms(2) unat_next in \<open>auto simp: allocated_def\<close>)

lemma stream_step_subscription:
  assumes "stream_step limits x st = (out, Some st')" "distinct (map fst (rs_subscriptions st))"
    and "allocated n st (Suc k)" "subscription st' (subscription_name n) = Some sub"
  shows "subscription st (subscription_name n) = Some sub \<and> (\<forall>ev \<in> set (events_of [x]). \<not> subscription_invalidated_by_event sub ev)"
  using assms(1)
proof (cases rule: stream_step_cases)
  case (added sub')
  have "rs_next_number st + 1 \<noteq> n"
    using assms(3) unat_next by (auto simp: allocated_def)
  with added assms(4) show ?thesis by (auto simp: update_conv' dest: subscription_name_inj split: if_splits)
next
  case (removed sid)
  with assms(4) show ?thesis by (auto simp: delete_conv' split: if_splits)
next
  case (event ev)
  with assms(2,4) show ?thesis by (auto simp: map_of_filter_value split: option.splits if_splits)
qed (use assms(4) in simp_all)

lemma stream_run_Cons:
  assumes "stream_run limits (x # xs) st = (out, Some st')"
  obtains out1 st1 out2 where "stream_step limits x st = (out1, Some st1)" "stream_run limits xs st1 = (out2, Some st')"
proof -
  obtain out1 o1 where step: "stream_step limits x st = (out1, o1)" by fastforce
  with assms obtain st1 where "o1 = Some st1" by (cases o1) auto
  with assms step that show thesis by (cases "stream_run limits xs st1") auto
qed

lemma stream_run_subscription:
  assumes "stream_run limits xs st = (out, Some st')" "distinct (map fst (rs_subscriptions st))"
    and "allocated n st (length xs)" "subscription st' (subscription_name n) = Some sub"
  shows "subscription st (subscription_name n) = Some sub \<and> (\<forall>ev \<in> set (events_of xs). \<not> subscription_invalidated_by_event sub ev)"
  using assms(1-3)
proof (induction xs arbitrary: st out)
  case (Cons x xs)
  obtain out1 st1 out2 where step: "stream_step limits x st = (out1, Some st1)"
      and rest: "stream_run limits xs st1 = (out2, Some st')"
    using Cons.prems(1) by (rule stream_run_Cons)
  have "subscription st1 (subscription_name n) = Some sub \<and> (\<forall>ev \<in> set (events_of xs). \<not> subscription_invalidated_by_event sub ev)"
    using Cons.IH [OF rest stream_step_distinct [OF step Cons.prems(2)]] allocated_step [OF step] Cons.prems(3) by simp
  moreover have "set (events_of (x # xs)) = set (events_of [x]) \<union> set (events_of xs)" by (cases x) auto
  ultimately show ?case
    using stream_step_subscription [OF step Cons.prems(2)] Cons.prems(3) by (auto simp del: events_of.simps)
qed (use assms(4) in simp)

lemma stream_run_distinct:
  "stream_run limits xs st = (out, Some st') \<Longrightarrow> distinct (map fst (rs_subscriptions st)) \<Longrightarrow>
     distinct (map fst (rs_subscriptions st'))"
proof (induction xs arbitrary: st out)
  case (Cons x xs)
  from Cons.prems(1) show ?case by (rule stream_run_Cons) (use Cons stream_step_distinct in blast)
qed simp

section \<open>Requests\<close>

lemma length_concat_dropWhile: "length (concat (dropWhile P xs)) \<le> length (concat xs)"
  by (induction xs) auto

lemma length_trim: "length (trim s) \<le> length s"
proof -
  have rev: "length (concat (rev xs)) = length (concat xs)" for xs :: "string list"
    by (induction xs) auto
  let ?a = "dropWhile is_whitespace (utf8_chars s)"
  have "length (trim s) = length (concat (dropWhile is_whitespace (rev ?a)))"
    by (simp add: trim_def rev)
  also have "\<dots> \<le> length (concat ?a)" using length_concat_dropWhile [of is_whitespace "rev ?a"] by (simp add: rev)
  also have "\<dots> \<le> length s" using length_concat_dropWhile [of is_whitespace "utf8_chars s"] by simp
  finally show ?thesis .
qed

lemma normalize_host_length: "normalize_host v w = Inr h \<Longrightarrow> length h \<le> length v"
proof -
  assume h: "normalize_host v w = Inr h"
  have "length (to_ascii_lowercase (trim_end_dots (trim v))) \<le> length v"
    using length_dropWhile_le [of "\<lambda>c. c = CHR ''.''" "rev (trim v)"] length_trim [of v]
    by (simp add: to_ascii_lowercase_def trim_end_dots_def)
  with h show ?thesis
    by (auto simp: normalize_host_def Let_def strip_prefix_Some split: if_splits option.splits)
qed

text \<open>A request the stream accepts has a short host, already normalised.\<close>

lemma accepted_request:
  assumes "validate_identity_size pb = Inr ()" "cp_route_identity_from_proto pb = Inr l"
    and "visible_ascii (rh_host (identity_host l))"
  shows "short_plain_host l"
proof -
  obtain h w where h: "normalize_host h w = Inr (rh_host (identity_host l))" "length h \<le> 253"
    using assms(1,2)
    by (auto simp: cp_route_identity_from_proto_def cp_route_host_from_proto_def validate_identity_size_def tryE_Inr
        map_err_Inr RouteHost_exact_def RouteHost_wildcard_suffix_def not_less
        split: option.splits pb_route_identity.splits if_splits)
  then have "length (rh_host (identity_host l)) \<le> 253" using normalize_host_length by fastforce
  then show ?thesis
    using normalize_host_stable [OF h(1) visible_no_whitespace [OF assms(3)]] assms(3)
    by (simp add: short_plain_host_def plain_host_def USIZE_MAX_def)
qed

text \<open>
  C1. Subscribed answers stay current. A stream answers a request with a resolution while the
  dispatcher is running. Later, when the dispatcher has caught up with the store, after any
  interleaving of store operations, polls and store failures, and the stream has processed the
  changes published in between, among any further requests: if the stream is still open and the
  subscription still registered, then the store would resolve the request to exactly the route that
  the stream answered. The request's host is visible ASCII, and fewer than \<^verbatim>\<open>2^64\<close> subscriptions were
  numbered.
\<close>

theorem live_subscription_is_current:
  assumes start: "s = feed_run yaml as (feed_start t)" "fd_dispatcher s = Inr d" "dp_cursor d = Some c"
    and stream: "stream_run limits before route_stream_new = (out, Some st)"
    and answer: "stream_step limits (StreamRequest (fd_db s) (Some (PbSubscribeRoute rid (Some pb)))) st
        = ([Inr (PbRouteResolved rid' sid matched route policy)], Some st1)"
    and request: "cp_route_identity_from_proto pb = Inr l" "visible_ascii (rh_host (identity_host l))"
    and later: "s' = feed_run yaml bs s" "fd_dispatcher s' = Inr d'" "dp_cursor d' = Some c'" "uint c' = db_revision (fd_db s')"
    and events: "stream_run limits ins st1 = (out', Some st2)" "events_of ins = drop (length (fd_published s)) (fd_published s')"
    and live: "sid \<in> fst ` set (rs_subscriptions st2)" "unat (rs_next_number st) + Suc (length ins) < 2 ^ 64"
  shows "\<exists>b e. resolve_route l (sl_target limits) (fd_db s') = Inr (Resolved b e)
    \<and> matched = Some (route_identity_to_proto b) \<and> route = Some (route_entry_to_proto e)"
proof -
  have "subscribe_route (sl_positive_route_cache_ttl limits) (sl_target limits) (fd_db s) rid (Some pb) st
      = Inr (PbRouteResolved rid' sid matched route policy, st1)"
    using answer by (auto simp: handle_subscribe_request_def tryE_Inr split: if_splits sum.splits option.splits)
  then obtain b e where res: "validate_identity_size pb = Inr ()" "resolve_route l (sl_target limits) (fd_db s) = Inr (Resolved b e)"
      "sid = subscription_name (rs_next_number st + 1)" "matched = Some (route_identity_to_proto b)" "route = Some (route_entry_to_proto e)"
      and st1: "st1 = st\<lparr>rs_next_number := rs_next_number st + 1, rs_subscriptions :=
        AList.update sid (subscription_for l b e) (rs_subscriptions st)\<rparr>"
    by (cases rule: subscribe_route_Inr) (use request(1) in auto)
  have ok: "feed_coherent s" unfolding start(1) by (intro feed_coherent_run feed_coherent_start)
  then have "started s" using start(2,3) by (auto simp: started_def feed_coherent_def cursor_behind_def)
  note announced = resolution_announced [OF ok this accepted_request [OF res(1) request] res(2), of yaml bs, folded later(1), OF later(2-4)]
  have dist: "distinct (map fst (rs_subscriptions st1))"
    using stream_run_distinct [OF stream] by (simp add: st1 route_stream_new_def distinct_update)
  obtain sub where sub: "subscription st2 sid = Some sub" using live(1) by (metis not_None_eq map_of_eq_None_iff)
  have "allocated (rs_next_number st + 1) st1 (length ins)"
    using live(2) unat_next [OF live(2)] by (simp add: allocated_def st1)
  from stream_run_subscription [OF events(1) dist this sub [unfolded res(3)]]
  have "subscription st1 sid = Some sub" "\<forall>ev \<in> set (events_of ins). \<not> subscription_invalidated_by_event sub ev"
    by (simp_all add: res(3))
  with announced events(2) have "resolve_route l (sl_target limits) (fd_db s') = Inr (Resolved b e)"
    by (auto simp: st1 update_conv' res(2))
  with res show ?thesis by blast
qed

text \<open>An instance with a route; while a client is subscribed to it, another instance is created.\<close>

definition sample_before :: "feed_action list" where
  "sample_before = map Write (take 2 sample_setup) @ [Tick None]"

definition sample_after :: "feed_action list" where
  "sample_after =
     [Write (CreateInstance (\<lambda>n. 0) None (sample_create\<lparr>cr_idempotency_key := ''k2'', cr_instance_id := ''b'',
        cr_route_bindings := [\<lparr>bs_identity = SniIdentity \<lparr>rh_kind = ExactHost, rh_host = ''a.b''\<rparr>, bs_protocol = TlsSni\<rparr>]\<rparr>)),
      Tick None]"

definition sample_limits :: stream_limits where
  "sample_limits = \<lparr>sl_subscriptions_per_stream = 10, sl_positive_route_cache_ttl = 10000000000, sl_target = sample_target\<rparr>"

definition sample_lookup :: route_identity where
  "sample_lookup = HttpIdentity \<lparr>rh_kind = ExactHost, rh_host = ''a.b''\<rparr> (Some ''/x'')"

definition sample_entry :: route_entry where
  "sample_entry = \<lparr>re_route_binding_id = ''a:route:1'', re_instance_id = ''a'', re_instance_state = Cold,
     re_instance_generation = 0, re_backend = None, re_backend_generation = None\<rparr>"

definition sample_stream :: route_stream where
  "sample_stream = \<lparr>rs_subscriptions = [(''sub:1'', subscription_for sample_lookup (bs_identity sample_route) sample_entry)],
     rs_next_number = 1\<rparr>"

lemma sample_subscription_evaluated:
  "fd_dispatcher (feed_run no_yaml sample_before (feed_start 600)) = Inr \<lparr>dp_cursor = Some 2, dp_failures = 0\<rparr>"
  "stream_step sample_limits (StreamRequest (fd_db (feed_run no_yaml sample_before (feed_start 600)))
      (Some (PbSubscribeRoute ''r'' (Some (route_identity_to_proto sample_lookup))))) route_stream_new
    = ([Inr (PbRouteResolved ''r'' ''sub:1'' (Some (route_identity_to_proto (bs_identity sample_route)))
        (Some (route_entry_to_proto sample_entry)) (Some 10000))], Some sample_stream)"
  "cp_route_identity_from_proto (route_identity_to_proto sample_lookup) = Inr sample_lookup"
  "fd_dispatcher (feed_run no_yaml sample_after (feed_run no_yaml sample_before (feed_start 600)))
    = Inr \<lparr>dp_cursor = Some 4, dp_failures = 0\<rparr>"
  "db_revision (fd_db (feed_run no_yaml sample_after (feed_run no_yaml sample_before (feed_start 600)))) = 4"
  "drop (length (fd_published (feed_run no_yaml sample_before (feed_start 600))))
     (fd_published (feed_run no_yaml sample_after (feed_run no_yaml sample_before (feed_start 600))))
    = [InstanceNotice ''b'', RouteNotice ''b:route:1'' False (Some (SniIdentity \<lparr>rh_kind = ExactHost, rh_host = ''a.b''\<rparr>)) (Some TlsSni)]"
  "stream_run sample_limits [StreamEvent (InstanceNotice ''b''), StreamEvent (RouteNotice ''b:route:1'' False
      (Some (SniIdentity \<lparr>rh_kind = ExactHost, rh_host = ''a.b''\<rparr>)) (Some TlsSni))] sample_stream = ([], Some sample_stream)"
  by code_simp+

lemma live_subscription_is_current_witness:
  "\<exists>b e. resolve_route sample_lookup sample_target
      (fd_db (feed_run no_yaml sample_after (feed_run no_yaml sample_before (feed_start 600)))) = Inr (Resolved b e)
    \<and> Some (route_identity_to_proto (bs_identity sample_route)) = Some (route_identity_to_proto b)
    \<and> Some (route_entry_to_proto sample_entry) = Some (route_entry_to_proto e)"
proof -
  have "stream_run sample_limits [] route_stream_new = ([], Some route_stream_new)"
    "visible_ascii (rh_host (identity_host sample_lookup))" "''sub:1'' \<in> fst ` set (rs_subscriptions sample_stream)"
    by code_simp+
  note facts = this
  from live_subscription_is_current [OF HOL.refl sample_subscription_evaluated(1) _ facts(1) sample_subscription_evaluated(2,3)
      facts(2) HOL.refl sample_subscription_evaluated(4) _ _ sample_subscription_evaluated(7) _ facts(3)]
  show ?thesis
    by (simp add: sample_subscription_evaluated(5,6) sample_limits_def route_stream_new_def)
qed

text \<open>
  The dispatcher has to be running before the answer is given. Until its first tick it has no cursor,
  and its first tick skips what was recorded before it: a wake accepted between the answer and that
  tick changes the resolution, the dispatcher catches up, and nothing is ever published.
\<close>

theorem change_before_first_tick_unannounced:
  "let s = feed_run no_yaml (map Write (take 2 sample_setup)) (feed_start 600);
       s' = feed_run no_yaml (map Write (drop 2 sample_setup) @ [Tick None, Tick None]) s in
   resolve_route sample_lookup sample_target (fd_db s) = Inr (Resolved (bs_identity sample_route) sample_entry)
   \<and> resolve_route sample_lookup sample_target (fd_db s') \<noteq> resolve_route sample_lookup sample_target (fd_db s)
   \<and> fd_dispatcher s' = Inr \<lparr>dp_cursor = Some (revision (fd_db s')), dp_failures = 0\<rparr>
   \<and> fd_published s' = []"
  by code_simp

end
