(* ===== verification/Proxy_Answers.thy ===== *)
theory Proxy_Answers
  imports Stream_Coherence
begin

text \<open>
  The answer to a subscription request across both programs: the frontline writes the request, the
  control plane reads it, resolves it in the store and writes the answer, the frontline reads and
  validates it.
\<close>

section \<open>Identities and entries survive the wire\<close>

definition stable_identity :: "route_identity \<Rightarrow> bool" where
  "stable_identity i \<longleftrightarrow> normalize_host (rh_host (identity_host i)) (rh_kind (identity_host i) = WildcardSuffix)
     = Inr (rh_host (identity_host i)) \<and> rooted i"

lemmas wire_identity_defs = route_identity_to_proto_def route_host_to_proto_def route_host_kind_to_proto_def
  RouteHost_exact_def RouteHost_wildcard_suffix_def transposeE_def PathPrefix_new_def

lemma cp_reads_identity:
  "stable_identity i \<Longrightarrow> cp_route_identity_from_proto (route_identity_to_proto i) = Inr i"
  by (cases i; cases "identity_host i")
    (auto simp: stable_identity_def rooted_def wire_identity_defs cp_route_identity_from_proto_def
      cp_route_host_from_proto_def cp_path_from_proto_def split: route_host_kind.splits option.splits)

lemma fl_reads_identity:
  "stable_identity i \<Longrightarrow> fl_route_identity_from_proto (route_identity_to_proto i) = Inr i"
  by (cases i; cases "identity_host i")
    (auto simp: stable_identity_def rooted_def wire_identity_defs fl_route_identity_from_proto_def
      fl_route_host_from_proto_def split: route_host_kind.splits option.splits)

lemma instance_state_round_trip: "instance_state_from_proto (instance_state_to_proto s) = Inr s"
  by (cases s) (simp_all add: instance_state_from_proto_def instance_state_to_proto_def)

lemma fl_reads_entry:
  assumes "\<not> is_blank (re_route_binding_id e)" "is_dns_label (re_instance_id e)"
    and "backend_endpoint_from_row uri address = Inr (re_backend e)"
  shows "route_entry_from_proto (route_entry_to_proto e) = Inr e"
proof -
  have "transposeE (\<lambda>uri. fl_backend_endpoint uri (Option.bind (re_backend e) be_address)) (map_option be_uri (re_backend e))
      = Inr (re_backend e)"
    using assms(3)
    by (auto simp: backend_endpoint_from_row_def transposeE_def fl_backend_endpoint_def tryE_Inr map_err_Inr
        BackendEndpoint_with_address_def BackendEndpoint_new_def NonEmptyString_new_def BackendAddress_new_def
        split: option.splits if_splits)
  moreover have "fl_route_binding_id (re_route_binding_id e) = Inr (re_route_binding_id e)"
    "fl_instance_id (re_instance_id e) = Inr (re_instance_id e)"
    using assms(1,2) by (simp_all add: fl_route_binding_id_def fl_instance_id_def map_err_Inr string_newtype_new_Inr InstanceId_new_Inr)
  ultimately show ?thesis
    by (simp add: route_entry_from_proto_def route_entry_to_proto_def instance_state_round_trip)
qed

lemma cache_policy_round_trip:
  assumes "as_millis ttl < 2 ^ 64 - 1" "int ((now + ttl) div 1000000000) \<le> i64_max"
  shows "cache_policy_from_proto now (cache_policy_to_proto ttl) f = Inr (from_millis (as_millis ttl))"
proof -
  have n: "unat (word_of_nat (as_millis ttl) :: u64) = as_millis ttl"
    using assms(1) by (simp add: unsigned_of_nat take_bit_nat_eq_self)
  moreover have "unat (- 1 :: u64) = 2 ^ 64 - 1" by (simp add: unsigned_minus_1_eq_mask mask_eq_exp_minus_1)
  ultimately have "(word_of_nat (as_millis ttl) :: u64) \<noteq> - 1" using assms(1) by (metis less_irrefl)
  moreover have "(now + from_millis (as_millis ttl)) div 1000000000 \<le> (now + ttl) div 1000000000"
    by (intro div_le_mono) (simp add: from_millis_def as_millis_def)
  ultimately show ?thesis
    using assms n by (simp add: cache_policy_from_proto_def cache_policy_to_proto_def instant_checked_add_def Let_def)
qed

section \<open>Answers\<close>

lemma stable_row: "route_binding_from_row r = Inr r \<Longrightarrow> stable_identity (rr_identity r)"
  by (cases r; cases "rr_identity r"; cases "identity_host (rr_identity r)")
    (auto simp: stable_identity_def rooted_def route_binding_from_row_def Let_def tryE_Inr map_err_Inr
      route_identity_parts_of_def route_identity_from_parts_def route_host_from_db_def route_host_kind_to_db_def
      RouteHost_exact_def RouteHost_wildcard_suffix_def PathPrefix_new_def
      split: option.splits if_splits route_host_kind.splits)

lemma plain_stable:
  assumes "plain_host l" "rooted l"
  shows "stable_identity l"
  using assms normalize_host_stable [of _ False, OF _ visible_no_whitespace] by (auto simp: plain_host_def stable_identity_def)

lemma resolved_entry_readable:
  assumes "resolve_route l t db = Inr (Resolved b e)"
  shows "route_entry_from_proto (route_entry_to_proto e) = Inr e"
proof -
  obtain row route uri address where "route_binding_from_row row = Inr route" "re_route_binding_id e = rr_id route"
      "re_instance_id e = rr_instance_id route" and b: "backend_endpoint_from_row uri address = Inr (re_backend e)"
    using assms by (auto simp: resolve_route_def Let_def tryE_Inr split: option.splits)
  then have "\<not> is_blank (re_route_binding_id e)" "is_dns_label (re_instance_id e)"
    by (auto simp: route_binding_from_row_def Let_def tryE_Inr map_err_Inr string_newtype_new_Inr InstanceId_new_Inr)
  from this b show ?thesis by (rule fl_reads_entry)
qed

definition answer_of :: "string \<Rightarrow> u64 \<Rightarrow> route_identity \<Rightarrow> duration \<Rightarrow> route_resolution \<Rightarrow> subscribe_output" where
  "answer_of rid n l ttl res =
     (case res of
        Resolved b e \<Rightarrow> RouteResolved rid \<lparr>si_value = subscription_name n, si_session = None\<rparr> b e (from_millis (as_millis ttl))
      | Miss policy \<Rightarrow> RouteMiss rid l (from_millis (as_millis policy)))"

lemma resolve_route_Miss_policy: "resolve_route l t db = Inr (Miss policy) \<Longrightarrow> policy = NEGATIVE_CACHE_TTL"
  by (auto simp: resolve_route_def Let_def tryE_Inr split: option.splits)

lemma subscription_name_ok: "SubscriptionId_new (subscription_name n) = Inr \<lparr>si_value = subscription_name n, si_session = None\<rparr>"
proof -
  have "\<not> is_blank (subscription_name n)"
    by (rule first_alphanumeric_not_blank)
      (simp add: subscription_name_def first_is_def is_ascii_alphanumeric_def is_ascii_lowercase_def byte_def)
  then show ?thesis by (simp add: SubscriptionId_new_def is_blank_def)
qed

text \<open>
  C13. The frontline understands what the control plane answers. For a request that the
  frontline writes, with a normalised visible ASCII host and a path (or an SNI name) within the size limits, on any
  reachable database: the control plane answers with the resolution of the store, or with its error;
  the frontline reads the answer back as exactly that route, the same identity and entry, with the lifetime
  in whole milliseconds, and its validation of the answer accepts it.
\<close>

theorem frontline_understands_answer:
  assumes db: "db = run yaml ops (empty_db t0)" and l: "plain_host l" "rooted l" "has_path l"
    and size: "length (rh_host (identity_host l)) \<le> 253" "\<And>p. identity_path l = Some p \<Longrightarrow> length p \<le> 4096"
    and rid: "\<not> is_blank rid" "length rid \<le> 4096"
    and ttl: "as_millis ttl < 2 ^ 64 - 1" "int ((now + ttl) div 1000000000) \<le> i64_max"
      "int ((now + NEGATIVE_CACHE_TTL) div 1000000000) \<le> i64_max"
    and input: "proxy_subscribe_input_to_proto (SubscribeRoute rid l) = Some (PbSubscribeRoute rid identity)"
  shows "case resolve_route l target db of
      Inl e \<Rightarrow> subscribe_route ttl target db rid identity st = Inl (store_error_to_status e)
    | Inr res \<Rightarrow> \<exists>resp st'. subscribe_route ttl target db rid identity st = Inr (resp, st')
        \<and> proxy_subscribe_response_from_proto now (Some resp) = Inr (answer_of rid (rs_next_number st + 1) l ttl res)
        \<and> validate_subscribe_response rid l (answer_of rid (rs_next_number st + 1) l ttl res) = Inr ()"
proof -
  have stable: "stable_identity l" using l by (intro plain_stable)
  have identity: "identity = Some (route_identity_to_proto l)" using input by simp
  have "validate_identity_size (route_identity_to_proto l) = Inr ()" "non_empty_field rid ''request_id'' = Inr rid" using size rid
    by (cases l; auto simp: validate_identity_size_def route_identity_to_proto_def route_host_to_proto_def non_empty_field_def split: option.splits)+
  note sub = subscribe_route_def identity cp_reads_identity [OF stable] this
  have ok: "routes_ok db" "payloads_ok db" unfolding db by (rule routes.reachable, rule payloads.reachable)
  have request: "fl_request_id rid = Inr rid" using rid by (simp add: fl_request_id_def RouteRequestId_new_def is_blank_def)
  show ?thesis
  proof (cases "resolve_route l target db")
    case (Inl e)
    then show ?thesis by (simp add: sub)
  next
    case (Inr res)
    show ?thesis
    proof (cases res)
      case (Resolved b e)
      note resolved = Inr [unfolded Resolved]
      obtain r where r: "selects l db r" "route_binding_from_row r = Inr r" "rr_identity r = b"
        using resolved_selects [OF resolved ok l(1)] by (metis active_route_subscription.ext_inject subscription_for_def)
      have "rank_match l b \<noteq> None" using r(1,3) rank_match_sql [OF l(3)] by (auto simp: selects_def)
      moreover have "fl_route_fields now (Some (route_identity_to_proto b)) (Some (route_entry_to_proto e))
          (Some (cache_policy_to_proto ttl)) = Inr (b, e, from_millis (as_millis ttl))"
        using fl_reads_identity stable_row [OF r(2)] r(3) resolved_entry_readable [OF resolved] cache_policy_round_trip [OF ttl(1,2)]
        by (simp add: fl_route_fields_def)
      ultimately show ?thesis
        using request subscription_name_ok
        by (simp add: Inr Resolved sub next_subscription_id_def Let_def answer_of_def
            proxy_subscribe_response_from_proto_def fl_subscription_id_def)
    next
      case (Miss policy)
      then have "policy = NEGATIVE_CACHE_TTL" using Inr resolve_route_Miss_policy by simp
      with ttl(3) have "cache_policy_from_proto now (cache_policy_to_proto policy) ''negative_cache_policy'' = Inr (from_millis (as_millis policy))"
        by (intro cache_policy_round_trip) (simp_all add: NEGATIVE_CACHE_TTL_def as_millis_def)
      then show ?thesis
        using request fl_reads_identity [OF stable]
        by (simp add: Inr Miss sub answer_of_def proxy_subscribe_response_from_proto_def)
    qed
  qed
qed

lemma frontline_understands_answer_witness:
  "\<exists>resp st'. subscribe_route 10000000000 sample_target (run no_yaml (take 2 sample_setup) (empty_db 600)) ''r''
      (Some (route_identity_to_proto sample_lookup)) route_stream_new = Inr (resp, st')
    \<and> proxy_subscribe_response_from_proto 7 (Some resp)
        = Inr (RouteResolved ''r'' \<lparr>si_value = ''sub:1'', si_session = None\<rparr> (bs_identity sample_route) sample_entry 10000000000)"
proof -
  let ?db = "run no_yaml (take 2 sample_setup) (empty_db 600)"
  have eval: "plain_host sample_lookup" "rooted sample_lookup" "has_path sample_lookup"
      "length (rh_host (identity_host sample_lookup)) \<le> 253" "identity_path sample_lookup = Some ''/x''" "\<not> is_blank ''r''"
      "resolve_route sample_lookup sample_target ?db = Inr (Resolved (bs_identity sample_route) sample_entry)"
      "answer_of ''r'' (rs_next_number route_stream_new + 1) sample_lookup 10000000000 (Resolved (bs_identity sample_route) sample_entry)
        = RouteResolved ''r'' \<lparr>si_value = ''sub:1'', si_session = None\<rparr> (bs_identity sample_route) sample_entry 10000000000"
    by code_simp+
  from frontline_understands_answer [where ttl = 10000000000 and now = 7 and target = sample_target and st = route_stream_new,
      OF HOL.refl eval(1-4) _ eval(6), of "Some (route_identity_to_proto sample_lookup)" no_yaml "take 2 sample_setup" 600]
  show ?thesis
    by (simp add: eval(5,7,8) as_millis_def i64_max_def NEGATIVE_CACHE_TTL_def) blast
qed

end
