(* ===== verification/Frontline_Results.thy ===== *)
theory Frontline_Results
  imports Proxy_Answers
begin

text \<open>
  What the frontline's resolver guarantees on top of its cache: messages never replace an answer by an
  older one, an invalidation takes effect, and a resolution always ends, with an answer that is still
  valid or an error.
\<close>

section \<open>Messages never go back\<close>

lemma stale_route_entry_refl: "stale_route_entry e e = None"
  by (simp add: stale_route_entry_def split: option.splits)

definition no_rewind :: "instant \<Rightarrow> route_cache \<Rightarrow> route_cache \<Rightarrow> bool" where
  "no_rewind now c c' \<longleftrightarrow> (\<forall>k e e'. positive c k = Some e \<and> positive c' k = Some e' \<and> now < pe_expires_at e
     \<longrightarrow> stale_route_entry (pe_entry e) (pe_entry e') = None)"

lemma no_rewind_frame: "\<forall>k. positive c' k = positive c k \<or> positive c' k = None \<Longrightarrow> no_rewind now c c'"
  unfolding no_rewind_def by (metis option.distinct(1) option.inject stale_route_entry_refl)

lemma no_rewind_pruned: "pruned Q c ids c' \<Longrightarrow> no_rewind now c c'"
  by (rule no_rewind_frame) (auto simp: pruned_def)

lemma no_rewind_insert_resolved:
  assumes ok: "cache_ok c" and sq: "ch_sequence c < ch_sequence c + 1" and ins: "insert_resolved req p now c = Some (ids, c')"
  shows "no_rewind now c c'"
proof -
  obtain ids0 c0 where ex: "expire_limited now 64 c = (ids0, c0)" by (cases "expire_limited now 64 c")
  have p0: "pruned (\<lambda>k e. pe_expires_at e \<le> now) c ids0 c0"
    using ok ex by (intro expire_limited_pruned) (simp_all add: cache_ok_def)
  from ok sq ex show ?thesis
  proof (cases rule: insert_resolved_cases [where req = req and p = p])
    case (stale e)
    obtain r c1 where "remove_positive req c0 = (r, c1)" by (cases "remove_positive req c0")
    then have "\<forall>k. positive c' k = positive c0 k \<or> positive c' k = None"
      using remove_positive_ok(3) [OF pruned_core [OF p0], of req r c1] stale(3) ins by auto
    then show ?thesis using p0 unfolding pruned_def by (intro no_rewind_frame) metis
  next
    case (fresh ids' c'')
    have "stale_route_entry (pe_entry e) (pe_entry e') = None"
      if "positive c k = Some e" "positive c' k = Some e'" "now < pe_expires_at e" for k e e'
    proof (cases "k = req")
      case True
      have "positive c0 req = Some e" using p0 that True unfolding pruned_def by (metis leD option.inject)
      moreover have "pe_entry e' = pe_entry p"
        using fresh(1,2) ins that(2) True by (auto simp: inserted_def split: if_splits)
      ultimately show ?thesis using fresh(3) by simp
    next
      case False
      then have "e' = e" using fresh(1,2) ins p0 that unfolding inserted_def pruned_def by (metis option.distinct(1) option.inject prod.inject)
      then show ?thesis by (simp add: stale_route_entry_refl)
    qed
    then show ?thesis unfolding no_rewind_def by blast
  qed
qed

lemma no_rewind_update: "cache_ok c \<Longrightarrow> apply_update sid matched entry ttl now c = (o', c') \<Longrightarrow> no_rewind now c c'"
proof -
  assume ok: "cache_ok c" and upd: "apply_update sid matched entry ttl now c = (o', c')"
  have same: "no_rewind now c c" by (rule no_rewind_frame) simp
  show ?thesis
  proof (cases "positive_by_subscription sid c")
    case (Some cur)
    then obtain k where k: "map_of (ch_by_subscription c) sid = Some k" "positive c k = Some cur"
      by (auto simp: positive_by_subscription_def bind_eq_Some_conv)
    show ?thesis
    proof (cases "stale_route_entry (pe_entry cur) entry")
      case None
      then have c': "c' = refresh_positive k matched entry ttl now c"
        using upd Some k by (simp add: apply_update_def replace_subscription_def)
      then show ?thesis
        using refresh_positive_ok(5) [OF ok c'] None k(2) stale_route_entry_refl by (auto simp: no_rewind_def split: if_splits)
    qed (use upd Some same in \<open>simp add: apply_update_def\<close>)
  qed (use upd same in \<open>simp add: apply_update_def\<close>)
qed

lemma pruned_invalidate:
  assumes "cache_core c"
  shows "pruned (\<lambda>k e. pe_subscription_id e = Some sid) c (filter (\<lambda>s. s = sid) (active_subscription_ids c)) (snd (invalidate_subscription sid c))"
proof -
  obtain r c' where r: "remove_positive_by_subscription sid c = (r, c')" by (cases "remove_positive_by_subscription sid c")
  have "set (released_ids r) = set (filter (\<lambda>s. s = sid) (active_subscription_ids c))"
    using pruned_remove_by_subscription(2) [OF assms r] held_active [OF assms] by auto
  with pruned_remove_by_subscription(1) [OF assms r] r show ?thesis
    by (simp add: pruned_def invalidate_subscription_def)
qed



section \<open>Invalidation\<close>

lemma invalidate_all_pruned:
  "cache_core c \<Longrightarrow> \<exists>ids. pruned (\<lambda>k e. pe_subscription_id e \<noteq> None) c ids (invalidate_all sids c)
     \<and> held (invalidate_all sids c) = held c - set sids"
proof (induction sids arbitrary: c)
  case (Cons sid sids)
  let ?c = "snd (invalidate_subscription sid c)"
  have p: "pruned (\<lambda>k e. pe_subscription_id e = Some sid) c (filter (\<lambda>s. s = sid) (active_subscription_ids c)) ?c"
    by (rule pruned_invalidate [OF Cons.prems])
  obtain ids where ids: "pruned (\<lambda>k e. pe_subscription_id e \<noteq> None) ?c ids (invalidate_all sids ?c)"
      "held (invalidate_all sids ?c) = held ?c - set sids"
    using Cons.IH [OF pruned_core [OF p]] by blast
  have "pruned (\<lambda>k e. pe_subscription_id e \<noteq> None) c (filter (\<lambda>s. s = sid) (active_subscription_ids c)) ?c"
    by (rule pruned_mono [OF p]) simp
  moreover have "held ?c = held c - {sid}"
    using p held_active [OF Cons.prems] unfolding pruned_def by auto
  ultimately show ?case using pruned_trans [OF _ ids(1)] ids(2) by (auto intro!: exI)
qed (auto intro: pruned_refl)

lemma pruned_exactly:
  assumes "pruned Q c ids c'" "\<And>e. positive c k = Some e \<Longrightarrow> Q k e \<Longrightarrow> \<exists>sid. pe_subscription_id e = Some sid \<and> sid \<notin> held c'"
  shows "positive c' k = (case positive c k of Some e \<Rightarrow> if Q k e then None else Some e | None \<Rightarrow> None)"
proof -
  have "positive c' k = positive c k \<or> positive c' k = None \<and> (\<exists>e. positive c k = Some e \<and> Q k e)"
    using assms(1) unfolding pruned_def by blast
  then show ?thesis
    using assms(2) by (cases "positive c k") (auto simp: held_def)
qed



section \<open>Resolutions end\<close>

text \<open>A cache that is consistent, of a given capacity, and can number that many further answers.\<close>

definition roomy :: "nat \<Rightarrow> nat \<Rightarrow> route_cache \<Rightarrow> bool" where
  "roomy cap n c \<longleftrightarrow> cache_ok c \<and> ch_capacity c = cap \<and> unat (ch_sequence c) + n < 2 ^ 64"

lemma capacity_remove_positive [simp]: "ch_capacity (snd (remove_positive i c)) = ch_capacity c"
  by (simp add: remove_positive_def split: option.splits)

lemma capacity_remove_by_subscription [simp]: "ch_capacity (snd (remove_positive_by_subscription sid c)) = ch_capacity c"
  by (simp add: remove_positive_by_subscription_def split: option.splits)

lemma capacity_remove_negative [simp]: "ch_capacity (snd (remove_negative i c)) = ch_capacity c"
  by (simp add: remove_negative_def split: option.splits)

lemma capacity_expire_limited [simp]: "cache_core c \<Longrightarrow> ch_capacity (snd (expire_limited now n c)) = ch_capacity c"
  using expire_limited_pruned [of c now n] by (cases "expire_limited now n c") (auto simp: pruned_def)

lemma capacity_evict_positives: "evict_positives fuel c = Some (ids, c') \<Longrightarrow> ch_capacity c' = ch_capacity c"
proof (induction fuel arbitrary: c ids)
  case (Suc fuel)
  show ?case
  proof (cases "bt_first_key_value (ch_positive_order c)")
    case (Some a)
    then show ?thesis
      using Suc.prems by (cases a) (auto simp: case_prod_beta split: if_splits dest!: Suc.IH)
  qed (use Suc.prems in \<open>simp split: if_splits\<close>)
qed (simp split: if_splits)

lemma capacity_evict_negatives: "evict_negatives fuel c = Some c' \<Longrightarrow> ch_capacity c' = ch_capacity c"
proof (induction fuel arbitrary: c)
  case (Suc fuel)
  show ?case
  proof (cases "bt_first_key_value (ch_negative_order c)")
    case (Some a)
    then show ?thesis using Suc.prems by (cases a) (auto split: if_splits dest!: Suc.IH)
  qed (use Suc.prems in \<open>simp split: if_splits\<close>)
qed (simp split: if_splits)

lemma capacity_refresh [simp]: "ch_capacity (refresh_positive i m e ttl now c) = ch_capacity c"
  by (simp add: refresh_positive_def Let_def split: option.splits)

lemma capacity_install_positive: "install_positive req p ids c = Some (ids', c') \<Longrightarrow> ch_capacity c' = ch_capacity c"
  by (auto simp: install_positive_def Let_def case_prod_beta index_positive_def dest!: capacity_evict_positives
      split: option.splits)

lemma capacity_insert_resolved:
  "cache_core c \<Longrightarrow> insert_resolved req p now c = Some (ids, c') \<Longrightarrow> ch_capacity c' = ch_capacity c"
  by (auto simp: insert_resolved_def Let_def case_prod_beta dest!: capacity_install_positive split: option.splits if_splits)

lemma capacity_insert_negative:
  "cache_core c \<Longrightarrow> insert_negative req ttl now c = Some (ids, c') \<Longrightarrow> ch_capacity c' = ch_capacity c"
  by (auto simp: insert_negative_def Let_def case_prod_beta index_negative_def dest!: capacity_evict_negatives)

lemma roomy_insert_resolved:
  assumes "roomy cap (Suc n) c"
  shows "\<exists>ids c'. insert_resolved req p now c = Some (ids, c') \<and> roomy cap n c'"
proof -
  have ok: "cache_ok c" "cache_core c" and sq: "ch_sequence c < ch_sequence c + 1" "unat (ch_sequence c + 1) = unat (ch_sequence c) + 1"
    using assms sequence_room [of "ch_sequence c"] by (simp_all add: roomy_def cache_ok_def)
  from insert_resolved_ok [OF ok(1) sq(1), of req p now] obtain ids c' where
      "insert_resolved req p now c = Some (ids, c')" "cache_ok c'" "ch_sequence c' = ch_sequence c \<or> ch_sequence c' = ch_sequence c + 1"
    by blast
  moreover from this(1) have "ch_capacity c' = ch_capacity c" by (rule capacity_insert_resolved [OF ok(2)])
  ultimately show ?thesis using assms sq(2) by (auto simp: roomy_def)
qed

lemma roomy_mono: "roomy cap n c \<Longrightarrow> m \<le> n \<Longrightarrow> roomy cap m c"
  by (simp add: roomy_def)

lemma roomy_pruned: "pruned Q c ids c' \<Longrightarrow> roomy cap n c \<Longrightarrow> roomy cap n c'"
  using cache_ok_pruned [of Q c ids c'] by (auto simp: roomy_def pruned_def)

lemma roomy_message:
  assumes "roomy cap (Suc n) c"
  shows "\<exists>outcome c'. apply_control_plane_message m now c = Some (outcome, c') \<and> roomy cap n c'"
proof (cases m)
  case (RouteResolved rid sid matched entry ttl)
  then show ?thesis
    using roomy_insert_resolved [OF assms, of matched "PositiveCacheEntry_new sid matched entry ttl now" now]
    by (auto simp: insert_positive_def)
next
  case (RouteMiss rid i ttl)
  have ok: "cache_ok c" "cache_core c" and sq: "ch_sequence c < ch_sequence c + 1" "unat (ch_sequence c + 1) = unat (ch_sequence c) + 1"
    using assms sequence_room [of "ch_sequence c"] by (simp_all add: roomy_def cache_ok_def)
  from insert_negative_ok [OF ok(1) sq(1), of i ttl now] obtain ids c' where
      "insert_negative i ttl now c = Some (ids, c')" "cache_ok c'" "ch_sequence c' = ch_sequence c + 1" by blast
  moreover from this(1) have "ch_capacity c' = ch_capacity c" by (rule capacity_insert_negative [OF ok(2)])
  ultimately show ?thesis using RouteMiss assms sq(2) by (auto simp: roomy_def)
next
  case (RouteUpdated sid matched entry ttl)
  have "roomy cap n (replace_subscription sid matched entry ttl now c)"
    using assms refresh_positive_ok [OF _ HOL.refl, of c] by (simp add: roomy_def replace_subscription_def split: option.splits)
  then show ?thesis
    using RouteUpdated roomy_mono [OF assms] by (simp add: apply_update_def split: option.splits)
next
  case (RouteInvalidated sid reason)
  have "cache_core c" using assms by (simp add: roomy_def cache_ok_def)
  from roomy_pruned [OF pruned_invalidate [OF this, of sid] assms] show ?thesis
    using RouteInvalidated roomy_mono by (cases "invalidate_subscription sid c") (simp add: roomy_def)
qed

lemma roomy_resolved_response:
  "roomy cap (Suc n) c \<Longrightarrow> \<exists>outcome c'. apply_resolved_response req m now c = Some (outcome, c') \<and> roomy cap n c'"
proof (cases m)
  case (RouteResolved rid sid matched entry ttl)
  assume "roomy cap (Suc n) c"
  from roomy_insert_resolved [OF this, of req "PositiveCacheEntry_new sid matched entry ttl now" now] show ?thesis
    using RouteResolved by (auto simp: apply_resolved_response_def)
qed (use roomy_message [of cap n c m now] in \<open>simp_all add: apply_resolved_response_def del: apply_control_plane_message.simps\<close>)

lemma roomy_invalidate_active: "roomy cap n c \<Longrightarrow> roomy cap n (invalidate_active_subscriptions c)"
proof -
  assume r: "roomy cap n c"
  then have "cache_core c" by (simp add: roomy_def cache_ok_def)
  from invalidate_all_pruned [OF this] r show ?thesis
    unfolding invalidate_active_subscriptions_def by (blast intro: roomy_pruned)
qed

lemma roomy_drain:
  "roomy cap (length es + n) c \<Longrightarrow> \<exists>ids c'. drain_subscription_events es now c = Some (ids, c') \<and> roomy cap n c'"
proof (induction es arbitrary: c)
  case (Cons x es)
  show ?case
  proof (cases x)
    case (EventUpdate m)
    obtain outcome c' where m: "apply_control_plane_message m now c = Some (outcome, c')" "roomy cap (length es + n) c'"
      using roomy_message Cons.prems by fastforce
    from Cons.IH [OF m(2)] show ?thesis using EventUpdate m by auto
  qed (use Cons.IH [OF roomy_invalidate_active [OF roomy_mono [OF Cons.prems]]] in simp_all)
qed simp

text \<open>
  The calls on a resolver. What the client returns is part of the call; an event or an answer takes at
  most one number of the cache.
\<close>

datatype 'e resolver_call =
    CallResolve "'e + subscription_event list" "string \<Rightarrow> route_identity \<Rightarrow> 'e + subscribe_output" route_identity instant
  | CallMaintain "'e + subscription_event list" instant
  | CallMessage subscribe_output instant
  | CallReadyWake positive_cache_entry route_entry instant

primrec resolver_exec :: "'e resolver_call \<Rightarrow> route_resolver \<Rightarrow> route_resolver option" where
  "resolver_exec (CallResolve events subscribe i now) r = map_option (snd \<circ> snd) (resolve events subscribe i now r)"
| "resolver_exec (CallMaintain events now) r = map_option (snd \<circ> snd) (maintain_resolver events now r)"
| "resolver_exec (CallMessage m now) r =
     map_option (\<lambda>(_, c). r\<lparr>fr_cache := c\<rparr>) (apply_control_plane_message m now (fr_cache r))"
| "resolver_exec (CallReadyWake cached ready now) r =
     Some (r\<lparr>fr_cache := snd (apply_ready_wake cached ready now (fr_cache r))\<rparr>)"

fun resolver_run :: "'e resolver_call list \<Rightarrow> route_resolver \<Rightarrow> route_resolver option" where
  "resolver_run [] r = Some r"
| "resolver_run (x # xs) r = Option.bind (resolver_exec x r) (resolver_run xs)"

definition events_count :: "'e + subscription_event list \<Rightarrow> nat" where
  "events_count events = (case events of Inl _ \<Rightarrow> 0 | Inr es \<Rightarrow> length es)"

primrec call_weight :: "'e resolver_call \<Rightarrow> nat" where
  "call_weight (CallResolve events subscribe i now) = Suc (events_count events)"
| "call_weight (CallMaintain events now) = Suc (events_count events)"
| "call_weight (CallMessage m now) = 1"
| "call_weight (CallReadyWake cached ready now) = 1"

definition valid_answer :: "route_identity \<Rightarrow> instant \<Rightarrow> frontline_resolution \<Rightarrow> bool" where
  "valid_answer i now a \<longleftrightarrow>
     (case a of
        FrontlineResolved e \<Rightarrow> pe_request_identity e = i \<and> now < pe_expires_at e
      | FrontlineMiss e \<Rightarrow> ne_request_identity e = i \<and> now < ne_expires_at e)"

lemma usable_answer_valid: "cache_ok c \<Longrightarrow> usable_answer i now c = Some a \<Longrightarrow> valid_answer i now a"
  by (auto simp: usable_answer_def cache_lookup_def valid_answer_def cache_ok_def cache_core_def entries_ok_def
      split: option.splits if_splits)

lemma next_request_cache [simp]: "fr_cache (snd (next_request_id r)) = fr_cache r"
  by (simp add: next_request_id_def Let_def)

lemma roomy_subscribe_and_apply:
  assumes "roomy cap (Suc n) (fr_cache r)"
  shows "\<exists>res ids r'. subscribe_and_apply subscribe i now r = Some (res, ids, r') \<and> roomy cap n (fr_cache r')
    \<and> (\<forall>a. res = Inr a \<longrightarrow> valid_answer i now a)"
proof -
  obtain rid r1 where r1: "next_request_id r = (rid, r1)" by (cases "next_request_id r")
  then have room: "roomy cap (Suc n) (fr_cache r1)" using assms next_request_cache [of r] by simp
  note same = roomy_mono [OF room, of n]
  show ?thesis
  proof (cases "subscribe rid i")
    case (Inr m)
    obtain outcome c' where a: "apply_resolved_response i m now (fr_cache r1) = Some (outcome, c')" "roomy cap n c'"
      using roomy_resolved_response [OF room] by blast
    then have "valid_answer i now x" if "usable_answer i now c' = Some x" for x
      using usable_answer_valid [OF _ that] by (simp add: roomy_def)
    then show ?thesis
      using Inr a same by (cases "validate_subscribe_response rid i m") (auto simp: subscribe_and_apply_def r1 split: option.splits)
  qed (simp add: subscribe_and_apply_def r1 same)
qed

lemma roomy_resolve:
  assumes "roomy cap (Suc (events_count events) + n) (fr_cache r)"
  shows "\<exists>res ids r'. resolve events subscribe i now r = Some (res, ids, r') \<and> roomy cap n (fr_cache r')
    \<and> (\<forall>a. res = Inr a \<longrightarrow> valid_answer i now a)"
proof (cases events)
  case (Inl e)
  then show ?thesis using assms roomy_mono [of cap _ _ n] by (simp add: resolve_def)
next
  case (Inr es)
  then have "roomy cap (length es + Suc n) (fr_cache r)" using assms by (simp add: events_count_def)
  from roomy_drain [OF this, of now] obtain ids c where
    d: "drain_subscription_events es now (fr_cache r) = Some (ids, c)" "roomy cap (Suc n) c" by blast
  show ?thesis
  proof (cases "usable_answer i now c")
    case None
    obtain res ids' r' where "subscribe_and_apply subscribe i now (r\<lparr>fr_cache := c\<rparr>) = Some (res, ids', r')"
        "roomy cap n (fr_cache r')" "\<forall>a. res = Inr a \<longrightarrow> valid_answer i now a"
      using roomy_subscribe_and_apply [of cap n "r\<lparr>fr_cache := c\<rparr>" subscribe i now] d(2) by auto
    then show ?thesis using Inr None d(1) by (simp add: resolve_def)
  next
    case (Some a)
    then show ?thesis
      using Inr d roomy_mono [OF d(2), of n] usable_answer_valid [OF _ Some] by (simp add: resolve_def roomy_def)
  qed
qed

lemma roomy_maintain:
  assumes "roomy cap (events_count events + n) (fr_cache r)"
  shows "\<exists>res ids r'. maintain_resolver events now r = Some (res, ids, r') \<and> roomy cap n (fr_cache r')"
proof (cases events)
  case (Inl e)
  then show ?thesis using assms roomy_mono [of cap _ _ n] by (simp add: maintain_resolver_def)
next
  case (Inr es)
  then have "roomy cap (length es + n) (fr_cache r)" using assms by (simp add: events_count_def)
  from roomy_drain [OF this, of now] obtain ids c where
    d: "drain_subscription_events es now (fr_cache r) = Some (ids, c)" "roomy cap n c" by blast
  obtain ids' c' where e: "expire now c = (ids', c')" by (cases "expire now c")
  have "cache_core c" using d(2) by (simp add: roomy_def cache_ok_def)
  from roomy_pruned [OF expire_limited_pruned [OF this e [unfolded expire_def]] d(2)] have "roomy cap n c'" .
  then show ?thesis using Inr d(1) e by (simp add: maintain_resolver_def)
qed

lemma roomy_ready_wake: "roomy cap n c \<Longrightarrow> roomy cap n (snd (apply_ready_wake cached ready now c))"
  using refresh_positive_ok [OF _ HOL.refl, of c]
  by (auto simp: apply_ready_wake_def Let_def roomy_def split: option.splits)

lemma roomy_exec:
  assumes "roomy cap (call_weight x + n) (fr_cache r)"
  shows "\<exists>r'. resolver_exec x r = Some r' \<and> roomy cap n (fr_cache r')"
proof (cases x)
  case (CallResolve events subscribe i now)
  then show ?thesis using roomy_resolve [of cap events n r subscribe i now] assms by auto
next
  case (CallMaintain events now)
  then show ?thesis using roomy_maintain [of cap events n r now] roomy_mono [OF assms, of "events_count events + n"] by auto
next
  case (CallMessage m now)
  then show ?thesis using roomy_message [of cap n "fr_cache r" m now] assms by auto
next
  case (CallReadyWake cached ready now)
  then show ?thesis using roomy_ready_wake [OF roomy_mono [OF assms, of n]] by simp
qed

lemma roomy_run:
  "roomy cap (sum_list (map call_weight xs) + n) (fr_cache r) \<Longrightarrow> \<exists>r'. resolver_run xs r = Some r' \<and> roomy cap n (fr_cache r')"
proof (induction xs arbitrary: r)
  case (Cons x xs)
  then obtain r1 where "resolver_exec x r = Some r1" "roomy cap (sum_list (map call_weight xs) + n) (fr_cache r1)"
    using roomy_exec [of cap x "sum_list (map call_weight xs) + n" r] by (auto simp: add.assoc)
  with Cons.IH show ?case by auto
qed auto

lemma roomy_new: "n < 2 ^ 64 \<Longrightarrow> roomy cap n (fr_cache (route_resolver_new cap))"
  by (simp add: roomy_def route_resolver_new_def cache_ok_new) (simp add: RouteCache_new_def)

lemma subscriptions_at_most_positives:
  assumes "cache_core c"
  shows "length (ch_by_subscription c) \<le> length (ch_positives c)"
proof -
  have sub: "subscriptions_ok c" and d: "distinct (map fst (ch_by_subscription c))"
    using assms by (simp_all add: cache_core_def subscriptions_ok_def)
  let ?held = "(\<lambda>(k, e). pe_subscription_id e) ` set (ch_positives c)"
  have "Some sid \<in> ?held" if sid: "sid \<in> set (map fst (ch_by_subscription c))" for sid
  proof -
    obtain k where "map_of (ch_by_subscription c) sid = Some k"
      using sid by (cases "map_of (ch_by_subscription c) sid") (auto simp: map_of_eq_None_iff)
    then obtain e where e: "positive c k = Some e" "pe_subscription_id e = Some sid" using subscriptions_ok_get [OF sub] by blast
    then show ?thesis using map_of_SomeD [OF e(1)] by (force simp: image_iff)
  qed
  then have "Some ` set (map fst (ch_by_subscription c)) \<subseteq> ?held" by blast
  then have "card (Some ` set (map fst (ch_by_subscription c))) \<le> card ?held" by (rule card_mono [rotated]) simp
  also have "\<dots> \<le> card (set (ch_positives c))" by (rule card_image_le) simp
  also have "\<dots> \<le> length (ch_positives c)" by (rule card_length)
  finally show ?thesis using distinct_card [OF d] by (simp add: card_image)
qed


definition sample_client :: "string \<Rightarrow> route_identity \<Rightarrow> unit + subscribe_output" where
  "sample_client rid i = Inr (RouteResolved rid (sample_subscription rid) i (sample_route_entry 1) 10)"

definition sample_calls :: "unit resolver_call list" where
  "sample_calls =
     [CallResolve (Inr []) sample_client (sample_identity ''/x'') 0,
      CallResolve (Inr [StreamEnded]) sample_client (sample_identity ''/y'') 1, CallMaintain (Inr []) 20]"


text \<open>
  C23. The resolver's memory is bounded by its capacity: after any calls that saw fewer than
  \<^term>\<open>2 ^ 64\<close> events and requests, it holds at most as many answers, as many misses and as many
  subscriptions as its configured capacity.
\<close>

theorem resolver_within_capacity:
  assumes "sum_list (map call_weight xs) < 2 ^ 64"
  shows "\<exists>r. resolver_run xs (route_resolver_new cap) = Some r \<and> length (ch_positives (fr_cache r)) \<le> cap
    \<and> length (ch_negatives (fr_cache r)) \<le> cap \<and> length (active_subscription_ids (fr_cache r)) \<le> cap"
proof -
  obtain r where r: "resolver_run xs (route_resolver_new cap) = Some r" "roomy cap 0 (fr_cache r)"
    using roomy_run [OF roomy_new, of xs 0 cap] assms by auto
  then have "length (ch_by_subscription (fr_cache r)) \<le> length (ch_positives (fr_cache r))"
    by (simp add: subscriptions_at_most_positives roomy_def cache_ok_def)
  with r show ?thesis by (auto simp: roomy_def cache_ok_def active_subscription_ids_def)
qed

lemma resolver_within_capacity_witness:
  "\<exists>r. resolver_run (take 2 sample_calls) (route_resolver_new 1) = Some r \<and> length (ch_positives (fr_cache r)) = 1"
proof -
  have w: "sum_list (map call_weight (take 2 sample_calls)) < 2 ^ 64"
    by (simp add: sample_calls_def events_count_def)
  have "map_option (\<lambda>r. ch_positives (fr_cache r) \<noteq> []) (resolver_run (take 2 sample_calls) (route_resolver_new 1)) = Some True"
    by code_simp
  with resolver_within_capacity [OF w, of 1] show ?thesis
    by (auto simp: le_Suc_eq)
qed

end
