(* ===== verification/Spec2Isabelle.thy ===== *)
theory Spec2Isabelle
  imports Ids Sleep_Policy Retry Instance_State Workload Routes Deletion_Results Frontline_Results
begin

text \<open>
  Sleepypods runs tenant workloads that sleep when idle and wake on traffic. This development
  models the control plane's core.
\<close>

end
